theory Spec2Isabelle
  imports Complex_Main "HOL-Library.Sublist"
begin

section \<open>JavaScript numbers\<close>

text \<open>
  A JavaScript number is an IEEE 754 double: NaN, one of the two infinities, or a finite
  value. A finite double is read as the real number it denotes, so that comparison of
  doubles is comparison of reals. The sign of zero is not part of the model.
\<close>

datatype num = NaN | NegInf | Fin real | PosInf

text \<open>
  Every arithmetic operation, and the reading of every decimal numeral, yields the double
  nearest to the exact result, the one with the even significand on a tie. \<open>rne\<close> is the
  integer nearest to a real, the even one on a tie.
\<close>

definition rne :: "real \<Rightarrow> int" where
  "rne t =
     (let f = \<lfloor>t\<rfloor>
      in if t - of_int f < 1 / 2 then f
         else if 1 / 2 < t - of_int f then f + 1
         else if even f then f else f + 1)"

definition pow2 :: "int \<Rightarrow> real" where
  "pow2 e = (if 0 \<le> e then 2 ^ nat e else 1 / 2 ^ nat (- e))"

text \<open>
  The exponent of the binade of a real \<open>x\<close>: the least \<open>e\<close> from \<open>-1022\<close> on with
  \<open>|x| < 2^(e+1)\<close>, and 1023, the exponent of the largest doubles, when there is none
  up to there. So \<open>2^e \<le> |x| < 2^(e+1)\<close> in the normal range, and \<open>e = -1022\<close> in
  the subnormal range below \<open>2^(-1022)\<close>. The doubles of that binade are the multiples
  of \<open>2^(e-52)\<close>. The search looks at the 2046 exponents of a double in turn.
\<close>

fun expo_from :: "nat \<Rightarrow> int \<Rightarrow> real \<Rightarrow> int" where
  "expo_from 0 e x = e"
| "expo_from (Suc n) e x = (if \<bar>x\<bar> < pow2 (e + 1) then e else expo_from n (e + 1) x)"

definition expo :: "real \<Rightarrow> int" where
  "expo x = expo_from 2045 (- 1022) x"

text \<open>The nearest multiple of the spacing of the binade.\<close>

definition rd :: "real \<Rightarrow> real" where
  "rd x = (if x = 0 then 0
           else of_int (rne (x / pow2 (expo x - 52))) * pow2 (expo x - 52))"

text \<open>
  The number a real rounds to: the nearest double, or an infinity when that lies beyond
  the largest double.
\<close>

definition dbl :: "real \<Rightarrow> num" where
  "dbl x = (if 2 ^ 1024 \<le> \<bar>rd x\<bar> then (if 0 < x then PosInf else NegInf) else Fin (rd x))"

text \<open>\<open>a > b\<close>: false as soon as one side is NaN.\<close>

fun num_gt :: "num \<Rightarrow> num \<Rightarrow> bool" where
  "num_gt (Fin x) (Fin y) = (y < x)"
| "num_gt (Fin x) NegInf = True"
| "num_gt PosInf (Fin y) = True"
| "num_gt PosInf NegInf = True"
| "num_gt _ _ = False"

text \<open>\<open>a < b\<close>.\<close>

definition num_lt :: "num \<Rightarrow> num \<Rightarrow> bool" where
  "num_lt a b = num_gt b a"

text \<open>\<open>a <= b\<close> and \<open>a >= b\<close>: false as soon as one side is NaN.\<close>

definition num_le :: "num \<Rightarrow> num \<Rightarrow> bool" where
  "num_le a b = (a \<noteq> NaN \<and> b \<noteq> NaN \<and> \<not> num_gt a b)"

definition num_ge :: "num \<Rightarrow> num \<Rightarrow> bool" where
  "num_ge a b = num_le b a"

text \<open>\<open>Number.isFinite\<close>.\<close>

fun isFinite :: "num \<Rightarrow> bool" where
  "isFinite (Fin x) = True"
| "isFinite _ = False"

text \<open>\<open>a + b\<close>.\<close>

fun num_add :: "num \<Rightarrow> num \<Rightarrow> num" where
  "num_add NaN _ = NaN"
| "num_add _ NaN = NaN"
| "num_add (Fin x) (Fin y) = dbl (x + y)"
| "num_add PosInf NegInf = NaN"
| "num_add NegInf PosInf = NaN"
| "num_add PosInf _ = PosInf"
| "num_add _ PosInf = PosInf"
| "num_add NegInf _ = NegInf"
| "num_add _ NegInf = NegInf"

text \<open>\<open>a * b\<close>: an infinity times zero is NaN.\<close>

definition inf_of_sign :: "bool \<Rightarrow> num" where
  "inf_of_sign positive = (if positive then PosInf else NegInf)"

fun num_mul :: "num \<Rightarrow> num \<Rightarrow> num" where
  "num_mul NaN _ = NaN"
| "num_mul _ NaN = NaN"
| "num_mul (Fin x) (Fin y) = dbl (x * y)"
| "num_mul PosInf (Fin y) = (if y = 0 then NaN else inf_of_sign (0 < y))"
| "num_mul NegInf (Fin y) = (if y = 0 then NaN else inf_of_sign (y < 0))"
| "num_mul (Fin x) PosInf = (if x = 0 then NaN else inf_of_sign (0 < x))"
| "num_mul (Fin x) NegInf = (if x = 0 then NaN else inf_of_sign (x < 0))"
| "num_mul PosInf PosInf = PosInf"
| "num_mul NegInf NegInf = PosInf"
| "num_mul PosInf NegInf = NegInf"
| "num_mul NegInf PosInf = NegInf"

text \<open>\<open>a - b\<close>: negation is exact.\<close>

fun num_neg :: "num \<Rightarrow> num" where
  "num_neg NaN = NaN"
| "num_neg NegInf = PosInf"
| "num_neg (Fin x) = Fin (- x)"
| "num_neg PosInf = NegInf"

definition num_sub :: "num \<Rightarrow> num \<Rightarrow> num" where
  "num_sub a b = num_add a (num_neg b)"

text \<open>
  \<open>a / d\<close> for a finite divisor \<open>d > 0\<close>. The program divides by the literal 8 and,
  under the guard \<open>uses > 0\<close>, by a use count; the quotient by zero is never asked for.
\<close>

fun num_div_pos :: "num \<Rightarrow> real \<Rightarrow> num" where
  "num_div_pos (Fin x) d = dbl (x / d)"
| "num_div_pos a d = a"

text \<open>\<open>Math.max(a, b)\<close> and \<open>Math.min(a, b)\<close>: NaN as soon as one argument is NaN.\<close>

definition num_max :: "num \<Rightarrow> num \<Rightarrow> num" where
  "num_max a b = (if a = NaN \<or> b = NaN then NaN else if num_gt b a then b else a)"

definition num_min :: "num \<Rightarrow> num \<Rightarrow> num" where
  "num_min a b = (if a = NaN \<or> b = NaN then NaN else if num_gt a b then b else a)"

text \<open>
  \<open>x.toFixed(d)\<close> on a finite double \<open>x\<close> with \<open>|x| < 10^21\<close> prints \<open>n / 10^d\<close> for
  the integer \<open>n\<close> nearest to \<open>|x| * 10^d\<close>, the larger one on a tie, with the sign of
  \<open>x\<close>; from \<open>10^21\<close> on it prints \<open>x\<close> itself. The rounding looks at the exact value
  of the double, not at the decimal numeral the double came from. \<open>round_fixed d x\<close> is
  the value printed.
\<close>

definition round_fixed :: "nat \<Rightarrow> real \<Rightarrow> real" where
  "round_fixed d x =
     (if 10 ^ 21 \<le> \<bar>x\<bar> then x
      else sgn x * of_int \<lfloor>\<bar>x\<bar> * 10 ^ d + 1 / 2\<rfloor> / 10 ^ d)"

text \<open>
  \<open>Number(a.toFixed(d))\<close>: the printed decimal is read back as the nearest double; NaN
  and the infinities print as their names and read back.
\<close>

fun toFixed :: "nat \<Rightarrow> num \<Rightarrow> num" where
  "toFixed d (Fin x) = dbl (round_fixed d x)"
| "toFixed d a = a"

section \<open>Strings\<close>

text \<open>
  A string is the list of its code units; the model covers the code units below 256
  (Latin-1), which is what an Isabelle character holds.
\<close>

text \<open>\<open>String.prototype.toLowerCase\<close> on these code units: A-Z and the Latin-1 capitals.\<close>

definition lower_char :: "char \<Rightarrow> char" where
  "lower_char c =
     (let n = of_char c :: nat
      in if (65 \<le> n \<and> n \<le> 90) \<or> (192 \<le> n \<and> n \<le> 222 \<and> n \<noteq> 215)
         then char_of (n + 32) else c)"

definition toLowerCase :: "string \<Rightarrow> string" where
  "toLowerCase s = map lower_char s"

text \<open>
  White space and line terminators, as \<open>trim\<close> and the regular expression class
  \<open>\s\<close> see them: tab, line feed, vertical tab, form feed, carriage return, space
  and the no-break space.
\<close>

definition is_space :: "char \<Rightarrow> bool" where
  "is_space c = (of_char c \<in> {9, 10, 11, 12, 13, 32, 160 :: nat})"

definition trim :: "string \<Rightarrow> string" where
  "trim s = rev (dropWhile is_space (rev (dropWhile is_space s)))"

text \<open>\<open>s.includes(t)\<close>: \<open>t\<close> occurs in \<open>s\<close> as a contiguous block.\<close>

fun str_includes :: "string \<Rightarrow> string \<Rightarrow> bool" where
  "str_includes [] t = (t = [])"
| "str_includes (c # s) t = (take (length t) (c # s) = t \<or> str_includes s t)"

section \<open>Data model\<close>

text \<open>
  A lead, as read from \<open>leads.json\<close>. The fields the program guards with \<open>??\<close> or
  \<open>typeof\<close> are optional: \<open>None\<close> is a missing or null \<open>channel\<close> and
  \<open>sentiment\<close>, and a \<open>phoneNumber\<close> that is not a string.
\<close>

record lead =
  lead_id :: string
  name :: string
  goal :: string
  offer :: string
  message :: string
  channel :: "string option"
  objectionType :: string
  sentiment :: "string option"
  phoneNumber :: "string option"

text \<open>The result of one evaluation.\<close>

record evaluation =
  score :: num
  conversionProbability :: num
  source :: string
  ev_notes :: "string option"

text \<open>
  The statistics of one strategy. \<open>uses\<close> is a count of updates, an integer far below
  \<open>2^53\<close>, the range in which a double holds every integer exactly.
\<close>

record stats =
  uses :: int
  totalScore :: num
  avgScore :: num

text \<open>The exploration policy; a field missing from the file is \<open>None\<close>.\<close>

record policy =
  epsilon :: "num option"
  decay :: "num option"
  minEpsilon :: "num option"

record history_event =
  h_timestamp :: string
  h_epoch :: nat
  h_leadId :: string
  h_objectionType :: string
  h_strategy :: string
  h_score :: num
  h_conversionProbability :: num
  h_responsePreview :: string

text \<open>
  The policy memory of \<open>memory.json\<close>. \<open>strategyStats\<close> and \<open>objectionPolicy\<close> are
  objects keyed by strings; \<open>mem_policy\<close> is \<open>None\<close> when the file has no \<open>policy\<close>.
\<close>

record memory =
  runs :: int
  mem_policy :: "policy option"
  strategyStats :: "string \<rightharpoonup> stats"
  objectionPolicy :: "string \<rightharpoonup> string"
  history :: "history_event list"

text \<open>
  What the program throws, and the rejections it does not catch: of a \<open>fetch\<close>, and of
  the write of a file.
\<close>

datatype error = TypeError | FetchRejection | WriteRejection

section \<open>Strategy selection (run.mjs)\<close>

definition STRATEGIES :: "string list" where
  "STRATEGIES = [''consultative'', ''social_proof'', ''urgent_offer'']"

definition TEXT_CHANNELS :: "string list" where
  "TEXT_CHANNELS = [''instagram_dm'', ''whatsapp'']"

definition getAverage :: "stats \<Rightarrow> num" where
  "getAverage st = (if 0 < uses st then num_div_pos (totalScore st) (of_int (uses st)) else Fin 0)"

text \<open>\<open>memory.strategyStats[strategy]?.avgScore ?? 0\<close>.\<close>

definition storedAvg :: "memory \<Rightarrow> string \<Rightarrow> num" where
  "storedAvg m s = (case strategyStats m s of None \<Rightarrow> Fin 0 | Some st \<Rightarrow> avgScore st)"

text \<open>The loop of \<open>pickBestStrategy\<close> over the catalog, carrying \<open>best\<close> and \<open>bestScore\<close>.\<close>

fun bestLoop :: "memory \<Rightarrow> string list \<Rightarrow> string \<times> num \<Rightarrow> string \<times> num" where
  "bestLoop m [] acc = acc"
| "bestLoop m (s # ss) (best, bestScore) =
     (let avg = storedAvg m s
      in if num_gt avg bestScore then bestLoop m ss (s, avg)
         else bestLoop m ss (best, bestScore))"

text \<open>
  \<open>mapped && STRATEGIES.includes(mapped)\<close>: the entry is used when it is a non-empty
  string of the catalog. A key the object does not own reads as \<open>undefined\<close> or as a
  property inherited from \<open>Object.prototype\<close>; neither is in the catalog, so both fall
  through to the loop, as \<open>None\<close> does here.
\<close>

definition pickBestStrategy :: "memory \<Rightarrow> string \<Rightarrow> string" where
  "pickBestStrategy m objType =
     (case objectionPolicy m objType of
        Some mapped \<Rightarrow>
          if mapped \<noteq> [] \<and> mapped \<in> set STRATEGIES then mapped
          else fst (bestLoop m STRATEGIES (STRATEGIES ! 0, NegInf))
      | None \<Rightarrow> fst (bestLoop m STRATEGIES (STRATEGIES ! 0, NegInf)))"

definition pickWarmupStrategy :: "nat \<Rightarrow> string" where
  "pickWarmupStrategy index = STRATEGIES ! (index mod length STRATEGIES)"

text \<open>
  The selection of \<open>main\<close> for one lead: \<open>epoch <= warmupEpochs ? pickWarmupStrategy(events.length)
  : pickBestStrategy(memory, lead.objectionType)\<close>. \<open>warmupEpochs\<close> is \<open>Number\<close> of a
  command-line argument and may be NaN.
\<close>

definition selectStrategy :: "nat \<Rightarrow> num \<Rightarrow> nat \<Rightarrow> memory \<Rightarrow> string \<Rightarrow> string" where
  "selectStrategy epoch warmupEpochs index m objType =
     (if num_le (Fin (real epoch)) warmupEpochs then pickWarmupStrategy index
      else pickBestStrategy m objType)"

section \<open>Memory update (run.mjs)\<close>

text \<open>
  The loop of \<open>updateMemory\<close> over \<open>Object.entries(candidateScores)\<close>, carrying
  \<open>bestForLead\<close> and \<open>bestScore\<close>. The candidate map is the list of its entries in
  the order the object enumerates them.
\<close>

fun candLoop :: "(string \<times> evaluation) list \<Rightarrow> string \<times> num \<Rightarrow> string \<times> num" where
  "candLoop [] acc = acc"
| "candLoop ((candidateStrategy, candidateResult) # rest) (bestForLead, bestScore) =
     (if num_gt (score candidateResult) bestScore
      then candLoop rest (candidateStrategy, score candidateResult)
      else candLoop rest (bestForLead, bestScore))"

text \<open>
  \<open>obj[key] = value\<close> on an object read from JSON, for a string \<open>value\<close>. The one key
  that does not behave as a map key is \<open>__proto__\<close>: unless the object owns a property
  of that name, the assignment reaches the setter inherited from \<open>Object.prototype\<close>,
  which ignores a value that is not an object.
\<close>

definition set_property :: "(string \<rightharpoonup> string) \<Rightarrow> string \<Rightarrow> string \<Rightarrow> (string \<rightharpoonup> string)" where
  "set_property obj k v = (if k = ''__proto__'' \<and> obj k = None then obj else obj(k \<mapsto> v))"

text \<open>
  \<open>updateMemory\<close> mutates the memory in place; the model returns the new memory.
  \<open>memory.strategyStats[strategy]\<close> is \<open>undefined\<close> for a strategy without an entry,
  and \<open>stats.uses\<close> then throws. \<open>now\<close> is \<open>new Date().toISOString()\<close>.
\<close>

definition updateMemory ::
  "memory \<Rightarrow> lead \<Rightarrow> string \<Rightarrow> evaluation \<Rightarrow> nat \<Rightarrow> string \<Rightarrow>
   (string \<times> evaluation) list \<Rightarrow> string \<Rightarrow> error + memory" where
  "updateMemory m ld strategy result epoch response candidateScores now =
     (case strategyStats m strategy of
        None \<Rightarrow> Inl TypeError
      | Some st \<Rightarrow>
          let st1 = st\<lparr>uses := uses st + 1\<rparr>;
              st2 = st1\<lparr>totalScore := toFixed 4 (num_add (totalScore st1) (score result))\<rparr>;
              st3 = st2\<lparr>avgScore := toFixed 4 (getAverage st2)\<rparr>;
              bestForLead = fst (candLoop candidateScores (strategy, score result));
              pushed = history m @
                [\<lparr>h_timestamp = now, h_epoch = epoch, h_leadId = lead_id ld,
                  h_objectionType = objectionType ld, h_strategy = strategy,
                  h_score = score result,
                  h_conversionProbability = conversionProbability result,
                  h_responsePreview = take 180 response\<rparr>]
          in Inr (m\<lparr>strategyStats := (strategyStats m)(strategy \<mapsto> st3),
                    objectionPolicy :=
                      set_property (objectionPolicy m) (objectionType ld) bestForLead,
                    history :=
                      (if 200 < length pushed then drop (length pushed - 200) pushed
                       else pushed)\<rparr>))"

text \<open>
  \<open>decayExploration\<close>: the three reads go through \<open>?.\<close> and \<open>??\<close> and fall back to
  0.2, 0.8 and 0.05; the write \<open>memory.policy.epsilon = ...\<close> throws when there is no
  \<open>policy\<close>.
\<close>

definition policy_field :: "policy option \<Rightarrow> (policy \<Rightarrow> num option) \<Rightarrow> num \<Rightarrow> num" where
  "policy_field p field fallback =
     (case p of None \<Rightarrow> fallback
      | Some q \<Rightarrow> (case field q of None \<Rightarrow> fallback | Some v \<Rightarrow> v))"

definition decayExploration :: "memory \<Rightarrow> error + memory" where
  "decayExploration m =
     (let eps = policy_field (mem_policy m) epsilon (dbl 0.2);
          dec = policy_field (mem_policy m) decay (dbl 0.8);
          minEps = policy_field (mem_policy m) minEpsilon (dbl 0.05)
      in case mem_policy m of
           None \<Rightarrow> Inl TypeError
         | Some q \<Rightarrow>
             Inr (m\<lparr>mem_policy :=
                    Some (q\<lparr>epsilon := Some (toFixed 4 (num_max minEps (num_mul eps dec)))\<rparr>)\<rparr>))"

text \<open>The memory written by \<open>reset.mjs\<close>.\<close>

definition INITIAL_MEMORY :: memory where
  "INITIAL_MEMORY =
     \<lparr>runs = 0,
      mem_policy = Some \<lparr>epsilon = Some (dbl 0.45), decay = Some (dbl 0.7),
                         minEpsilon = Some (dbl 0.05)\<rparr>,
      strategyStats =
        [''consultative'' \<mapsto> \<lparr>uses = 0, totalScore = Fin 0, avgScore = Fin 0\<rparr>,
         ''social_proof'' \<mapsto> \<lparr>uses = 0, totalScore = Fin 0, avgScore = Fin 0\<rparr>,
         ''urgent_offer'' \<mapsto> \<lparr>uses = 0, totalScore = Fin 0, avgScore = Fin 0\<rparr>],
      objectionPolicy = Map.empty,
      history = []\<rparr>"

section \<open>Escalation decision (run.mjs)\<close>

text \<open>
  \<open>minEpochForVoice\<close> is \<open>Number\<close> of a command-line argument and may be NaN;
  \<open>epoch\<close> is the loop counter of \<open>main\<close>.
\<close>

definition shouldEscalateToVoice :: "lead \<Rightarrow> evaluation \<Rightarrow> nat \<Rightarrow> num \<Rightarrow> bool" where
  "shouldEscalateToVoice ld result epoch minEpochForVoice =
     (let chan = toLowerCase (case channel ld of None \<Rightarrow> [] | Some c \<Rightarrow> c);
          hasTextChannel = (chan \<in> set TEXT_CHANNELS);
          hasPhone = (case phoneNumber ld of None \<Rightarrow> False | Some p \<Rightarrow> 0 < length (trim p));
          sent = toLowerCase (case sentiment ld of None \<Rightarrow> [] | Some t \<Rightarrow> t);
          frictionSignal =
            (sent = ''skeptical'' \<or> sent = ''hesitant'' \<or> sent = ''overwhelmed'' \<or>
             num_lt (conversionProbability result) (dbl 0.58))
      in num_ge (Fin (real epoch)) minEpochForVoice \<and> hasTextChannel \<and> hasPhone \<and> frictionSignal)"

section \<open>Outbound call (elevenlabs-outbound.mjs)\<close>

text \<open>\<open>process.env\<close>, and \<open>getEnv\<close>: a variable that is set is trimmed and returned.\<close>

type_synonym env = "string \<rightharpoonup> string"

definition getEnv :: "env \<Rightarrow> string \<Rightarrow> string \<Rightarrow> string" where
  "getEnv e nm fallback = (case e nm of None \<Rightarrow> fallback | Some v \<Rightarrow> trim v)"

definition is_digit :: "char \<Rightarrow> bool" where
  "is_digit c = (48 \<le> (of_char c :: nat) \<and> (of_char c :: nat) \<le> 57)"

text \<open>\<open>.replace(/[()\-\s]/g, '')\<close>: parentheses, hyphens and white space are removed.\<close>

definition removeFormatting :: "string \<Rightarrow> string" where
  "removeFormatting s =
     filter (\<lambda>c. \<not> (c = CHR ''('' \<or> c = CHR '')'' \<or> c = CHR ''-'' \<or> is_space c)) s"

text \<open>
  \<open>normalizeE164Phone\<close>; \<open>raw\<close> is \<open>None\<close> for a missing number (\<open>raw ?? ''\<close>),
  and \<open>None\<close> is the \<open>null\<close> it returns.
\<close>

definition normalizeE164Phone :: "string option \<Rightarrow> string option" where
  "normalizeE164Phone raw =
     (let trimmed = trim (case raw of None \<Rightarrow> [] | Some r \<Rightarrow> r)
      in if trimmed = [] then None
         else
           (case removeFormatting trimmed of
              [] \<Rightarrow> None
            | c # digits \<Rightarrow>
                if c \<noteq> CHR ''+'' then None
                else if \<not> (digits \<noteq> [] \<and> list_all is_digit digits) then None
                else if length digits < 8 \<or> 15 < length digits then None
                else Some (CHR ''+'' # digits)))"

text \<open>
  The E.164 rule in the words of the specification: a leading \<open>+\<close>, then 8 to 15
  digits, and no other character.
\<close>

definition spec_valid_e164 :: "string \<Rightarrow> bool" where
  "spec_valid_e164 s =
     (case s of
        [] \<Rightarrow> False
      | c # digits \<Rightarrow>
          c = CHR ''+'' \<and> 8 \<le> length digits \<and> length digits \<le> 15 \<and> list_all is_digit digits)"

text \<open>
  The request body of the call. Its fourth field, \<open>conversation_initiation_client_data\<close>,
  is assembled by \<open>buildClientData\<close> from the call context and three environment
  variables and travels with the request unread; the model leaves it out, and keeps the
  one way \<open>buildClientData\<close> fails: when \<open>ELEVENLABS_CONVERSATION_INIT_JSON\<close> holds
  the JSON text \<open>null\<close>, it reads a property of \<open>null\<close>, which throws.
\<close>

record payload =
  agent_id :: string
  agent_phone_number_id :: string
  to_number :: string

text \<open>What the dispatcher attempts on the outside: the write of the artifact file, the
  request it sends.\<close>

datatype effect = WriteArtifacts | Fetch string payload

text \<open>The outcome of \<open>fetch\<close> in live mode: it rejects, or it answers with \<open>res.ok\<close>.\<close>

datatype http_outcome = FetchRejected | HttpResponse bool

record call_result =
  ok :: bool
  status :: string
  call_mode :: "string option"
  call_error :: "string option"

definition or_else :: "string \<Rightarrow> string \<Rightarrow> string" where
  "or_else a b = (if a = [] then b else a)"

definition buildClientData_throws :: "env \<Rightarrow> bool" where
  "buildClientData_throws e = (getEnv e ''ELEVENLABS_CONVERSATION_INIT_JSON'' [] = ''null'')"

text \<open>
  \<open>startElevenLabsOutboundCall\<close>: what the promise settles to (a result, or the
  exception or rejection the function does not catch) together with the effects
  attempted. \<open>http\<close> is what \<open>fetch\<close> meets and \<open>writable\<close> tells whether the
  artifact file can be written. \<open>toNumberRaw\<close> is \<open>None\<close> for a missing number.
\<close>

definition startElevenLabsOutboundCall ::
  "env \<Rightarrow> http_outcome \<Rightarrow> bool \<Rightarrow> string option \<Rightarrow> (error + call_result) \<times> effect list" where
  "startElevenLabsOutboundCall e http writable toNumberRaw =
     (let mode = getEnv e ''VOICE_MODE'' ''dry-run'';
          outboundUrl = getEnv e ''ELEVENLABS_OUTBOUND_CALL_URL''
                          ''https://api.elevenlabs.io/v1/convai/twilio/outbound-call'';
          apiKey = getEnv e ''ELEVENLABS_API_KEY'' [];
          agentId = getEnv e ''ELEVENLABS_AGENT_ID'' [];
          agentPhoneNumberId = getEnv e ''ELEVENLABS_AGENT_PHONE_NUMBER_ID'' []
      in case normalizeE164Phone toNumberRaw of
           None \<Rightarrow>
             (Inr \<lparr>ok = False, status = ''INVALID_PHONE'', call_mode = None,
                   call_error = Some (''Invalid E.164 phone: '' @
                     (case toNumberRaw of None \<Rightarrow> ''undefined'' | Some r \<Rightarrow> r))\<rparr>, [])
         | Some toNumber \<Rightarrow>
             if buildClientData_throws e then (Inl TypeError, [])
             else
               let body = \<lparr>agent_id = or_else agentId ''agent_placeholder'',
                           agent_phone_number_id = or_else agentPhoneNumberId ''pn_placeholder'',
                           to_number = toNumber\<rparr>
               in if mode \<noteq> ''live'' then
                    (if writable
                     then Inr \<lparr>ok = True, status = ''SIMULATED'', call_mode = Some mode,
                               call_error = None\<rparr>
                     else Inl WriteRejection,
                     [WriteArtifacts])
                  else if apiKey = [] \<or> agentId = [] \<or> agentPhoneNumberId = [] then
                    (Inr \<lparr>ok = False, status = ''MISSING_CONFIG'', call_mode = None,
                          call_error = Some ''Set ELEVENLABS_API_KEY, ELEVENLABS_AGENT_ID, ELEVENLABS_AGENT_PHONE_NUMBER_ID for live calls.''\<rparr>,
                     [])
                  else
                    (case http of
                       FetchRejected \<Rightarrow> (Inl FetchRejection, [Fetch outboundUrl body])
                     | HttpResponse res_ok \<Rightarrow>
                         (if writable
                          then Inr \<lparr>ok = res_ok,
                                    status = (if res_ok then ''OK'' else ''HTTP_ERROR''),
                                    call_mode = None, call_error = None\<rparr>
                          else Inl WriteRejection,
                          [Fetch outboundUrl body, WriteArtifacts])))"

section \<open>Evaluator (llm-evaluator.mjs)\<close>

text \<open>
  The names every object literal inherits from \<open>Object.prototype\<close>. Reading one of
  them from a literal that does not own it yields a function (for \<open>__proto__\<close>, the
  prototype object), never \<open>undefined\<close>.
\<close>

definition objectPrototypeKeys :: "string list" where
  "objectPrototypeKeys =
     [''constructor'', ''hasOwnProperty'', ''isPrototypeOf'', ''propertyIsEnumerable'',
      ''toLocaleString'', ''toString'', ''valueOf'', ''__proto__'', ''__defineGetter__'',
      ''__defineSetter__'', ''__lookupGetter__'', ''__lookupSetter__'']"

definition objectionBoost :: "(string \<times> (string \<times> real) list) list" where
  "objectionBoost =
     [(''price'', [(''consultative'', 1.0), (''social_proof'', 0.7), (''urgent_offer'', 0.2)]),
      (''trust'', [(''consultative'', 0.8), (''social_proof'', 1.2), (''urgent_offer'', 0.2)]),
      (''timing'', [(''consultative'', 0.6), (''social_proof'', 0.4), (''urgent_offer'', 1.1)]),
      (''results'', [(''consultative'', 0.7), (''social_proof'', 1.0), (''urgent_offer'', 0.3)]),
      (''complexity'', [(''consultative'', 1.1), (''social_proof'', 0.5), (''urgent_offer'', 0.1)]),
      (''urgency'', [(''consultative'', 0.5), (''social_proof'', 0.4), (''urgent_offer'', 1.0)])]"

text \<open>
  \<open>objectionBoost[lead.objectionType]?.[strategy] ?? 0.2\<close>, for a strategy of the
  catalog (\<open>main\<close> passes no other): a category outside the table, inherited names
  included, has no property named after a strategy, and the default applies.
\<close>

definition boostFor :: "string \<Rightarrow> string \<Rightarrow> real" where
  "boostFor objType strategy =
     (case map_of objectionBoost objType of
        None \<Rightarrow> 0.2
      | Some row \<Rightarrow> (case map_of row strategy of None \<Rightarrow> 0.2 | Some b \<Rightarrow> b))"

text \<open>
  \<open>score += sentimentPenalty[lead.sentiment] ?? 0\<close>. For a sentiment that names an
  inherited property the right-hand side is a function or an object, \<open>+=\<close> concatenates,
  and \<open>score\<close> becomes a string that is not a numeral; \<open>Math.min\<close>, its only later
  reader, converts it to NaN, which stands for it here.
\<close>

definition addSentimentPenalty :: "num \<Rightarrow> string option \<Rightarrow> num" where
  "addSentimentPenalty sc sent =
     (case sent of
        None \<Rightarrow> num_add sc (Fin 0)
      | Some t \<Rightarrow>
          if t = ''skeptical'' \<or> t = ''overwhelmed'' then num_add sc (dbl (- 0.2))
          else if t \<in> set objectPrototypeKeys then NaN
          else num_add sc (Fin 0))"

text \<open>The variable \<open>score\<close> of \<open>evaluateByRules\<close> when it reaches the bounds.\<close>

definition ruleScore :: "lead \<Rightarrow> string \<Rightarrow> string \<Rightarrow> num" where
  "ruleScore ld strategy response =
     (let s0 = num_add (dbl 5.5) (dbl (boostFor (objectionType ld) strategy));
          s1 = (if str_includes response (name ld) then num_add s0 (dbl 0.4) else s0);
          s2 = (if str_includes response (goal ld) then num_add s1 (dbl 0.6) else s1);
          s3 = (if str_includes (toLowerCase response) ''step'' then num_add s2 (dbl 0.4) else s2);
          s4 = (if str_includes (toLowerCase response) ''week'' then num_add s3 (dbl 0.2) else s3);
          s5 = addSentimentPenalty s4 (sentiment ld)
      in if strategy = ''urgent_offer'' \<and>
            (sentiment ld = Some ''skeptical'' \<or> sentiment ld = Some ''overwhelmed'')
         then num_sub s5 (dbl 0.3) else s5)"

definition evaluateByRules :: "lead \<Rightarrow> string \<Rightarrow> string \<Rightarrow> evaluation" where
  "evaluateByRules ld strategy response =
     (let bounded = num_max (Fin 1) (num_min (Fin 10) (ruleScore ld strategy response));
          prob = num_max (dbl 0.05) (num_min (dbl 0.92) (num_div_pos (num_sub bounded (Fin 3)) 8))
      in \<lparr>score = toFixed 2 bounded, conversionProbability = toFixed 2 prob,
          source = ''rule'', ev_notes = None\<rparr>)"

text \<open>
  The scoring object found in the reply of the language model, after \<open>Number(...)\<close>
  has been applied to its two numeric fields; \<open>raw_notes\<close> is \<open>None\<close> unless
  \<open>notes\<close> is a string. \<open>normalizeScoring\<close> receives \<open>None\<close> when no object was
  found: both numbers are then NaN.
\<close>

record raw_scoring =
  raw_score :: num
  raw_conversionProbability :: num
  raw_notes :: "string option"

record scoring =
  n_score :: num
  n_conversionProbability :: num
  n_notes :: "string option"

definition normalizeScoring :: "raw_scoring option \<Rightarrow> scoring option" where
  "normalizeScoring raw =
     (let sc = (case raw of None \<Rightarrow> NaN | Some r \<Rightarrow> raw_score r);
          prob = (case raw of None \<Rightarrow> NaN | Some r \<Rightarrow> raw_conversionProbability r)
      in if \<not> isFinite sc \<or> \<not> isFinite prob then None
         else
           let boundedScore = num_max (Fin 1) (num_min (Fin 10) sc);
               boundedProb = num_max (dbl 0.05) (num_min (dbl 0.95) prob)
           in Some \<lparr>n_score = toFixed 2 boundedScore,
                    n_conversionProbability = toFixed 2 boundedProb,
                    n_notes = (case raw of None \<Rightarrow> None
                               | Some r \<Rightarrow> map_option (take 300) (raw_notes r))\<rparr>)"

text \<open>
  What the request of \<open>evaluateByLlm\<close> meets: \<open>fetch\<close> throws (a network error, or the
  abort at the timeout) with the error printed; an answer that is not \<open>res.ok\<close>, with its
  status and text; a body that is not JSON; or a body whose message content, printed, is
  the first argument, with the scoring object \<open>parseJsonObjectFromText\<close> finds in it.
\<close>

datatype llm_reply =
    RequestFailed string
  | HttpError string string
  | NotJson string
  | Content string "raw_scoring option"

definition evaluateByLlm :: "llm_reply \<Rightarrow> string + evaluation" where
  "evaluateByLlm reply =
     (case reply of
        RequestFailed err \<Rightarrow> Inl (''LLM request failed: '' @ err)
      | HttpError st rawText \<Rightarrow> Inl (''LLM HTTP '' @ st @ '': '' @ take 400 rawText)
      | NotJson rawText \<Rightarrow> Inl (''LLM response is not JSON: '' @ take 400 rawText)
      | Content content json \<Rightarrow>
          (case normalizeScoring json of
             None \<Rightarrow> Inl (''LLM returned invalid scoring payload: '' @ take 400 content)
           | Some normalized \<Rightarrow>
               Inr \<lparr>score = n_score normalized,
                    conversionProbability = n_conversionProbability normalized,
                    source = ''llm'', ev_notes = n_notes normalized\<rparr>))"

text \<open>\<open>shouldUseLlm(getEvaluatorConfig())\<close>.\<close>

definition shouldUseLlm :: "env \<Rightarrow> bool" where
  "shouldUseLlm e =
     (let mode = toLowerCase (getEnv e ''EVALUATOR_MODE'' ''auto'');
          apiKey = getEnv e ''EVALUATOR_API_KEY'' []
      in if mode = ''rule'' then False
         else if mode = ''llm'' then True
         else apiKey \<noteq> [])"

definition evaluateLeadAdaptive :: "env \<Rightarrow> llm_reply \<Rightarrow> lead \<Rightarrow> string \<Rightarrow> string \<Rightarrow> evaluation" where
  "evaluateLeadAdaptive e reply ld strategy response =
     (if \<not> shouldUseLlm e then evaluateByRules ld strategy response
      else
        (case evaluateByLlm reply of
           Inr v \<Rightarrow> v
         | Inl err \<Rightarrow>
             (evaluateByRules ld strategy response)\<lparr>ev_notes := Some err, source := ''rule_fallback''\<rparr>))"

section \<open>The rounds of main (run.mjs)\<close>

text \<open>\<open>STRATEGY_TEMPLATES\<close>: the three sentences of each strategy, joined by a space.\<close>

definition STRATEGY_TEMPLATES :: "string \<Rightarrow> (lead \<Rightarrow> string) option" where
  "STRATEGY_TEMPLATES strategy =
     (if strategy = ''consultative'' then Some (\<lambda>ld.
        ''Totally fair point, '' @ name ld @
        ''. Before recommending anything expensive, I want to map your exact goal: '' @
        goal ld @ ''.'' @ '' '' @
        ''If we can solve your '' @ objectionType ld @
        '' concern with a low-risk first step, would you be open to a quick start this week?'' @
        '' '' @
        ''I can offer a structured first step and a clear success checkpoint so you can decide based on results, not promises.'')
      else if strategy = ''social_proof'' then Some (\<lambda>ld.
        name ld @ '', great question. We recently helped clients with the same concern ('' @
        objectionType ld @
        '') and they converted after seeing a guided first win in week 1.'' @ '' '' @
        ''For your case ('' @ offer ld @
        ''), we can start with the same proven sequence and track progress clearly.'' @ '' '' @
        ''If you want, I can share the exact 3-step plan and reserve your onboarding slot.'')
      else if strategy = ''urgent_offer'' then Some (\<lambda>ld.
        name ld @
        '', understood. To reduce risk, we can lock a fast-start option today and keep commitment light.'' @
        '' '' @
        ''This lets you test '' @ offer ld @
        '' quickly and decide from real momentum, not overthinking.'' @ '' '' @
        ''If we start now, I can secure the current onboarding window and set your first measurable milestone this week.'')
      else None)"

text \<open>\<open>buildResponse\<close>: calling a template the table does not have throws.\<close>

definition buildResponse :: "string \<Rightarrow> lead \<Rightarrow> error + string" where
  "buildResponse strategy ld =
     (case STRATEGY_TEMPLATES strategy of None \<Rightarrow> Inl TypeError | Some t \<Rightarrow> Inr (t ld))"

text \<open>The voice entry of an event: not attempted, with the reason; or attempted, with
  \<open>ok\<close>, \<open>status\<close>, \<open>mode\<close> and \<open>error\<close>.\<close>

datatype voice = NotAttempted string | Attempted bool string string "string option"

definition maybeStartVoiceFollowup ::
  "env \<Rightarrow> http_outcome \<Rightarrow> bool \<Rightarrow> bool \<Rightarrow> lead \<Rightarrow> (error + voice) \<times> effect list" where
  "maybeStartVoiceFollowup e http writable enabled ld =
     (if \<not> enabled then (Inr (NotAttempted ''VOICE_CHANNEL_DISABLED''), [])
      else
        (case startElevenLabsOutboundCall e http writable (phoneNumber ld) of
           (Inl err, effects) \<Rightarrow> (Inl err, effects)
         | (Inr callResult, effects) \<Rightarrow>
             (Inr (Attempted (ok callResult) (status callResult)
                     (case call_mode callResult of
                        Some md \<Rightarrow> md
                      | None \<Rightarrow> (case e ''VOICE_MODE'' of Some v \<Rightarrow> v | None \<Rightarrow> ''dry-run''))
                     (call_error callResult)),
              effects)))"

text \<open>
  The command line of \<open>main\<close> and the environment of the process. \<open>warmupEpochs\<close> and
  \<open>minEpochForVoice\<close> are \<open>Number\<close> of an argument.
\<close>

record config =
  warmupEpochs :: num
  voiceChannelEnabled :: bool
  minEpochForVoice :: num
  environment :: env

text \<open>
  The outside of one run: what each request to the language model meets, what each
  outbound call meets, whether the artifact file can be written and what the clock
  reads, by round and by position of the lead in the round (and by candidate strategy
  for the language model).
\<close>

record world =
  llm_at :: "nat \<Rightarrow> nat \<Rightarrow> string \<Rightarrow> llm_reply"
  http_at :: "nat \<Rightarrow> nat \<Rightarrow> http_outcome"
  write_at :: "nat \<Rightarrow> nat \<Rightarrow> bool"
  now_at :: "nat \<Rightarrow> nat \<Rightarrow> string"

text \<open>The entry \<open>main\<close> pushes on \<open>events\<close> for one lead (the fields the report only prints
  are left out).\<close>

record round_event =
  e_leadId :: string
  e_objectionType :: string
  e_strategy :: string
  e_score :: num
  e_conversionProbability :: num
  e_voice :: voice
  e_evaluator :: string

text \<open>The loop of \<open>main\<close> that fills \<open>candidateScores\<close>, one evaluation per strategy.\<close>

fun evaluateCandidates ::
  "env \<Rightarrow> (string \<Rightarrow> llm_reply) \<Rightarrow> lead \<Rightarrow> string list \<Rightarrow> error + (string \<times> evaluation) list" where
  "evaluateCandidates e reply ld [] = Inr []"
| "evaluateCandidates e reply ld (candidateStrategy # rest) =
     (case buildResponse candidateStrategy ld of
        Inl err \<Rightarrow> Inl err
      | Inr candidateResponse \<Rightarrow>
          (case evaluateCandidates e reply ld rest of
             Inl err \<Rightarrow> Inl err
           | Inr others \<Rightarrow>
               Inr ((candidateStrategy,
                     evaluateLeadAdaptive e (reply candidateStrategy) ld candidateStrategy
                       candidateResponse) # others)))"

text \<open>
  The body of \<open>for (const lead of leads)\<close>: the state is the memory, the events of the
  round so far and the effects so far. An exception leaves \<open>main\<close>, and with it the run.
\<close>

definition processLead ::
  "config \<Rightarrow> world \<Rightarrow> nat \<Rightarrow> lead \<Rightarrow> memory \<times> round_event list \<times> effect list \<Rightarrow>
   error + (memory \<times> round_event list \<times> effect list)" where
  "processLead c w epoch ld state =
     (case state of (m, events, effects) \<Rightarrow>
        let strategy = selectStrategy epoch (warmupEpochs c) (length events) m (objectionType ld)
        in case evaluateCandidates (environment c) (llm_at w epoch (length events)) ld STRATEGIES of
             Inl err \<Rightarrow> Inl err
           | Inr candidateScores \<Rightarrow>
               (case buildResponse strategy ld of
                  Inl err \<Rightarrow> Inl err
                | Inr response \<Rightarrow>
                    (case map_of candidateScores strategy of
                       None \<Rightarrow> Inl TypeError
                     | Some result \<Rightarrow>
                         (case updateMemory m ld strategy result epoch response candidateScores
                                 (now_at w epoch (length events)) of
                            Inl err \<Rightarrow> Inl err
                          | Inr m' \<Rightarrow>
                              (case (if shouldEscalateToVoice ld result epoch (minEpochForVoice c)
                                     then maybeStartVoiceFollowup (environment c)
                                            (http_at w epoch (length events))
                                            (write_at w epoch (length events))
                                            (voiceChannelEnabled c) ld
                                     else (Inr (NotAttempted ''NO_ESCALATION''), [])) of
                                 (Inl err, performed) \<Rightarrow> Inl err
                               | (Inr v, performed) \<Rightarrow>
                                   Inr (m',
                                        events @
                                          [\<lparr>e_leadId = lead_id ld,
                                            e_objectionType = objectionType ld,
                                            e_strategy = strategy,
                                            e_score = score result,
                                            e_conversionProbability = conversionProbability result,
                                            e_voice = v,
                                            e_evaluator = source result\<rparr>],
                                        effects @ performed))))))"

fun leadLoop ::
  "config \<Rightarrow> world \<Rightarrow> nat \<Rightarrow> lead list \<Rightarrow> memory \<times> round_event list \<times> effect list \<Rightarrow>
   error + (memory \<times> round_event list \<times> effect list)" where
  "leadLoop c w epoch [] state = Inr state"
| "leadLoop c w epoch (ld # rest) state =
     (case processLead c w epoch ld state of
        Inl err \<Rightarrow> Inl err
      | Inr state' \<Rightarrow> leadLoop c w epoch rest state')"

text \<open>
  One pass of \<open>for (let epoch = 1; ...)\<close>: the leads, then \<open>decayExploration(memory)\<close>
  and \<open>memory.runs += 1\<close>.
\<close>

definition runEpoch ::
  "config \<Rightarrow> world \<Rightarrow> nat \<Rightarrow> lead list \<Rightarrow> memory \<Rightarrow>
   error + (memory \<times> round_event list \<times> effect list)" where
  "runEpoch c w epoch leads m =
     (case leadLoop c w epoch leads (m, [], []) of
        Inl err \<Rightarrow> Inl err
      | Inr (m1, events, effects) \<Rightarrow>
          (case decayExploration m1 of
             Inl err \<Rightarrow> Inl err
           | Inr m2 \<Rightarrow> Inr (m2\<lparr>runs := runs m2 + 1\<rparr>, events, effects)))"

text \<open>
  The rounds \<open>epoch, epoch + 1, ...\<close> of a run, \<open>n\<close> of them (an \<open>epochs\<close> argument
  that is a natural number), collecting the events of each round.
\<close>

fun epochLoop ::
  "config \<Rightarrow> world \<Rightarrow> lead list \<Rightarrow> nat \<Rightarrow> nat \<Rightarrow> memory \<times> round_event list list \<Rightarrow>
   error + (memory \<times> round_event list list)" where
  "epochLoop c w leads epoch 0 state = Inr state"
| "epochLoop c w leads epoch (Suc n) (m, rounds) =
     (case runEpoch c w epoch leads m of
        Inl err \<Rightarrow> Inl err
      | Inr (m', events, effects) \<Rightarrow>
          epochLoop c w leads (Suc epoch) n (m', rounds @ [events]))"

section \<open>The memories of a run\<close>

text \<open>
  The memory starts as \<open>reset.mjs\<close> writes it, and \<open>run.mjs\<close> changes it in three
  places only: \<open>updateMemory\<close>, \<open>decayExploration\<close> and \<open>memory.runs += 1\<close>.
  Writing it to \<open>memory.json\<close> and reading it back changes nothing.
\<close>

inductive reachable :: "memory \<Rightarrow> bool" where
  reset: "reachable INITIAL_MEMORY"
| updated: "reachable m \<Longrightarrow>
            updateMemory m ld strategy result epoch response cands now = Inr m' \<Longrightarrow>
            reachable m'"
| decayed: "reachable m \<Longrightarrow> decayExploration m = Inr m' \<Longrightarrow> reachable m'"
| counted: "reachable m \<Longrightarrow> reachable (m\<lparr>runs := runs m + 1\<rparr>)"

section \<open>Sample data\<close>

text \<open>
  A lead in the shape of \<open>data/leads.json\<close> and a candidate map as \<open>main\<close> builds it,
  for the concrete evaluations that accompany the theorems. The scores and probabilities
  of the samples are binary fractions, which doubles hold exactly.
\<close>

definition sample_lead :: lead where
  "sample_lead =
     \<lparr>lead_id = ''lead-001'', name = ''Amira'', goal = ''launch my online store'',
      offer = ''growth coaching'', message = ''This looks expensive for me right now.'',
      channel = Some ''WhatsApp'', objectionType = ''price'',
      sentiment = Some ''skeptical'', phoneNumber = Some ''+971 50 123 4567''\<rparr>"

definition sample_result :: "real \<Rightarrow> real \<Rightarrow> evaluation" where
  "sample_result s p =
     \<lparr>score = Fin s, conversionProbability = Fin p, source = ''rule'', ev_notes = None\<rparr>"

text \<open>A result as the evaluator returns it: numerals of two decimals, read as doubles.\<close>

definition sample_decimal_result :: "real \<Rightarrow> real \<Rightarrow> evaluation" where
  "sample_decimal_result s p =
     \<lparr>score = dbl s, conversionProbability = dbl p, source = ''rule'', ev_notes = None\<rparr>"

definition sample_candidates :: "(string \<times> evaluation) list" where
  "sample_candidates =
     [(''consultative'', sample_result 7.5 0.5),
      (''social_proof'', sample_result 8.25 0.625),
      (''urgent_offer'', sample_result 6 0.375)]"

definition sample_event :: history_event where
  "sample_event =
     \<lparr>h_timestamp = ''2025-12-31T00:00:00.000Z'', h_epoch = 1, h_leadId = ''lead-000'',
      h_objectionType = ''trust'', h_strategy = ''social_proof'', h_score = Fin 8.25,
      h_conversionProbability = Fin 0.625, h_responsePreview = ''Great question.''\<rparr>"

definition sample_live_env :: env where
  "sample_live_env =
     [''VOICE_MODE'' \<mapsto> ''live'', ''ELEVENLABS_API_KEY'' \<mapsto> ''key-1'',
      ''ELEVENLABS_AGENT_ID'' \<mapsto> ''agent-1'',
      ''ELEVENLABS_AGENT_PHONE_NUMBER_ID'' \<mapsto> ''pn-1'']"

text \<open>The command line defaults of \<open>main\<close>, an empty environment, and an outside in which
  the language model cannot be reached and calls are answered.\<close>

definition sample_config :: config where
  "sample_config =
     \<lparr>warmupEpochs = Fin 1, voiceChannelEnabled = True, minEpochForVoice = Fin 2,
      environment = Map.empty\<rparr>"

definition sample_world :: world where
  "sample_world =
     \<lparr>llm_at = (\<lambda>epoch k strategy. RequestFailed ''AbortError: This operation was aborted''),
      http_at = (\<lambda>epoch k. HttpResponse True),
      write_at = (\<lambda>epoch k. True),
      now_at = (\<lambda>epoch k. ''2026-01-01T00:00:00.000Z'')\<rparr>"

text \<open>A reply of the language model whose two numbers are finite and out of range:
  \<open>{"score":15,"conversionProbability":1.4}\<close>.\<close>

definition sample_out_of_range_reply :: llm_reply where
  "sample_out_of_range_reply =
     Content (''{'' @ [CHR 0x22] @ ''score'' @ [CHR 0x22] @ '':15,'' @ [CHR 0x22] @
              ''conversionProbability'' @ [CHR 0x22] @ '':1.4}'')
       (Some \<lparr>raw_score = Fin 15, raw_conversionProbability = dbl 1.4, raw_notes = None\<rparr>)"

text \<open>A reply whose two numbers are decimal numerals half-way between two numerals of 2
  decimals: \<open>{"score":9.995,"conversionProbability":0.575}\<close>.\<close>

definition sample_half_way_reply :: llm_reply where
  "sample_half_way_reply =
     Content (''{'' @ [CHR 0x22] @ ''score'' @ [CHR 0x22] @ '':9.995,'' @ [CHR 0x22] @
              ''conversionProbability'' @ [CHR 0x22] @ '':0.575}'')
       (Some \<lparr>raw_score = dbl 9.995, raw_conversionProbability = dbl 0.575, raw_notes = None\<rparr>)"

section \<open>Facts about rounding to the nearest double\<close>

lemma pow2_powr: "pow2 e = 2 powr of_int e"
proof (cases "0 \<le> e")
  case True
  then have r: "real_of_int e = real (nat e)" by simp
  have "(2::real) powr real (nat e) = 2 ^ nat e" by (rule powr_realpow) simp
  then show ?thesis using True unfolding r by (simp add: pow2_def)
next
  case False
  then have r: "real_of_int e = - real (nat (- e))" by simp
  have p: "(2::real) powr real (nat (- e)) = 2 ^ nat (- e)" by (rule powr_realpow) simp
  have "(2::real) powr real_of_int e = inverse (2 powr real (nat (- e)))"
    unfolding r by (rule powr_minus)
  also have "\<dots> = 1 / 2 ^ nat (- e)" unfolding p by (rule inverse_eq_divide)
  finally show ?thesis using False by (simp only: pow2_def if_False)
qed

lemma pow2_pos [simp]: "0 < pow2 e"
  by (simp add: pow2_powr)

lemma pow2_nonneg [simp]: "0 \<le> pow2 e"
  by (simp add: pow2_powr)

lemma pow2_ne [simp]: "pow2 e \<noteq> 0"
  by (simp add: pow2_powr)

lemma pow2_add: "pow2 (a + b) = pow2 a * pow2 b"
  by (simp add: pow2_powr powr_add)

lemma pow2_0 [simp]: "pow2 0 = 1"
  by (simp add: pow2_def)

lemma pow2_mono: "a \<le> b \<Longrightarrow> pow2 a \<le> pow2 b"
  by (simp add: pow2_powr)

lemma pow2_less: "a < b \<Longrightarrow> pow2 a < pow2 b"
  by (simp add: pow2_powr)

lemma pow2_le_iff [simp]: "pow2 a \<le> pow2 b \<longleftrightarrow> a \<le> b"
  by (simp add: pow2_powr)

lemma pow2_less_iff [simp]: "pow2 a < pow2 b \<longleftrightarrow> a < b"
  by (simp add: pow2_powr)

lemma pow2_nat: "pow2 (int n) = 2 ^ n"
  by (simp add: pow2_def)

lemma pow2_neg_nat: "pow2 (- int n) = 1 / 2 ^ n"
  by (simp add: pow2_powr powr_minus powr_realpow inverse_eq_divide)

lemma pow2_diff: "pow2 (a - b) = pow2 a / pow2 b"
  by (simp add: pow2_powr powr_diff)

lemma pow2_1 [simp]: "pow2 1 = 2"
  by (simp add: pow2_def)

lemma pow2_Suc: "pow2 (e + 1) = 2 * pow2 e"
  by (simp add: pow2_add)

lemma rne_of_int [simp]: "rne (of_int n) = n"
  by (simp add: rne_def)

lemma rne_close: "\<bar>of_int (rne t) - t\<bar> \<le> 1 / 2"
  unfolding rne_def Let_def by (auto; linarith)

lemma rne_mono: assumes "s \<le> t" shows "rne s \<le> rne t"
proof -
  have fl: "\<lfloor>s\<rfloor> \<le> \<lfloor>t\<rfloor>" using assms by (rule floor_mono)
  have s1: "rne s \<le> \<lfloor>s\<rfloor> + 1" and s0: "\<lfloor>s\<rfloor> \<le> rne s" by (auto simp: rne_def Let_def)
  have t1: "rne t \<le> \<lfloor>t\<rfloor> + 1" and t0: "\<lfloor>t\<rfloor> \<le> rne t" by (auto simp: rne_def Let_def)
  show ?thesis
  proof (cases "\<lfloor>s\<rfloor> < \<lfloor>t\<rfloor>")
    case True
    then show ?thesis using s1 t0 by linarith
  next
    case False
    then have eq: "\<lfloor>s\<rfloor> = \<lfloor>t\<rfloor>" using fl by simp
    have "s - of_int \<lfloor>t\<rfloor> \<le> t - of_int \<lfloor>t\<rfloor>" using assms by simp
    then show ?thesis unfolding rne_def Let_def eq by auto
  qed
qed

lemma rne_ge: "of_int a \<le> t \<Longrightarrow> a \<le> rne t"
  using rne_mono[of "of_int a" t] by simp

lemma rne_le: "t \<le> of_int b \<Longrightarrow> rne t \<le> b"
  using rne_mono[of t "of_int b"] by simp

text \<open>The search for the exponent: where it stops, and what it has passed.\<close>

lemma expo_from_bounds: "e \<le> expo_from n e x \<and> expo_from n e x \<le> e + int n"
proof (induction n arbitrary: e)
  case 0
  then show ?case by simp
next
  case (Suc n)
  from Suc.IH[of "e + 1"] show ?case by auto
qed

lemma expo_from_found:
  "expo_from n e x < e + int n \<Longrightarrow> \<bar>x\<bar> < pow2 (expo_from n e x + 1)"
proof (induction n arbitrary: e)
  case 0
  then show ?case by simp
next
  case (Suc n)
  show ?case
  proof (cases "\<bar>x\<bar> < pow2 (e + 1)")
    case True
    then show ?thesis by simp
  next
    case False
    then have eq: "expo_from (Suc n) e x = expo_from n (e + 1) x" by simp
    have "expo_from n (e + 1) x < (e + 1) + int n" using Suc.prems eq by simp
    from Suc.IH[OF this] show ?thesis by (simp add: eq)
  qed
qed

lemma expo_from_passed:
  "e \<le> e' \<Longrightarrow> e' < expo_from n e x \<Longrightarrow> pow2 (e' + 1) \<le> \<bar>x\<bar>"
proof (induction n arbitrary: e)
  case 0
  then show ?case by simp
next
  case (Suc n)
  show ?case
  proof (cases "\<bar>x\<bar> < pow2 (e + 1)")
    case True
    then show ?thesis using Suc.prems by simp
  next
    case False
    then have eq: "expo_from (Suc n) e x = expo_from n (e + 1) x" by simp
    show ?thesis
    proof (cases "e' = e")
      case True
      then show ?thesis using False by simp
    next
      case ne: False
      then have "e + 1 \<le> e'" using Suc.prems(1) by simp
      moreover have "e' < expo_from n (e + 1) x" using Suc.prems(2) eq by simp
      ultimately show ?thesis by (rule Suc.IH)
    qed
  qed
qed

lemma expo_from_abs: "expo_from n e (- x) = expo_from n e x"
  by (induction n arbitrary: e) simp_all

lemma expo_ge: "- 1022 \<le> expo x"
  using expo_from_bounds[of "- 1022" 2045 x] by (simp add: expo_def)

lemma expo_le_1023: "expo x \<le> 1023"
  using expo_from_bounds[of "- 1022" 2045 x] by (simp add: expo_def)

lemma expo_found: "expo x < 1023 \<Longrightarrow> \<bar>x\<bar> < pow2 (expo x + 1)"
  using expo_from_found[of 2045 "- 1022" x] by (simp add: expo_def)

lemma expo_passed: "- 1022 \<le> e' \<Longrightarrow> e' < expo x \<Longrightarrow> pow2 (e' + 1) \<le> \<bar>x\<bar>"
  using expo_from_passed[of "- 1022" e' 2045 x] by (simp add: expo_def)

lemma expo_upper: assumes "\<bar>x\<bar> < pow2 1024" shows "\<bar>x\<bar> < pow2 (expo x + 1)"
proof (cases "expo x < 1023")
  case True
  then show ?thesis by (rule expo_found)
next
  case False
  then have "expo x = 1023" using expo_le_1023[of x] by simp
  then show ?thesis using assms by simp
qed

lemma expo_lower_normal:
  assumes "- 1022 < expo x" shows "pow2 (expo x) \<le> \<bar>x\<bar>"
  using expo_passed[of "expo x - 1" x] assms by simp

lemma expo_unique:
  assumes "pow2 e \<le> \<bar>x\<bar>" "\<bar>x\<bar> < pow2 (e + 1)" "- 1022 \<le> e" "e \<le> 1023"
  shows "expo x = e"
proof (rule ccontr)
  assume ne: "expo x \<noteq> e"
  show False
  proof (cases "expo x < e")
    case True
    then have "expo x < 1023" using assms(4) by simp
    then have "\<bar>x\<bar> < pow2 (expo x + 1)" by (rule expo_found)
    also have "\<dots> \<le> pow2 e" using True by simp
    finally show False using assms(1) by simp
  next
    case False
    then have "e < expo x" using ne by simp
    then have "pow2 (e + 1) \<le> \<bar>x\<bar>" using assms(3) by (intro expo_passed)
    then show False using assms(2) by simp
  qed
qed

lemma expo_subnormal:
  assumes "\<bar>x\<bar> < pow2 (- 1021)"
  shows "expo x = - 1022"
proof (rule ccontr)
  assume "expo x \<noteq> - 1022"
  then have "- 1022 < expo x" using expo_ge[of x] by simp
  then have "pow2 (- 1022 + 1) \<le> \<bar>x\<bar>" by (intro expo_passed) simp
  then show False using assms by simp
qed

lemma expo_big:
  assumes "pow2 1023 \<le> \<bar>x\<bar>"
  shows "expo x = 1023"
proof (rule ccontr)
  assume "expo x \<noteq> 1023"
  then have lt: "expo x < 1023" using expo_le_1023[of x] by simp
  then have "\<bar>x\<bar> < pow2 (expo x + 1)" by (rule expo_found)
  also have "\<dots> \<le> pow2 1023" using lt by simp
  finally show False using assms by simp
qed

lemma expo_le:
  assumes "\<bar>x\<bar> \<le> pow2 p" "- 1022 \<le> p"
  shows "expo x \<le> p"
proof (rule ccontr)
  assume "\<not> expo x \<le> p"
  then have "p < expo x" by simp
  then have "pow2 (p + 1) \<le> \<bar>x\<bar>" using assms(2) by (intro expo_passed)
  then have "pow2 (p + 1) \<le> pow2 p" using assms(1) by linarith
  then show False by simp
qed

lemma expo_lt:
  assumes "\<bar>x\<bar> < pow2 (p + 1)" "- 1022 \<le> p"
  shows "expo x \<le> p"
proof (rule ccontr)
  assume "\<not> expo x \<le> p"
  then have "p < expo x" by simp
  then have "pow2 (p + 1) \<le> \<bar>x\<bar>" using assms(2) by (intro expo_passed)
  then show False using assms(1) by simp
qed

lemma expo_mono:
  assumes "\<bar>x\<bar> \<le> \<bar>y\<bar>"
  shows "expo x \<le> expo y"
proof (rule ccontr)
  assume "\<not> expo x \<le> expo y"
  then have lt: "expo y < expo x" by simp
  then have "pow2 (expo y + 1) \<le> \<bar>x\<bar>" using expo_ge[of y] by (intro expo_passed)
  moreover have "expo y < 1023" using lt expo_le_1023[of x] by simp
  then have "\<bar>y\<bar> < pow2 (expo y + 1)" by (rule expo_found)
  ultimately show False using assms by simp
qed

lemma rd_0 [simp]: "rd 0 = 0"
  by (simp add: rd_def)

lemma rd_error: "\<bar>rd x - x\<bar> \<le> pow2 (expo x - 53)"
proof (cases "x = 0")
  case True then show ?thesis by simp
next
  case False
  define u where "u = pow2 (expo x - 52)"
  have u: "0 < u" by (simp add: u_def)
  have "rd x - x = (of_int (rne (x / u)) - x / u) * u" using u False by (simp add: rd_def u_def algebra_simps)
  then have "\<bar>rd x - x\<bar> = \<bar>of_int (rne (x / u)) - x / u\<bar> * u" using u by (simp add: abs_mult)
  also have "\<dots> \<le> 1 / 2 * u" using rne_close[of "x / u"] u by (intro mult_right_mono) auto
  also have "\<dots> = pow2 (expo x - 53)"
    using pow2_Suc[of "expo x - 53"] by (simp add: u_def)
  finally show ?thesis .
qed

lemma rd_error_pow:
  assumes "\<bar>x\<bar> \<le> pow2 p" "- 1022 \<le> p"
  shows "\<bar>rd x - x\<bar> \<le> pow2 (p - 53)"
proof (cases "x = 0")
  case True then show ?thesis by simp
next
  case False
  have "\<bar>rd x - x\<bar> \<le> pow2 (expo x - 53)" by (rule rd_error)
  also have "\<dots> \<le> pow2 (p - 53)" using expo_le[OF assms] by (intro pow2_mono) simp
  finally show ?thesis .
qed

lemma rd_nonneg: assumes "0 \<le> x" shows "0 \<le> rd x"
proof (cases "x = 0")
  case True then show ?thesis by simp
next
  case False
  have "0 \<le> x / pow2 (expo x - 52)" using assms by simp
  then have "0 \<le> rne (x / pow2 (expo x - 52))" using rne_ge[of 0] by simp
  then show ?thesis using False by (simp add: rd_def)
qed


lemma pow2_numeral: "pow2 (numeral n) = 2 ^ numeral n"
  by (simp add: pow2_def)

lemma pow2_neg_numeral: "pow2 (- numeral n) = 1 / 2 ^ numeral n"
  by (simp add: pow2_def)

lemma pow2_split53: "pow2 (e + 1) = 2 ^ 53 * pow2 (e - 52)"
proof -
  have "e + 1 = 53 + (e - 52)" by simp
  then have "pow2 (e + 1) = pow2 (53 + (e - 52))" by (rule arg_cong)
  also have "\<dots> = pow2 53 * pow2 (e - 52)" by (rule pow2_add)
  finally show ?thesis by (simp add: pow2_numeral)
qed

lemma pow2_split52: "pow2 e = 2 ^ 52 * pow2 (e - 52)"
proof -
  have "e = 52 + (e - 52)" by simp
  then have "pow2 e = pow2 (52 + (e - 52))" by (rule arg_cong)
  also have "\<dots> = pow2 52 * pow2 (e - 52)" by (rule pow2_add)
  finally show ?thesis by (simp add: pow2_numeral)
qed

lemma real_le_pow: "(a::int) \<le> 2 ^ n \<Longrightarrow> real_of_int a \<le> 2 ^ n"
  using of_int_le_iff[of a "2 ^ n", where ?'a = real] by simp

lemma real_ge_pow: "2 ^ n \<le> (a::int) \<Longrightarrow> 2 ^ n \<le> real_of_int a"
  using of_int_le_iff[of "2 ^ n" a, where ?'a = real] by simp

lemma real_lt_pow: "(a::int) < 2 ^ n \<Longrightarrow> real_of_int a < 2 ^ n"
  using of_int_less_iff[of a "2 ^ n", where ?'a = real] by simp

lemma rd_unfold:
  assumes "x \<noteq> 0"
  shows "rd x = of_int (rne (x / pow2 (expo x - 52))) * pow2 (expo x - 52)"
  using assms by (simp add: rd_def)

lemma scaled_upper:
  assumes "0 < x" "x < pow2 (expo x + 1)" shows "x / pow2 (expo x - 52) < 2 ^ 53"
proof -
  have "x < pow2 (expo x + 1)" by (rule assms(2))
  also have "\<dots> = 2 ^ 53 * pow2 (expo x - 52)" by (rule pow2_split53)
  finally show ?thesis by (simp add: pos_divide_less_eq)
qed

lemma scaled_lower:
  assumes "0 < x" "pow2 (expo x) \<le> x" shows "2 ^ 52 \<le> x / pow2 (expo x - 52)"
proof -
  have "pow2 (expo x) = 2 ^ 52 * pow2 (expo x - 52)" by (rule pow2_split52)
  then show ?thesis using assms(2) by (simp add: pos_le_divide_eq)
qed

lemma rd_upper:
  assumes "0 < x" "x < pow2 (expo x + 1)" shows "rd x \<le> pow2 (expo x + 1)"
proof -
  have "x / pow2 (expo x - 52) \<le> of_int (2 ^ 53)" using scaled_upper[OF assms] by simp
  then have "rne (x / pow2 (expo x - 52)) \<le> 2 ^ 53" by (rule rne_le)
  then have "of_int (rne (x / pow2 (expo x - 52))) \<le> (2 ^ 53 :: real)" by (rule real_le_pow)
  then have "rd x \<le> 2 ^ 53 * pow2 (expo x - 52)"
    using assms by (simp add: rd_unfold)
  also have "\<dots> = pow2 (expo x + 1)" by (rule pow2_split53[symmetric])
  finally show ?thesis .
qed

lemma rd_lower:
  assumes "0 < x" "pow2 (expo x) \<le> x" shows "pow2 (expo x) \<le> rd x"
proof -
  have "of_int (2 ^ 52) \<le> x / pow2 (expo x - 52)" using scaled_lower[OF assms] by simp
  then have "2 ^ 52 \<le> rne (x / pow2 (expo x - 52))" by (rule rne_ge)
  then have "(2 ^ 52 :: real) \<le> of_int (rne (x / pow2 (expo x - 52)))" by (rule real_ge_pow)
  then have "2 ^ 52 * pow2 (expo x - 52) \<le> rd x"
    using assms by (simp add: rd_unfold)
  moreover have "2 ^ 52 * pow2 (expo x - 52) = pow2 (expo x)" by (rule pow2_split52[symmetric])
  ultimately show ?thesis by simp
qed

lemma rd_mono_pos:
  assumes "0 < x" "x \<le> y" shows "rd x \<le> rd y"
proof -
  have ypos: "0 < y" using assms by simp
  have le: "expo x \<le> expo y" using assms by (intro expo_mono) simp
  show ?thesis
  proof (cases "expo x = expo y")
    case True
    have "x / pow2 (expo y - 52) \<le> y / pow2 (expo y - 52)"
      using assms(2) by (simp add: divide_right_mono)
    then have "rne (x / pow2 (expo y - 52)) \<le> rne (y / pow2 (expo y - 52))" by (rule rne_mono)
    then have "of_int (rne (x / pow2 (expo y - 52))) * pow2 (expo y - 52)
        \<le> of_int (rne (y / pow2 (expo y - 52))) * pow2 (expo y - 52)"
      by (intro mult_right_mono) auto
    then show ?thesis using assms ypos True by (simp add: rd_unfold)
  next
    case False
    then have lt: "expo x + 1 \<le> expo y" using le by simp
    have "- 1022 < expo y" using lt expo_ge[of x] by linarith
    then have "pow2 (expo y) \<le> y" using expo_lower_normal[of y] ypos by simp
    then have "pow2 (expo y) \<le> rd y" using ypos by (intro rd_lower)
    moreover have "expo x < 1023" using lt expo_le_1023[of y] by simp
    then have "x < pow2 (expo x + 1)" using expo_found[of x] assms(1) by simp
    then have "rd x \<le> pow2 (expo x + 1)" using assms(1) by (intro rd_upper)
    moreover have "pow2 (expo x + 1) \<le> pow2 (expo y)" using lt by simp
    ultimately show ?thesis by linarith
  qed
qed

lemma rd_mono_nonneg:
  assumes "0 \<le> x" "x \<le> y" shows "rd x \<le> rd y"
proof (cases "x = 0")
  case True then show ?thesis using assms rd_nonneg[of y] by simp
next
  case False then show ?thesis using assms rd_mono_pos[of x y] by simp
qed

lemma rd_fix:
  assumes "x \<noteq> 0" "of_int m = x / pow2 (expo x - 52)"
  shows "rd x = x"
proof -
  have "rne (x / pow2 (expo x - 52)) = m" using assms(2)[symmetric] by simp
  then show ?thesis using assms by (simp add: rd_unfold)
qed

lemma rd_idem_nonneg:
  assumes "0 \<le> x" shows "rd (rd x) = rd x"
proof (cases "x = 0")
  case True then show ?thesis by simp
next
  case False
  then have pos: "0 < x" using assms by simp
  define e where "e = expo x"
  define u where "u = pow2 (e - 52)"
  define m where "m = rne (x / u)"
  have u: "0 < u" by (simp add: u_def)
  have y: "rd x = of_int m * u" using False by (simp add: rd_unfold m_def u_def e_def)
  have m0: "0 \<le> m" using rd_nonneg[OF assms] u unfolding y by (simp add: zero_le_mult_iff)
  have pe: "pow2 e = 2 ^ 52 * u" unfolding u_def by (rule pow2_split52)
  have pe1: "pow2 (e + 1) = 2 ^ 53 * u" unfolding u_def by (rule pow2_split53)
  have ege: "- 1022 \<le> e" and ele: "e \<le> 1023" by (simp_all add: e_def expo_ge expo_le_1023)
  have same: "rd (of_int m * u) = of_int m * u" if "m \<noteq> 0" "expo (of_int m * u) = e"
  proof (rule rd_fix[where m = m])
    show "of_int m * u \<noteq> 0" using that(1) u by simp
    show "of_int m = of_int m * u / pow2 (expo (of_int m * u) - 52)"
      unfolding that(2) using u by (simp add: u_def)
  qed
  show ?thesis
  proof (cases "x < pow2 (e + 1)")
    case False
    then have big: "pow2 (e + 1) \<le> x" by simp
    have e1023: "e = 1023"
    proof (rule ccontr)
      assume "e \<noteq> 1023"
      then have "expo x < 1023" using ele by (simp add: e_def)
      then have "x < pow2 (e + 1)" using expo_found[of x] pos by (simp add: e_def)
      then show False using False by simp
    qed
    have "of_int (2 ^ 53) \<le> x / u" using big u by (simp add: pe1 pos_le_divide_eq)
    then have m53: "2 ^ 53 \<le> m" unfolding m_def by (rule rne_ge)
    then have mr: "(2 ^ 53 :: real) \<le> of_int m" by (rule real_ge_pow)
    have "pow2 (e + 1) \<le> of_int m * u" using mr u by (simp add: pe1)
    moreover have "pow2 1023 \<le> pow2 (e + 1)" by (simp add: e1023)
    ultimately have "pow2 1023 \<le> \<bar>of_int m * u\<bar>" by linarith
    then have "expo (of_int m * u) = e" unfolding e1023 by (rule expo_big)
    moreover have "m \<noteq> 0" using m53 by auto
    ultimately show ?thesis using same by (simp add: y)
  next
    case True
    have "x / u \<le> of_int (2 ^ 53)"
      using scaled_upper[OF pos] True by (simp add: u_def e_def)
    then have m53: "m \<le> 2 ^ 53" unfolding m_def by (rule rne_le)
    consider "m = 0" | "m = 2 ^ 53" | "0 < m" "m < 2 ^ 53" using m0 m53 by linarith
    then show ?thesis
    proof cases
      case 1 then show ?thesis by (simp add: y)
    next
      case 2
      then have yv: "of_int m * u = pow2 (e + 1)" by (simp add: pe1)
      show ?thesis
      proof (cases "e = 1023")
        case True
        have "pow2 1023 \<le> \<bar>pow2 (e + 1)\<bar>" by (simp add: True)
        then have "expo (of_int m * u) = e" unfolding yv True by (rule expo_big)
        moreover have "m \<noteq> 0" using 2 by simp
        ultimately show ?thesis using same by (simp add: y)
      next
        case False
        then have e1: "e + 1 \<le> 1023" using ele by simp
        have ex: "expo (pow2 (e + 1)) = e + 1"
          using ege e1 by (intro expo_unique) auto
        have "pow2 (e + 1) / pow2 (e + 1 - 52) = of_int (2 ^ 52)"
          using pow2_split52[of "e + 1"] by simp
        then have "rd (pow2 (e + 1)) = pow2 (e + 1)"
          by (intro rd_fix[where m = "2 ^ 52"]) (simp_all add: ex)
        then show ?thesis by (simp add: y yv)
      qed
    next
      case 3
      have ypos: "0 < of_int m * u" using 3 u by simp
      have yup: "of_int m * u < pow2 (e + 1)"
      proof -
        have "of_int m < (2 ^ 53 :: real)" using 3(2) by (rule real_lt_pow)
        then show ?thesis using u by (simp add: pe1)
      qed
      have ex: "expo (of_int m * u) = e"
      proof (cases "2 ^ 52 \<le> m")
        case True
        then have "(2 ^ 52 :: real) \<le> of_int m" by (rule real_ge_pow)
        then have "pow2 e \<le> of_int m * u" using u by (simp add: pe)
        then show ?thesis using yup ypos ege ele by (intro expo_unique) auto
      next
        case False
        have sub: "e = - 1022"
        proof (rule ccontr)
          assume "e \<noteq> - 1022"
          then have "- 1022 < expo x" using ege by (simp add: e_def)
          then have "pow2 (expo x) \<le> x" using expo_lower_normal[of x] pos by simp
          then have "of_int (2 ^ 52) \<le> x / u" using scaled_lower[OF pos] by (simp add: u_def e_def)
          then have "2 ^ 52 \<le> m" unfolding m_def by (rule rne_ge)
          then show False using False by simp
        qed
        have "of_int m < (2 ^ 52 :: real)" using False by (intro real_lt_pow) simp
        then have "of_int m * u < pow2 e" using u by (simp add: pe)
        also have "\<dots> < pow2 (- 1021)" by (simp add: sub)
        finally have "\<bar>of_int m * u\<bar> < pow2 (- 1021)" using ypos by simp
        then show ?thesis unfolding sub by (rule expo_subnormal)
      qed
      have "m \<noteq> 0" using 3 by simp
      then show ?thesis using same ex by (simp add: y)
    qed
  qed
qed

lemma rd_eval:
  assumes "2 ^ 52 \<le> \<bar>x\<bar> * 2 ^ k" "\<bar>x\<bar> * 2 ^ k < 2 ^ 53" "k \<le> 1074"
  shows "rd x = of_int (rne (x * 2 ^ k)) / 2 ^ k"
proof -
  have x0: "x \<noteq> 0" using assms(1) by auto
  have p52: "pow2 (52 - int k) = 2 ^ 52 / 2 ^ k"
    using pow2_diff[of 52 "int k"] by (simp add: pow2_numeral pow2_nat)
  have "pow2 (52 - int k + 1) = pow2 (53 - int k)" by simp
  then have p53: "pow2 (52 - int k + 1) = 2 ^ 53 / 2 ^ k"
    using pow2_diff[of 53 "int k"] by (simp only: pow2_numeral pow2_nat)
  have "expo x = 52 - int k"
  proof (rule expo_unique)
    show "pow2 (52 - int k) \<le> \<bar>x\<bar>" using assms(1) by (simp add: p52 pos_divide_le_eq)
    show "\<bar>x\<bar> < pow2 (52 - int k + 1)" unfolding p53 using assms(2) by (simp add: pos_less_divide_eq)
    show "- 1022 \<le> 52 - int k" using assms(3) by simp
    show "52 - int k \<le> 1023" by simp
  qed
  moreover have "pow2 (52 - int k - 52) = 1 / 2 ^ k" using pow2_neg_nat[of k] by simp
  ultimately show ?thesis using x0 by (simp add: rd_unfold)
qed

lemma rd_dyadic:
  assumes "\<bar>m\<bar> < 2 ^ 53" "k \<le> 1074"
  shows "rd (of_int m / 2 ^ k) = of_int m / 2 ^ k"
proof (cases "m = 0")
  case True then show ?thesis by simp
next
  case False
  define x :: real where "x = of_int m / 2 ^ k"
  have x0: "x \<noteq> 0" using False by (simp add: x_def)
  have "\<bar>x\<bar> = \<bar>of_int m\<bar> / 2 ^ k" by (simp add: x_def)
  also have "\<dots> < 2 ^ 53 / 2 ^ k"
  proof -
    have "real_of_int \<bar>m\<bar> < 2 ^ 53" using assms(1) by (rule real_lt_pow)
    then have "\<bar>real_of_int m\<bar> < 2 ^ 53" by simp
    then show ?thesis by (simp add: divide_strict_right_mono)
  qed
  also have "\<dots> = pow2 (53 - int k)" using pow2_diff[of 53 "int k"] by (simp only: pow2_numeral pow2_nat)
  finally have "\<bar>x\<bar> < pow2 (52 - int k + 1)" by simp
  then have le: "expo x \<le> 52 - int k" using assms(2) by (intro expo_lt) auto
  define j where "j = nat (52 - int k - expo x)"
  have j: "expo x - 52 = - int (k + j)" using le by (simp add: j_def)
  have "x / pow2 (expo x - 52) = of_int (m * 2 ^ j)"
    unfolding j pow2_neg_nat by (simp add: x_def power_add)
  then have "rd x = x" using x0 by (intro rd_fix[where m = "m * 2 ^ j"]) simp_all
  then show ?thesis by (simp add: x_def)
qed

lemma rne_divide_int:
  assumes B: "0 < B"
  shows "rne (of_int A / of_int B) =
     (if 2 * (A mod B) < B then A div B
      else if B < 2 * (A mod B) then A div B + 1
      else if even (A div B) then A div B else A div B + 1)"
proof -
  have fl: "\<lfloor>real_of_int A / real_of_int B\<rfloor> = A div B" by (simp add: floor_divide_of_int_eq)
  have fr: "real_of_int A / real_of_int B - of_int (A div B) = of_int (A mod B) / of_int B"
  proof -
    have "real_of_int A = real_of_int (B * (A div B) + A mod B)" by (simp only: mult_div_mod_eq)
    also have "\<dots> = real_of_int B * real_of_int (A div B) + real_of_int (A mod B)"
      by (simp only: of_int_add of_int_mult)
    finally have "real_of_int A = real_of_int B * real_of_int (A div B) + real_of_int (A mod B)" .
    then show ?thesis using B by (simp add: field_simps)
  qed
  have h1: "(of_int (A mod B) / real_of_int B < 1 / 2) = (2 * (A mod B) < B)"
  proof -
    have "(of_int (A mod B) / real_of_int B < 1 / 2) = (real_of_int (2 * (A mod B)) < real_of_int B)"
      using B by (simp add: field_simps)
    then show ?thesis by (simp only: of_int_less_iff)
  qed
  have h2: "(1 / 2 < of_int (A mod B) / real_of_int B) = (B < 2 * (A mod B))"
  proof -
    have "(1 / 2 < of_int (A mod B) / real_of_int B) = (real_of_int B < real_of_int (2 * (A mod B)))"
      using B by (simp add: field_simps)
    then show ?thesis by (simp only: of_int_less_iff)
  qed
  show ?thesis unfolding rne_def Let_def fl fr h1 h2 ..
qed

lemma rne_numeral_eval:
  "rne (numeral a / numeral b) =
     (if 2 * (numeral a mod numeral b :: int) < numeral b then numeral a div numeral b
      else if numeral b < 2 * (numeral a mod numeral b :: int) then numeral a div numeral b + 1
      else if even (numeral a div numeral b :: int) then numeral a div numeral b
      else numeral a div numeral b + 1)"
  using rne_divide_int[of "numeral b" "numeral a"] by simp

lemma rne_neg: "rne (- t) = - rne t"
proof (cases "t = of_int \<lfloor>t\<rfloor>")
  case True
  then obtain n :: int where "t = of_int n" by metis
  then show ?thesis by (simp add: rne_def flip: of_int_minus)
next
  case False
  have c: "\<lceil>t\<rceil> = \<lfloor>t\<rfloor> + 1" using False by (simp add: ceiling_altdef)
  have f: "\<lfloor>- t\<rfloor> = - \<lfloor>t\<rfloor> - 1" using c by (simp add: ceiling_def)
  have fr: "- t - of_int (- \<lfloor>t\<rfloor> - 1) = 1 - (t - of_int \<lfloor>t\<rfloor>)" by simp
  have ev: "even (- \<lfloor>t\<rfloor> - 1) \<longleftrightarrow> odd \<lfloor>t\<rfloor>" by simp
  show ?thesis
    unfolding rne_def Let_def f fr ev by (auto; linarith)
qed

lemma expo_neg [simp]: "expo (- x) = expo x"
  by (simp add: expo_def expo_from_abs)

lemma rd_neg: "rd (- x) = - rd x"
  by (simp add: rd_def rne_neg)

lemma rd_mono: assumes "x \<le> y" shows "rd x \<le> rd y"
proof -
  consider "0 \<le> x" | "y \<le> 0" | "x < 0" "0 < y" using assms by linarith
  then show ?thesis
  proof cases
    case 1 then show ?thesis using assms by (rule rd_mono_nonneg)
  next
    case 2
    then have "rd (- y) \<le> rd (- x)" using assms by (intro rd_mono_nonneg) auto
    then show ?thesis by (simp add: rd_neg)
  next
    case 3
    have "0 \<le> rd (- x)" using 3 by (intro rd_nonneg) auto
    moreover have "0 \<le> rd y" using 3 by (intro rd_nonneg) auto
    ultimately show ?thesis by (simp add: rd_neg)
  qed
qed

lemma rd_idem [simp]: "rd (rd x) = rd x"
proof (cases "0 \<le> x")
  case True then show ?thesis by (rule rd_idem_nonneg)
next
  case False
  then have "rd (rd (- x)) = rd (- x)" by (intro rd_idem_nonneg) auto
  then show ?thesis by (simp add: rd_neg)
qed

lemma rd_pow2: assumes "- 1022 \<le> p" "p \<le> 1023" shows "rd (pow2 p) = pow2 p"
proof -
  have ex: "expo (pow2 p) = p" using assms by (intro expo_unique) auto
  have "pow2 p / pow2 (p - 52) = of_int (2 ^ 52)" using pow2_split52[of p] by simp
  then show ?thesis by (intro rd_fix[where m = "2 ^ 52"]) (simp_all add: ex)
qed

lemma rd_abs: "\<bar>rd x\<bar> = rd \<bar>x\<bar>"
proof (cases "0 \<le> x")
  case True then show ?thesis using rd_nonneg[of x] by simp
next
  case False
  then have "0 \<le> rd (- x)" by (intro rd_nonneg) auto
  then show ?thesis using False by (simp add: rd_neg abs_if)
qed

lemma rd_bound:
  assumes "\<bar>x\<bar> \<le> pow2 p" "- 1022 \<le> p" "p \<le> 1023"
  shows "\<bar>rd x\<bar> \<le> pow2 p"
proof -
  have "rd \<bar>x\<bar> \<le> rd (pow2 p)" using assms(1) by (rule rd_mono)
  then show ?thesis using rd_pow2[OF assms(2,3)] by (simp add: rd_abs)
qed

text \<open>Below the overflow threshold the rounded number is finite.\<close>

lemma dbl_Fin:
  assumes "\<bar>x\<bar> \<le> pow2 p" "- 1022 \<le> p" "p \<le> 1023"
  shows "dbl x = Fin (rd x)"
proof -
  have "\<bar>rd x\<bar> \<le> pow2 p" using assms by (rule rd_bound)
  also have "\<dots> \<le> pow2 1023" using assms(3) by simp
  also have "\<dots> < 2 ^ 1024" by (simp add: pow2_numeral)
  finally show ?thesis by (simp add: dbl_def)
qed

lemma dbl_close:
  assumes "\<bar>x\<bar> \<le> pow2 p" "- 1022 \<le> p" "p \<le> 1023"
  shows "\<exists>y. dbl x = Fin y \<and> \<bar>y - x\<bar> \<le> pow2 (p - 53) \<and> \<bar>y\<bar> \<le> pow2 p"
  using dbl_Fin[OF assms] rd_error_pow[OF assms(1,2)] rd_bound[OF assms] by simp

lemma dbl_0 [simp]: "dbl 0 = Fin 0"
  by (simp add: dbl_def)

lemma dbl_dyadic:
  assumes "\<bar>m\<bar> < 2 ^ 53" "k \<le> 1074"
  shows "dbl (of_int m / 2 ^ k) = Fin (of_int m / 2 ^ k)"
proof -
  have "real_of_int \<bar>m\<bar> < 2 ^ 53" using assms(1) by (rule real_lt_pow)
  then have "\<bar>real_of_int m\<bar> < 2 ^ 53" by simp
  moreover have "\<bar>real_of_int m\<bar> / 2 ^ k \<le> \<bar>real_of_int m\<bar>"
  proof -
    have "(1::real) \<le> 2 ^ k" by simp
    then have "\<bar>real_of_int m\<bar> / 2 ^ k \<le> \<bar>real_of_int m\<bar> / 1"
      by (intro divide_left_mono) auto
    then show ?thesis by simp
  qed
  moreover have "(2::real) ^ 53 < 2 ^ 1024" by simp
  ultimately have "\<bar>real_of_int m\<bar> / 2 ^ k < 2 ^ 1024" by linarith
  then have "\<bar>real_of_int m / 2 ^ k\<bar> < 2 ^ 1024" by (simp add: abs_divide)
  then show ?thesis using rd_dyadic[OF assms] by (simp add: dbl_def)
qed

lemma dbl_int:
  assumes "\<bar>m\<bar> < 2 ^ 53" shows "dbl (of_int m) = Fin (of_int m)"
  using dbl_dyadic[OF assms, of 0] by simp

lemma dbl_neg: "dbl (- x) = num_neg (dbl x)"
proof (cases "x = 0")
  case True then show ?thesis by simp
next
  case False
  then show ?thesis by (auto simp: dbl_def rd_neg)
qed

text \<open>A finite result of rounding is a double, which rounding leaves alone.\<close>

lemma dbl_Fin_rd: "dbl x = Fin y \<Longrightarrow> y = rd x"
  by (simp add: dbl_def split: if_splits)

lemma dbl_Fin_small: "dbl x = Fin y \<Longrightarrow> \<bar>y\<bar> < 2 ^ 1024"
  by (auto simp: dbl_def split: if_splits)

lemma dbl_not_NaN [simp]: "dbl x \<noteq> NaN"
  by (simp add: dbl_def)

lemma dbl_idem: assumes "dbl x = Fin y" shows "dbl y = Fin y"
proof -
  have y: "y = rd x" and small: "\<not> 2 ^ 1024 \<le> \<bar>rd x\<bar>"
    using assms by (simp_all add: dbl_def split: if_splits)
  show ?thesis using small by (simp add: dbl_def y)
qed

lemma dbl_mono:
  assumes "x \<le> y" "dbl x = Fin a" "dbl y = Fin b" shows "a \<le> b"
  using rd_mono[OF assms(1)] dbl_Fin_rd[OF assms(2)] dbl_Fin_rd[OF assms(3)] by simp

lemma rne_numeral [simp]: "rne (numeral a) = numeral a"
  using rne_of_int[of "numeral a"] by simp

text \<open>The same facts with the bound written as a power of two or its inverse.\<close>

lemma dbl_close_nat:
  assumes "\<bar>x\<bar> \<le> 2 ^ n" "n \<le> 1023"
  shows "\<exists>y. dbl x = Fin y \<and> \<bar>y - x\<bar> \<le> 2 ^ n / 2 ^ 53 \<and> \<bar>y\<bar> \<le> 2 ^ n"
proof -
  have b: "\<bar>x\<bar> \<le> pow2 (int n)" using assms(1) by (simp add: pow2_nat)
  have e: "pow2 (int n - 53) = 2 ^ n / 2 ^ 53"
    using pow2_diff[of "int n" 53] by (simp add: pow2_nat pow2_numeral)
  from dbl_close[OF b] assms(2) show ?thesis by (simp add: e pow2_nat)
qed

lemma dbl_small:
  assumes "\<bar>c\<bar> \<le> 2 ^ n" "n \<le> 1023"
  shows "\<exists>v. dbl c = Fin v \<and> \<bar>v\<bar> \<le> 2 ^ n"
  using dbl_close_nat[OF assms] by blast

lemma dbl_close_frac:
  assumes "\<bar>x\<bar> \<le> 1 / 2 ^ n" "n \<le> 1022"
  shows "\<exists>y. dbl x = Fin y \<and> \<bar>y - x\<bar> \<le> 1 / 2 ^ (n + 53) \<and> \<bar>y\<bar> \<le> 1 / 2 ^ n"
proof -
  have b: "\<bar>x\<bar> \<le> pow2 (- int n)" using assms(1) by (simp add: pow2_neg_nat)
  have "pow2 (- int n - 53) = pow2 (- int (n + 53))" by simp
  then have e: "pow2 (- int n - 53) = 1 / 2 ^ (n + 53)" by (simp only: pow2_neg_nat)
  from dbl_close[OF b] assms(2) show ?thesis by (simp add: e pow2_neg_nat)
qed

text \<open>
  The double of a real whose binade is known, computed: \<open>k\<close> is the number of binary
  places of the doubles of that binade.
\<close>

lemma dbl_eval:
  assumes "2 ^ 52 \<le> \<bar>x\<bar> * 2 ^ k" "\<bar>x\<bar> * 2 ^ k < 2 ^ 53" "k \<le> 1074"
  shows "dbl x = Fin (of_int (rne (x * 2 ^ k)) / 2 ^ k)"
proof -
  have r: "rd x = of_int (rne (x * 2 ^ k)) / 2 ^ k" using assms by (rule rd_eval)
  have "\<bar>x\<bar> \<le> \<bar>x\<bar> * 2 ^ k" by (simp add: mult_le_cancel_left1)
  then have "\<bar>x\<bar> \<le> pow2 53" using assms(2) by (simp add: pow2_numeral)
  then have "dbl x = Fin (rd x)" by (rule dbl_Fin) simp_all
  then show ?thesis by (simp add: r)
qed

section \<open>Facts about decimal rounding\<close>

text \<open>Rounding to \<open>d\<close> decimals moves a value by at most half a unit of the last decimal.\<close>

lemma round_fixed_close: "\<bar>round_fixed d x - x\<bar> \<le> 1 / (2 * 10 ^ d)"
proof (cases "10 ^ 21 \<le> \<bar>x\<bar>")
  case True
  then show ?thesis by (simp add: round_fixed_def)
next
  case False
  define y where "y = \<bar>x\<bar> * 10 ^ d"
  define n where "n = \<lfloor>y + 1 / 2\<rfloor>"
  have lo: "of_int n \<le> y + 1 / 2" unfolding n_def by (rule of_int_floor_le)
  have hi: "y + 1 / 2 < of_int n + 1" unfolding n_def by linarith
  have near: "\<bar>of_int n - y\<bar> \<le> 1 / 2" using lo hi by linarith
  have x: "x = sgn x * (y / 10 ^ d)" by (simp add: y_def sgn_real_def)
  have "round_fixed d x - x = sgn x * ((of_int n - y) / 10 ^ d)"
  proof -
    have "round_fixed d x = sgn x * (of_int n / 10 ^ d)"
      using False by (simp add: round_fixed_def n_def y_def)
    moreover have "sgn x * (of_int n / 10 ^ d) - sgn x * (y / 10 ^ d)
        = sgn x * ((of_int n - y) / 10 ^ d)"
      by (simp add: diff_divide_distrib right_diff_distrib)
    ultimately show ?thesis using x by simp
  qed
  then have "\<bar>round_fixed d x - x\<bar> = \<bar>sgn x\<bar> * (\<bar>of_int n - y\<bar> / 10 ^ d)"
    by (simp add: abs_mult)
  also have "\<dots> \<le> 1 * (\<bar>of_int n - y\<bar> / 10 ^ d)"
    by (rule mult_right_mono) (simp_all add: sgn_real_def)
  also have "\<dots> = \<bar>of_int n - y\<bar> / 10 ^ d" by simp
  also have "\<dots> \<le> (1 / 2) / 10 ^ d"
    using near by (intro divide_right_mono) simp_all
  also have "\<dots> = 1 / (2 * 10 ^ d)" by simp
  finally show ?thesis .
qed

text \<open>The value printed is a decimal numeral of \<open>d\<close> decimals, or the number itself
  from \<open>10^21\<close> on.\<close>

lemma round_fixed_grid:
  assumes "\<bar>x\<bar> < 10 ^ 21"
  shows "\<exists>n :: int. round_fixed d x = of_int n / 10 ^ d"
proof -
  consider "0 < x" | "x = 0" | "x < 0" by linarith
  then show ?thesis
  proof cases
    case 1
    then have "round_fixed d x = of_int \<lfloor>\<bar>x\<bar> * 10 ^ d + 1 / 2\<rfloor> / 10 ^ d"
      using assms by (simp add: round_fixed_def)
    then show ?thesis by blast
  next
    case 2
    then have "round_fixed d x = of_int 0 / 10 ^ d" by (simp add: round_fixed_def)
    then show ?thesis by blast
  next
    case 3
    then have "round_fixed d x = of_int (- \<lfloor>\<bar>x\<bar> * 10 ^ d + 1 / 2\<rfloor>) / 10 ^ d"
      using assms by (simp add: round_fixed_def)
    then show ?thesis by blast
  qed
qed

text \<open>On non-negative values the decimal rounding is monotone.\<close>

lemma round_fixed_nonneg:
  assumes "0 \<le> x"
  shows "round_fixed d x = (if 10 ^ 21 \<le> x then x else of_int \<lfloor>x * 10 ^ d + 1 / 2\<rfloor> / 10 ^ d)"
proof (cases "x = 0")
  case True
  then show ?thesis by (simp add: round_fixed_def)
next
  case False
  then have "0 < x" using assms by simp
  then show ?thesis by (simp add: round_fixed_def)
qed

lemma round_fixed_ge0: assumes "0 \<le> x" shows "0 \<le> round_fixed d x"
  using assms by (simp add: round_fixed_nonneg)

lemma round_fixed_mono:
  assumes "0 \<le> x" and "x \<le> y"
  shows "round_fixed d x \<le> round_fixed d y"
proof -
  have y0: "0 \<le> y" using assms by simp
  consider (small) "y < 10 ^ 21" | (big) "10 ^ 21 \<le> x" | (across) "x < 10 ^ 21" "10 ^ 21 \<le> y"
    using assms by linarith
  then show ?thesis
  proof cases
    case small
    then have xs: "x < 10 ^ 21" using assms by simp
    have "x * 10 ^ d + 1 / 2 \<le> y * 10 ^ d + 1 / 2" using assms by simp
    then have "\<lfloor>x * 10 ^ d + 1 / 2\<rfloor> \<le> \<lfloor>y * 10 ^ d + 1 / 2\<rfloor>" by (rule floor_mono)
    then have "(of_int \<lfloor>x * 10 ^ d + 1 / 2\<rfloor> :: real) / 10 ^ d
        \<le> of_int \<lfloor>y * 10 ^ d + 1 / 2\<rfloor> / 10 ^ d"
      by (intro divide_right_mono) simp_all
    then show ?thesis using small xs assms(1) y0 by (simp add: round_fixed_nonneg)
  next
    case big
    then show ?thesis using assms y0 by (simp add: round_fixed_nonneg)
  next
    case across
    define N :: int where "N = 10 ^ 21 * 10 ^ d"
    have Nr: "(of_int N :: real) = 10 ^ 21 * 10 ^ d" by (simp add: N_def)
    have "x * 10 ^ d < 10 ^ 21 * 10 ^ d"
      using across(1) by (intro mult_strict_right_mono) simp_all
    then have "x * 10 ^ d + 1 / 2 < of_int (N + 1)" unfolding of_int_add Nr by linarith
    then have "\<lfloor>x * 10 ^ d + 1 / 2\<rfloor> < N + 1" by (simp only: floor_less_iff)
    then have "\<lfloor>x * 10 ^ d + 1 / 2\<rfloor> \<le> 10 ^ 21 * 10 ^ d" by (simp add: N_def)
    then have "(of_int \<lfloor>x * 10 ^ d + 1 / 2\<rfloor> :: real) \<le> of_int (10 ^ 21 * 10 ^ d)"
      by (simp only: of_int_le_iff)
    then have "(of_int \<lfloor>x * 10 ^ d + 1 / 2\<rfloor> :: real) / 10 ^ d \<le> (10 ^ 21 * 10 ^ d) / 10 ^ d"
      by (intro divide_right_mono) simp_all
    then have "(of_int \<lfloor>x * 10 ^ d + 1 / 2\<rfloor> :: real) / 10 ^ d \<le> 10 ^ 21" by simp
    then show ?thesis using across assms(1) y0 by (simp add: round_fixed_nonneg)
  qed
qed

text \<open>A decimal numeral of \<open>d\<close> decimals prints as itself.\<close>

lemma round_fixed_numeral:
  assumes "0 \<le> n"
  shows "round_fixed d (of_int n / 10 ^ d) = of_int n / 10 ^ d"
proof -
  have r0: "0 \<le> (of_int n :: real) / 10 ^ d" using assms by simp
  have "(of_int n / 10 ^ d) * 10 ^ d = (of_int n :: real)" by simp
  then have "\<lfloor>(of_int n :: real) / 10 ^ d * 10 ^ d + 1 / 2\<rfloor> = n" by simp
  then show ?thesis using r0 by (simp add: round_fixed_nonneg)
qed

text \<open>
  A value near a decimal numeral prints as that numeral: this is what reading the numeral
  as a double and printing it again relies on.
\<close>

lemma round_fixed_near:
  assumes "0 \<le> n" "0 \<le> y" "\<bar>y - of_int n / 10 ^ d\<bar> < 1 / (2 * 10 ^ d)" "y < 10 ^ 21"
  shows "round_fixed d y = of_int n / 10 ^ d"
proof -
  have "y * 10 ^ d - of_int n = (y - of_int n / 10 ^ d) * 10 ^ d"
    by (simp add: left_diff_distrib)
  then have "\<bar>y * 10 ^ d - of_int n\<bar> = \<bar>y - of_int n / 10 ^ d\<bar> * 10 ^ d"
    by (simp add: abs_mult)
  also have "\<dots> < 1 / (2 * 10 ^ d) * 10 ^ d"
    using assms(3) by (intro mult_strict_right_mono) simp_all
  also have "\<dots> = 1 / 2" by simp
  finally have "\<bar>y * 10 ^ d - of_int n\<bar> < 1 / 2" .
  then have "\<lfloor>y * 10 ^ d + 1 / 2\<rfloor> = n" by linarith
  then show ?thesis using assms(2,4) by (simp add: round_fixed_nonneg)
qed

text \<open>
  \<open>Number(x.toFixed(d))\<close> on a double below \<open>10^21\<close> is the double of a decimal
  numeral of \<open>d\<close> decimals that lies within half a unit of the last decimal of \<open>x\<close>.
\<close>

lemma toFixed_grid_close:
  assumes "\<bar>q\<bar> < 10 ^ 21"
  shows "\<exists>n :: int. toFixed d (Fin q) = dbl (of_int n / 10 ^ d) \<and>
           \<bar>of_int n / 10 ^ d - q\<bar> \<le> 1 / (2 * 10 ^ d)"
proof -
  from round_fixed_grid[OF assms, of d] obtain n :: int where
    n: "round_fixed d q = of_int n / 10 ^ d" by blast
  have "\<bar>of_int n / 10 ^ d - q\<bar> \<le> 1 / (2 * 10 ^ d)"
    using round_fixed_close[of d q] by (simp add: n)
  then show ?thesis using n by (intro exI[of _ n]) simp
qed

section \<open>The doubles of the numerals in use\<close>

text \<open>
  The double a decimal numeral denotes, written as an integer over a power of two. Each
  is computed from the definition, with the binade of the numeral given.
\<close>

lemma dbl_0_00009: "dbl 0.00009 = Fin (6640827866535439 / 2 ^ 66)"
  by (subst dbl_eval[where k = 66]) (simp_all add: rne_numeral_eval)

lemma dbl_0_0001: "dbl 0.0001 = Fin (7378697629483821 / 2 ^ 66)"
  by (subst dbl_eval[where k = 66]) (simp_all add: rne_numeral_eval)

lemma dbl_0_05: "dbl 0.05 = Fin (7205759403792794 / 2 ^ 57)"
  by (subst dbl_eval[where k = 57]) (simp_all add: rne_numeral_eval)

lemma dbl_0_05004: "dbl 0.05004 = Fin (7211524011315828 / 2 ^ 57)"
  by (subst dbl_eval[where k = 57]) (simp_all add: rne_numeral_eval)

lemma dbl_0_06: "dbl 0.06 = Fin (8646911284551352 / 2 ^ 57)"
  by (subst dbl_eval[where k = 57]) (simp_all add: rne_numeral_eval)

lemma dbl_0_2: "dbl 0.2 = Fin (7205759403792794 / 2 ^ 55)"
  by (subst dbl_eval[where k = 55]) (simp_all add: rne_numeral_eval)

lemma dbl_0_2205: "dbl 0.2205 = Fin (7944349742681555 / 2 ^ 55)"
  by (subst dbl_eval[where k = 55]) (simp_all add: rne_numeral_eval)

lemma dbl_0_3: "dbl 0.3 = Fin (5404319552844595 / 2 ^ 54)"
  by (subst dbl_eval[where k = 54]) (simp_all add: rne_numeral_eval)

lemma dbl_0_4: "dbl 0.4 = Fin (7205759403792794 / 2 ^ 54)"
  by (subst dbl_eval[where k = 54]) (simp_all add: rne_numeral_eval)

lemma dbl_0_45: "dbl 0.45 = Fin (8106479329266893 / 2 ^ 54)"
  by (subst dbl_eval[where k = 54]) (simp_all add: rne_numeral_eval)

lemma dbl_0_57: "dbl 0.57 = Fin (5134103575202365 / 2 ^ 53)"
  by (subst dbl_eval[where k = 53]) (simp_all add: rne_numeral_eval)

lemma dbl_0_58: "dbl 0.58 = Fin (5224175567749775 / 2 ^ 53)"
  by (subst dbl_eval[where k = 53]) (simp_all add: rne_numeral_eval)

lemma dbl_0_6: "dbl 0.6 = Fin (5404319552844595 / 2 ^ 53)"
  by (subst dbl_eval[where k = 53]) (simp_all add: rne_numeral_eval)

lemma dbl_0_7: "dbl 0.7 = Fin (6305039478318694 / 2 ^ 53)"
  by (subst dbl_eval[where k = 53]) (simp_all add: rne_numeral_eval)

lemma dbl_0_9: "dbl 0.9 = Fin (8106479329266893 / 2 ^ 53)"
  by (subst dbl_eval[where k = 53]) (simp_all add: rne_numeral_eval)

lemma dbl_0_92: "dbl 0.92 = Fin (8286623314361713 / 2 ^ 53)"
  by (subst dbl_eval[where k = 53]) (simp_all add: rne_numeral_eval)

lemma dbl_0_95: "dbl 0.95 = Fin (8556839292003942 / 2 ^ 53)"
  by (subst dbl_eval[where k = 53]) (simp_all add: rne_numeral_eval)

lemma dbl_1: "dbl 1 = Fin 1"
  using dbl_int[of 1] by simp

lemma dbl_10: "dbl 10 = Fin 10"
  using dbl_int[of 10] by simp

lemma dbl_15: "dbl 15 = Fin 15"
  using dbl_int[of 15] by simp

lemma dbl_22_6: "dbl 22.6 = Fin (6361334473660826 / 2 ^ 48)"
  by (subst dbl_eval[where k = 48]) (simp_all add: rne_numeral_eval)

lemma dbl_52_51: "dbl 52.51 = Fin (7390125513538273 / 2 ^ 47)"
  by (subst dbl_eval[where k = 47]) (simp_all add: rne_numeral_eval)

lemma dbl_5_5: "dbl 5.5 = Fin 5.5"
  using dbl_dyadic[of 11 1] by simp

lemma dbl_60_01: "dbl 60.01 = Fin (8445656676203233 / 2 ^ 47)"
  by (subst dbl_eval[where k = 47]) (simp_all add: rne_numeral_eval)

lemma dbl_7_5: "dbl (15 / 2) = Fin (15 / 2)"
  using dbl_dyadic[of 15 1] by simp

lemma dbl_7_6: "dbl 7.6 = Fin (8556839292003942 / 2 ^ 50)"
  by (subst dbl_eval[where k = 50]) (simp_all add: rne_numeral_eval)

section \<open>Order facts about numbers\<close>

lemma num_gt_trans: "num_gt a b \<Longrightarrow> num_gt b c \<Longrightarrow> num_gt a c"
  by (cases a; cases b; cases c; simp)

lemma num_gt_le_trans: "num_gt a b \<Longrightarrow> num_le c b \<Longrightarrow> num_gt a c"
  by (cases a; cases b; cases c; simp add: num_le_def)

lemma num_le_trans: "num_le a b \<Longrightarrow> num_le b c \<Longrightarrow> num_le a c"
  by (cases a; cases b; cases c; simp add: num_le_def)

lemma num_le_refl: "a \<noteq> NaN \<Longrightarrow> num_le a a"
  by (cases a; simp add: num_le_def)

lemma num_gt_imp_le: "num_gt a b \<Longrightarrow> num_le b a"
  by (cases a; cases b; simp add: num_le_def)

lemma num_gt_irrefl: "\<not> num_gt a a"
  by (cases a; simp)

lemma num_gt_not_ge: "num_gt a b \<Longrightarrow> \<not> num_ge b a"
  by (cases a; cases b; simp add: num_ge_def num_le_def)

lemma num_gt_imp_ge: "num_gt a b \<Longrightarrow> num_ge a b"
  by (cases a; cases b; simp add: num_ge_def num_le_def)

lemma not_gt_gt_not_ge: "\<not> num_gt a b \<Longrightarrow> num_gt c b \<Longrightarrow> \<not> num_ge a c"
  by (cases a; cases b; cases c; simp add: num_ge_def num_le_def)

lemma not_gt_NegInf: "\<not> num_gt a NegInf \<Longrightarrow> \<not> num_gt a b"
  by (cases a; cases b; simp)

section \<open>Strategy selection after warm-up\<close>

text \<open>
  The loop over a list of strategies. Either no average of the list is above the start
  and the accumulator comes back unchanged, or the result is a strategy of the list with
  its average, above the start; then no average of the list is above it, and no average
  of a strategy listed before it is above or equal to it. Comparisons are those of
  JavaScript, so an average that is NaN is never above anything.
\<close>

lemma bestLoop_inv:
  "\<exists>r rs. bestLoop m ss (b, bs) = (r, rs) \<and>
     ((r = b \<and> rs = bs \<and> (\<forall>j<length ss. \<not> num_gt (storedAvg m (ss ! j)) bs)) \<or>
      (\<exists>i<length ss. r = ss ! i \<and> rs = storedAvg m (ss ! i) \<and> num_gt rs bs \<and>
         (\<forall>j<length ss. \<not> num_gt (storedAvg m (ss ! j)) rs) \<and>
         (\<forall>j<i. \<not> num_ge (storedAvg m (ss ! j)) rs)))"
proof (induction ss arbitrary: b bs)
  case Nil
  then show ?case by simp
next
  case (Cons s ss)
  let ?a = "storedAvg m s"
  show ?case
  proof (cases "num_gt ?a bs")
    case True
    from Cons.IH[of s ?a] obtain r rs where
      eq: "bestLoop m ss (s, ?a) = (r, rs)"
      and alt: "(r = s \<and> rs = ?a \<and> (\<forall>j<length ss. \<not> num_gt (storedAvg m (ss ! j)) ?a)) \<or>
            (\<exists>i<length ss. r = ss ! i \<and> rs = storedAvg m (ss ! i) \<and> num_gt rs ?a \<and>
               (\<forall>j<length ss. \<not> num_gt (storedAvg m (ss ! j)) rs) \<and>
               (\<forall>j<i. \<not> num_ge (storedAvg m (ss ! j)) rs))"
      by blast
    have run: "bestLoop m (s # ss) (b, bs) = (r, rs)"
      using True eq by simp
    from alt have "\<exists>k<length (s # ss). r = (s # ss) ! k \<and> rs = storedAvg m ((s # ss) ! k) \<and>
          num_gt rs bs \<and>
          (\<forall>j<length (s # ss). \<not> num_gt (storedAvg m ((s # ss) ! j)) rs) \<and>
          (\<forall>j<k. \<not> num_ge (storedAvg m ((s # ss) ! j)) rs)"
    proof
      assume h: "r = s \<and> rs = ?a \<and> (\<forall>j<length ss. \<not> num_gt (storedAvg m (ss ! j)) ?a)"
      have "\<forall>j<length (s # ss). \<not> num_gt (storedAvg m ((s # ss) ! j)) rs"
        using h by (auto simp: less_Suc_eq_0_disj num_gt_irrefl)
      then show ?thesis using h True by (intro exI[of _ 0]) simp
    next
      assume "\<exists>i<length ss. r = ss ! i \<and> rs = storedAvg m (ss ! i) \<and> num_gt rs ?a \<and>
               (\<forall>j<length ss. \<not> num_gt (storedAvg m (ss ! j)) rs) \<and>
               (\<forall>j<i. \<not> num_ge (storedAvg m (ss ! j)) rs)"
      then obtain i where i: "i < length ss" "r = ss ! i" "rs = storedAvg m (ss ! i)"
        "num_gt rs ?a" "\<forall>j<length ss. \<not> num_gt (storedAvg m (ss ! j)) rs"
        "\<forall>j<i. \<not> num_ge (storedAvg m (ss ! j)) rs" by blast
      have nge: "\<not> num_ge ?a rs" using i(4) by (rule num_gt_not_ge)
      have ngt: "\<not> num_gt ?a rs" using nge num_gt_imp_ge by blast
      have "num_gt rs bs" using i(4) True by (rule num_gt_trans)
      moreover have "\<forall>j<length (s # ss). \<not> num_gt (storedAvg m ((s # ss) ! j)) rs"
        using i(5) ngt by (auto simp: less_Suc_eq_0_disj)
      moreover have "\<forall>j<Suc i. \<not> num_ge (storedAvg m ((s # ss) ! j)) rs"
        using i(6) nge by (auto simp: less_Suc_eq_0_disj)
      ultimately show ?thesis using i(1,2,3) by (intro exI[of _ "Suc i"]) simp
    qed
    then show ?thesis using run by blast
  next
    case False
    from Cons.IH[of b bs] obtain r rs where
      eq: "bestLoop m ss (b, bs) = (r, rs)"
      and alt: "(r = b \<and> rs = bs \<and> (\<forall>j<length ss. \<not> num_gt (storedAvg m (ss ! j)) bs)) \<or>
            (\<exists>i<length ss. r = ss ! i \<and> rs = storedAvg m (ss ! i) \<and> num_gt rs bs \<and>
               (\<forall>j<length ss. \<not> num_gt (storedAvg m (ss ! j)) rs) \<and>
               (\<forall>j<i. \<not> num_ge (storedAvg m (ss ! j)) rs))"
      by blast
    have run: "bestLoop m (s # ss) (b, bs) = (r, rs)"
      using False eq by simp
    from alt show ?thesis
    proof
      assume h: "r = b \<and> rs = bs \<and> (\<forall>j<length ss. \<not> num_gt (storedAvg m (ss ! j)) bs)"
      have "\<forall>j<length (s # ss). \<not> num_gt (storedAvg m ((s # ss) ! j)) bs"
        using h False by (auto simp: less_Suc_eq_0_disj)
      then show ?thesis using run h by blast
    next
      assume "\<exists>i<length ss. r = ss ! i \<and> rs = storedAvg m (ss ! i) \<and> num_gt rs bs \<and>
               (\<forall>j<length ss. \<not> num_gt (storedAvg m (ss ! j)) rs) \<and>
               (\<forall>j<i. \<not> num_ge (storedAvg m (ss ! j)) rs)"
      then obtain i where i: "i < length ss" "r = ss ! i" "rs = storedAvg m (ss ! i)"
        "num_gt rs bs" "\<forall>j<length ss. \<not> num_gt (storedAvg m (ss ! j)) rs"
        "\<forall>j<i. \<not> num_ge (storedAvg m (ss ! j)) rs" by blast
      have nge: "\<not> num_ge ?a rs" using False i(4) by (rule not_gt_gt_not_ge)
      have ngt: "\<not> num_gt ?a rs" using nge num_gt_imp_ge by blast
      have "\<forall>j<length (s # ss). \<not> num_gt (storedAvg m ((s # ss) ! j)) rs"
        using i(5) ngt by (auto simp: less_Suc_eq_0_disj)
      moreover have "\<forall>j<Suc i. \<not> num_ge (storedAvg m ((s # ss) ! j)) rs"
        using i(6) nge by (auto simp: less_Suc_eq_0_disj)
      ultimately have "\<exists>k<length (s # ss). r = (s # ss) ! k \<and>
          rs = storedAvg m ((s # ss) ! k) \<and> num_gt rs bs \<and>
          (\<forall>j<length (s # ss). \<not> num_gt (storedAvg m ((s # ss) ! j)) rs) \<and>
          (\<forall>j<k. \<not> num_ge (storedAvg m ((s # ss) ! j)) rs)"
        using i(1,2,3,4) by (intro exI[of _ "Suc i"]) simp
      then show ?thesis using run by blast
    qed
  qed
qed

lemma pickBest_loop:
  "\<exists>i<length STRATEGIES.
     fst (bestLoop m STRATEGIES (STRATEGIES ! 0, NegInf)) = STRATEGIES ! i \<and>
     (\<forall>j<length STRATEGIES.
        \<not> num_gt (storedAvg m (STRATEGIES ! j)) (storedAvg m (STRATEGIES ! i))) \<and>
     (\<forall>j<i. \<not> num_ge (storedAvg m (STRATEGIES ! j)) (storedAvg m (STRATEGIES ! i)))"
proof -
  have len: "0 < length STRATEGIES" by (simp add: STRATEGIES_def)
  from bestLoop_inv[of m STRATEGIES "STRATEGIES ! 0" NegInf] obtain r rs where
    eq: "bestLoop m STRATEGIES (STRATEGIES ! 0, NegInf) = (r, rs)"
    and alt: "(r = STRATEGIES ! 0 \<and> rs = NegInf \<and>
         (\<forall>j<length STRATEGIES. \<not> num_gt (storedAvg m (STRATEGIES ! j)) NegInf)) \<or>
       (\<exists>i<length STRATEGIES. r = STRATEGIES ! i \<and> rs = storedAvg m (STRATEGIES ! i) \<and>
          num_gt rs NegInf \<and>
          (\<forall>j<length STRATEGIES. \<not> num_gt (storedAvg m (STRATEGIES ! j)) rs) \<and>
          (\<forall>j<i. \<not> num_ge (storedAvg m (STRATEGIES ! j)) rs))"
    by blast
  from alt show ?thesis
  proof
    assume h: "r = STRATEGIES ! 0 \<and> rs = NegInf \<and>
         (\<forall>j<length STRATEGIES. \<not> num_gt (storedAvg m (STRATEGIES ! j)) NegInf)"
    then have "\<forall>j<length STRATEGIES.
        \<not> num_gt (storedAvg m (STRATEGIES ! j)) (storedAvg m (STRATEGIES ! 0))"
      using not_gt_NegInf by blast
    then show ?thesis using eq h len by (intro exI[of _ 0]) simp
  next
    assume "\<exists>i<length STRATEGIES. r = STRATEGIES ! i \<and> rs = storedAvg m (STRATEGIES ! i) \<and>
          num_gt rs NegInf \<and>
          (\<forall>j<length STRATEGIES. \<not> num_gt (storedAvg m (STRATEGIES ! j)) rs) \<and>
          (\<forall>j<i. \<not> num_ge (storedAvg m (STRATEGIES ! j)) rs)"
    then obtain i where i: "i < length STRATEGIES" "r = STRATEGIES ! i"
      "rs = storedAvg m (STRATEGIES ! i)"
      "\<forall>j<length STRATEGIES. \<not> num_gt (storedAvg m (STRATEGIES ! j)) rs"
      "\<forall>j<i. \<not> num_ge (storedAvg m (STRATEGIES ! j)) rs"
      by blast
    show ?thesis using eq i by (intro exI[of _ i]) simp
  qed
qed

text \<open>
  C1. In a round past the warm-up count the selection returns a member of the catalog,
  for every memory. When \<open>objectionPolicy\<close> has an entry for the objection category that
  names a strategy of the catalog, that entry is returned. When it has no such entry, the
  result is the strategy of the catalog with the highest stored average, the first listed
  among equals: reading the average of a strategy as the \<open>avgScore\<close> of its entry in
  \<open>strategyStats\<close>, and as 0 when it has no entry, no strategy of the catalog has an
  average above that of the result, and no strategy listed before the result has an
  average above or equal to it.
\<close>

theorem select_after_warmup:
  assumes past: "num_gt (Fin (real epoch)) warmup"
  shows "selectStrategy epoch warmup index m objType \<in> set STRATEGIES \<and>
         (\<forall>v. objectionPolicy m objType = Some v \<and> v \<in> set STRATEGIES \<longrightarrow>
            selectStrategy epoch warmup index m objType = v) \<and>
         ((\<forall>v. objectionPolicy m objType = Some v \<longrightarrow> v \<notin> set STRATEGIES) \<longrightarrow>
            (\<exists>i<length STRATEGIES.
               selectStrategy epoch warmup index m objType = STRATEGIES ! i \<and>
               (\<forall>j<length STRATEGIES.
                  \<not> num_gt
                      (case strategyStats m (STRATEGIES ! j) of
                         None \<Rightarrow> Fin 0 | Some st \<Rightarrow> avgScore st)
                      (case strategyStats m (STRATEGIES ! i) of
                         None \<Rightarrow> Fin 0 | Some st \<Rightarrow> avgScore st)) \<and>
               (\<forall>j<i.
                  \<not> num_ge
                      (case strategyStats m (STRATEGIES ! j) of
                         None \<Rightarrow> Fin 0 | Some st \<Rightarrow> avgScore st)
                      (case strategyStats m (STRATEGIES ! i) of
                         None \<Rightarrow> Fin 0 | Some st \<Rightarrow> avgScore st))))"
proof -
  have sel: "selectStrategy epoch warmup index m objType = pickBestStrategy m objType"
    using past by (simp add: selectStrategy_def num_le_def)
  from pickBest_loop[of m] obtain i where i: "i < length STRATEGIES"
    "fst (bestLoop m STRATEGIES (STRATEGIES ! 0, NegInf)) = STRATEGIES ! i"
    "\<forall>j<length STRATEGIES.
        \<not> num_gt (storedAvg m (STRATEGIES ! j)) (storedAvg m (STRATEGIES ! i))"
    "\<forall>j<i. \<not> num_ge (storedAvg m (STRATEGIES ! j)) (storedAvg m (STRATEGIES ! i))"
    by blast
  have loop_mem: "fst (bestLoop m STRATEGIES (STRATEGIES ! 0, NegInf)) \<in> set STRATEGIES"
    using i(1,2) by simp
  have mem: "pickBestStrategy m objType \<in> set STRATEGIES"
    using loop_mem by (simp add: pickBestStrategy_def split: option.splits)
  have entry: "\<forall>v. objectionPolicy m objType = Some v \<and> v \<in> set STRATEGIES \<longrightarrow>
      pickBestStrategy m objType = v"
    by (auto simp: pickBestStrategy_def STRATEGIES_def)
  have loop: "(\<forall>v. objectionPolicy m objType = Some v \<longrightarrow> v \<notin> set STRATEGIES) \<longrightarrow>
      pickBestStrategy m objType = STRATEGIES ! i"
    using i(2) by (auto simp: pickBestStrategy_def split: option.splits)
  have best: "(\<forall>v. objectionPolicy m objType = Some v \<longrightarrow> v \<notin> set STRATEGIES) \<longrightarrow>
      (\<exists>i<length STRATEGIES.
         pickBestStrategy m objType = STRATEGIES ! i \<and>
         (\<forall>j<length STRATEGIES.
            \<not> num_gt (storedAvg m (STRATEGIES ! j)) (storedAvg m (STRATEGIES ! i))) \<and>
         (\<forall>j<i. \<not> num_ge (storedAvg m (STRATEGIES ! j)) (storedAvg m (STRATEGIES ! i))))"
    using loop i(1,3,4) by blast
  show ?thesis
    unfolding sel using mem entry best unfolding storedAvg_def by blast
qed

theorem select_after_warmup_witness:
  "selectStrategy 2 (Fin 1) 0
     (INITIAL_MEMORY\<lparr>strategyStats :=
         [''consultative'' \<mapsto> \<lparr>uses = 2, totalScore = Fin 15, avgScore = Fin 7.5\<rparr>,
          ''social_proof'' \<mapsto> \<lparr>uses = 2, totalScore = Fin 16.5, avgScore = Fin 8.25\<rparr>,
          ''urgent_offer'' \<mapsto> \<lparr>uses = 2, totalScore = Fin 16.5, avgScore = Fin 8.25\<rparr>],
        objectionPolicy := [''price'' \<mapsto> ''urgent_offer'']\<rparr>) ''price''
     = ''urgent_offer'' \<and>
   selectStrategy 2 (Fin 1) 0
     (INITIAL_MEMORY\<lparr>strategyStats :=
         [''consultative'' \<mapsto> \<lparr>uses = 2, totalScore = Fin 15, avgScore = Fin 7.5\<rparr>,
          ''social_proof'' \<mapsto> \<lparr>uses = 2, totalScore = Fin 16.5, avgScore = Fin 8.25\<rparr>,
          ''urgent_offer'' \<mapsto> \<lparr>uses = 2, totalScore = Fin 16.5, avgScore = Fin 8.25\<rparr>],
        objectionPolicy := [''price'' \<mapsto> ''urgent_offer'']\<rparr>) ''trust''
     = ''social_proof''"
proof -
  define m where "m = INITIAL_MEMORY\<lparr>strategyStats :=
         [''consultative'' \<mapsto> \<lparr>uses = 2, totalScore = Fin 15, avgScore = Fin 7.5\<rparr>,
          ''social_proof'' \<mapsto> \<lparr>uses = 2, totalScore = Fin 16.5, avgScore = Fin 8.25\<rparr>,
          ''urgent_offer'' \<mapsto> \<lparr>uses = 2, totalScore = Fin 16.5, avgScore = Fin 8.25\<rparr>],
        objectionPolicy := [''price'' \<mapsto> ''urgent_offer'']\<rparr>"
  have past: "num_gt (Fin (real 2)) (Fin 1)" by simp
  have a0: "(case strategyStats m (STRATEGIES ! 0) of None \<Rightarrow> Fin 0 | Some st \<Rightarrow> avgScore st)
      = Fin 7.5" by (simp add: m_def STRATEGIES_def)
  have a1: "(case strategyStats m (STRATEGIES ! 1) of None \<Rightarrow> Fin 0 | Some st \<Rightarrow> avgScore st)
      = Fin 8.25" by (simp add: m_def STRATEGIES_def)
  have a2: "(case strategyStats m (STRATEGIES ! 2) of None \<Rightarrow> Fin 0 | Some st \<Rightarrow> avgScore st)
      = Fin 8.25" by (simp add: m_def STRATEGIES_def)
  have len: "length STRATEGIES = 3" by (simp add: STRATEGIES_def)
  have p: "objectionPolicy m ''price'' = Some ''urgent_offer'' \<and>
      ''urgent_offer'' \<in> set STRATEGIES"
    by (simp add: m_def STRATEGIES_def)
  from select_after_warmup[OF past, of 0 m "''price''"] p
  have first: "selectStrategy 2 (Fin 1) 0 m ''price'' = ''urgent_offer''" by blast
  have none: "\<forall>v. objectionPolicy m ''trust'' = Some v \<longrightarrow> v \<notin> set STRATEGIES"
    by (simp add: m_def)
  from select_after_warmup[OF past, of 0 m "''trust''"] none
  obtain i where i: "i < length STRATEGIES"
    "selectStrategy 2 (Fin 1) 0 m ''trust'' = STRATEGIES ! i"
    "\<forall>j<length STRATEGIES.
        \<not> num_gt
            (case strategyStats m (STRATEGIES ! j) of None \<Rightarrow> Fin 0 | Some st \<Rightarrow> avgScore st)
            (case strategyStats m (STRATEGIES ! i) of None \<Rightarrow> Fin 0 | Some st \<Rightarrow> avgScore st)"
    "\<forall>j<i.
        \<not> num_ge
            (case strategyStats m (STRATEGIES ! j) of None \<Rightarrow> Fin 0 | Some st \<Rightarrow> avgScore st)
            (case strategyStats m (STRATEGIES ! i) of None \<Rightarrow> Fin 0 | Some st \<Rightarrow> avgScore st)"
    by blast
  have "i = 0 \<or> i = 1 \<or> i = 2" using i(1) len by linarith
  then have "i = 1"
  proof (elim disjE)
    assume i0: "i = 0"
    have "(1::nat) < length STRATEGIES" using len by simp
    with i(3) have "\<not> num_gt
        (case strategyStats m (STRATEGIES ! 1) of None \<Rightarrow> Fin 0 | Some st \<Rightarrow> avgScore st)
        (case strategyStats m (STRATEGIES ! i) of None \<Rightarrow> Fin 0 | Some st \<Rightarrow> avgScore st)"
      by blast
    then have "\<not> num_gt (Fin 8.25) (Fin 7.5)" unfolding i0 a0 a1 .
    then show ?thesis by simp
  next
    assume "i = 1" then show ?thesis .
  next
    assume i2: "i = 2"
    have "(1::nat) < i" using i2 by simp
    with i(4) have "\<not> num_ge
        (case strategyStats m (STRATEGIES ! 1) of None \<Rightarrow> Fin 0 | Some st \<Rightarrow> avgScore st)
        (case strategyStats m (STRATEGIES ! i) of None \<Rightarrow> Fin 0 | Some st \<Rightarrow> avgScore st)"
      by blast
    then have "\<not> num_ge (Fin 8.25) (Fin 8.25)" unfolding i2 a1 a2 .
    then show ?thesis by (simp add: num_ge_def num_le_def)
  qed
  then have second: "selectStrategy 2 (Fin 1) 0 m ''trust'' = ''social_proof''"
    using i(2) by (simp add: STRATEGIES_def)
  show ?thesis using first second unfolding m_def by blast
qed

section \<open>Memory update: the policy of the objection category\<close>

text \<open>
  The loop over the candidate entries, all with numeric scores: the result is the
  accumulator it started from, or an entry whose score is above the start; no entry
  scores above the result.
\<close>

lemma candLoop_inv:
  assumes "\<forall>(c, r)\<in>set cs. score r \<noteq> NaN" and "bs \<noteq> NaN"
  shows "\<exists>b' bs'. candLoop cs (b, bs) = (b', bs') \<and> bs' \<noteq> NaN \<and>
           (\<forall>(c, r)\<in>set cs. num_le (score r) bs') \<and>
           ((b' = b \<and> bs' = bs) \<or> (\<exists>r. (b', r) \<in> set cs \<and> score r = bs' \<and> num_gt bs' bs))"
  using assms
proof (induction cs arbitrary: b bs)
  case Nil
  then show ?case by simp
next
  case (Cons p cs)
  obtain c r where p: "p = (c, r)" by (cases p)
  have rN: "score r \<noteq> NaN" and tl: "\<forall>(c, r)\<in>set cs. score r \<noteq> NaN"
    using Cons.prems p by auto
  show ?case
  proof (cases "num_gt (score r) bs")
    case True
    from Cons.IH[OF tl rN, of c] obtain b' bs' where
      eq: "candLoop cs (c, score r) = (b', bs')" and N: "bs' \<noteq> NaN"
      and le: "\<forall>(c, r)\<in>set cs. num_le (score r) bs'"
      and alt: "(b' = c \<and> bs' = score r) \<or>
                (\<exists>r'. (b', r') \<in> set cs \<and> score r' = bs' \<and> num_gt bs' (score r))"
      by blast
    have run: "candLoop (p # cs) (b, bs) = (b', bs')" using True eq p by simp
    have hd_le: "num_le (score r) bs'"
      using alt rN by (auto simp: num_le_refl num_gt_imp_le)
    have gt: "num_gt bs' bs"
      using alt True by (auto intro: num_gt_trans)
    have mem: "\<exists>r'. (b', r') \<in> set (p # cs) \<and> score r' = bs'"
      using alt p by auto
    show ?thesis using run N le hd_le gt mem p by auto
  next
    case False
    from Cons.IH[OF tl Cons.prems(2), of b] obtain b' bs' where
      eq: "candLoop cs (b, bs) = (b', bs')" and N: "bs' \<noteq> NaN"
      and le: "\<forall>(c, r)\<in>set cs. num_le (score r) bs'"
      and alt: "(b' = b \<and> bs' = bs) \<or>
                (\<exists>r'. (b', r') \<in> set cs \<and> score r' = bs' \<and> num_gt bs' bs)"
      by blast
    have run: "candLoop (p # cs) (b, bs) = (b', bs')" using False eq p by simp
    have base: "num_le (score r) bs"
      using False rN Cons.prems(2) by (simp add: num_le_def)
    have hd_le: "num_le (score r) bs'"
      using alt base by (auto intro: num_le_trans num_gt_imp_le)
    from alt show ?thesis
    proof
      assume "b' = b \<and> bs' = bs"
      then show ?thesis using run N le hd_le p by auto
    next
      assume "\<exists>r'. (b', r') \<in> set cs \<and> score r' = bs' \<and> num_gt bs' bs"
      then have "\<exists>r'. (b', r') \<in> set (p # cs) \<and> score r' = bs' \<and> num_gt bs' bs" by auto
      then show ?thesis using run N le hd_le p by auto
    qed
  qed
qed

lemma updateMemory_policy:
  assumes "strategyStats m strategy = Some st"
  shows "\<exists>m'. updateMemory m ld strategy result epoch response cands now = Inr m' \<and>
           objectionPolicy m' =
             set_property (objectionPolicy m) (objectionType ld)
               (fst (candLoop cands (strategy, score result)))"
  using assms by (simp add: updateMemory_def Let_def)




section \<open>Memory update: the statistics of the used strategy\<close>

text \<open>
  Rounding an exact result below \<open>2^30\<close> in absolute value to a double and then to 4
  decimals: the stored number is the double of a decimal numeral of 4 decimals that lies
  within \<open>0.00005 + 2^(-23)\<close> of the exact result, and the stored double itself lies
  within \<open>0.0001\<close> of it.
\<close>

lemma toFixed4_dbl_near:
  assumes "\<bar>z\<bar> \<le> 2 ^ 30"
  shows "\<exists>(n :: int) a. toFixed 4 (dbl z) = dbl (of_int n / 10 ^ 4) \<and>
           toFixed 4 (dbl z) = Fin a \<and>
           \<bar>of_int n / 10 ^ 4 - z\<bar> \<le> 1 / 20000 + 1 / 2 ^ 23 \<and>
           \<bar>a - z\<bar> \<le> 1 / 10000"
proof -
  from dbl_close_nat[OF assms] obtain q where
    q: "dbl z = Fin q" "\<bar>q - z\<bar> \<le> 2 ^ 30 / 2 ^ 53" "\<bar>q\<bar> \<le> 2 ^ 30" by auto
  have qz: "\<bar>q - z\<bar> \<le> 1 / 2 ^ 23" using q(2) by simp
  have "\<bar>q\<bar> < 10 ^ 21" using q(3) by simp
  from toFixed_grid_close[OF this, of 4] obtain n :: int where
    n: "toFixed 4 (Fin q) = dbl (of_int n / 10 ^ 4)"
       "\<bar>of_int n / 10 ^ 4 - q\<bar> \<le> 1 / (2 * 10 ^ 4)" by blast
  define r where "r = real_of_int n / 10 ^ 4"
  have nq: "\<bar>r - q\<bar> \<le> 1 / 20000" using n(2) by (simp add: r_def)
  have q3: "\<bar>q\<bar> \<le> 1073741824" using q(3) by simp
  have "\<bar>r\<bar> \<le> 2147483648" using nq q3 by linarith
  then have "\<bar>r\<bar> \<le> 2 ^ 31" by simp
  from dbl_close_nat[OF this] obtain a where
    a: "dbl r = Fin a" "\<bar>a - r\<bar> \<le> 2 ^ 31 / 2 ^ 53" by auto
  have an: "\<bar>a - r\<bar> \<le> 1 / 4194304" using a(2) by simp
  have qz': "\<bar>q - z\<bar> \<le> 1 / 8388608" using qz by simp
  have "\<bar>r - z\<bar> \<le> 1 / 20000 + 1 / 8388608" using nq qz' by linarith
  then have c1: "\<bar>real_of_int n / 10 ^ 4 - z\<bar> \<le> 1 / 20000 + 1 / 2 ^ 23" by (simp add: r_def)
  have c2: "\<bar>a - z\<bar> \<le> 1 / 10000" using nq qz' an by linarith
  have a1: "dbl (of_int n / 10 ^ 4) = Fin a" using a(1) by (simp add: r_def)
  show ?thesis using n(1) a1 c1 c2 unfolding q(1) by (intro exI[of _ n] exI[of _ a]) simp
qed

lemma updateMemory_stats_step:
  assumes "strategyStats m strategy = Some st"
  shows "\<exists>m' st'. updateMemory m ld strategy result epoch response cands now = Inr m' \<and>
           strategyStats m' = (strategyStats m)(strategy \<mapsto> st') \<and>
           uses st' = uses st + 1 \<and>
           totalScore st' = toFixed 4 (num_add (totalScore st) (score result)) \<and>
           avgScore st' = toFixed 4 (getAverage st')"
proof -
  define st2 where "st2 = st\<lparr>uses := uses st + 1,
      totalScore := toFixed 4 (num_add (totalScore st) (score result))\<rparr>"
  define st3 where "st3 = st2\<lparr>avgScore := toFixed 4 (getAverage st2)\<rparr>"
  have g: "getAverage st3 = getAverage st2" by (simp add: st3_def getAverage_def)
  have "\<exists>m'. updateMemory m ld strategy result epoch response cands now = Inr m' \<and>
          strategyStats m' = (strategyStats m)(strategy \<mapsto> st3)"
    using assms by (simp add: updateMemory_def Let_def st3_def st2_def)
  moreover have "uses st3 = uses st + 1" by (simp add: st3_def st2_def)
  moreover have "totalScore st3 = toFixed 4 (num_add (totalScore st) (score result))"
    by (simp add: st3_def st2_def)
  moreover have "avgScore st3 = toFixed 4 (getAverage st3)"
    unfolding g by (simp add: st3_def)
  ultimately show ?thesis by blast
qed

lemma updateMemory_Inr_stats:
  assumes "updateMemory m ld strategy result epoch response cands now = Inr m'"
  shows "\<exists>st st'. strategyStats m strategy = Some st \<and>
           strategyStats m' = (strategyStats m)(strategy \<mapsto> st') \<and>
           uses st' = uses st + 1 \<and>
           avgScore st' = toFixed 4 (getAverage st')"
proof (cases "strategyStats m strategy")
  case None
  then show ?thesis using assms by (simp add: updateMemory_def)
next
  case (Some st)
  from updateMemory_stats_step[OF Some, of ld result epoch response cands now] assms
  show ?thesis using Some by auto
qed

lemma decayExploration_stats:
  "decayExploration m = Inr m' \<Longrightarrow> strategyStats m' = strategyStats m"
  by (auto simp: decayExploration_def Let_def split: option.splits)

text \<open>
  In every memory of a run the three strategies of the catalog have their statistics, no
  count is negative, and each stored average is the rounded quotient \<open>getAverage\<close>
  computes.
\<close>

lemma reachable_stats:
  "reachable m \<Longrightarrow>
     \<forall>s\<in>set STRATEGIES. \<exists>t. strategyStats m s = Some t \<and> 0 \<le> uses t \<and>
        avgScore t = toFixed 4 (getAverage t)"
proof (induction rule: reachable.induct)
  case reset
  show ?case
    by (simp add: INITIAL_MEMORY_def STRATEGIES_def getAverage_def round_fixed_def)
next
  case (updated m ld strategy result epoch response cands now m')
  from updateMemory_Inr_stats[OF updated.hyps(2)] obtain st st' where
    s: "strategyStats m strategy = Some st"
       "strategyStats m' = (strategyStats m)(strategy \<mapsto> st')"
       "uses st' = uses st + 1"
       "avgScore st' = toFixed 4 (getAverage st')" by blast
  show ?case
  proof
    fix s assume mem: "s \<in> set STRATEGIES"
    show "\<exists>t. strategyStats m' s = Some t \<and> 0 \<le> uses t \<and> avgScore t = toFixed 4 (getAverage t)"
    proof (cases "s = strategy")
      case True
      from updated.IH mem True s(1) have "0 \<le> uses st" by auto
      then show ?thesis using True s by simp
    next
      case False
      then show ?thesis using updated.IH mem s(2) by simp
    qed
  qed
next
  case (decayed m m')
  then show ?case by (simp add: decayExploration_stats)
next
  case (counted m)
  then show ?case by simp
qed

lemma avg_formula:
  assumes "avgScore t = toFixed 4 (getAverage t)"
  shows "(0 < uses t \<longrightarrow>
            avgScore t = toFixed 4 (num_div_pos (totalScore t) (of_int (uses t))) \<and>
            (\<forall>x. totalScore t = Fin x \<and> \<bar>x\<bar> \<le> 2 ^ 30 * of_int (uses t) \<longrightarrow>
               (\<exists>(n :: int) a. avgScore t = dbl (of_int n / 10 ^ 4) \<and> avgScore t = Fin a \<and>
                  \<bar>of_int n / 10 ^ 4 - x / of_int (uses t)\<bar> \<le> 1 / 20000 + 1 / 2 ^ 23 \<and>
                  \<bar>a - x / of_int (uses t)\<bar> \<le> 1 / 10000))) \<and>
         (uses t = 0 \<longrightarrow> avgScore t = Fin 0)"
proof -
  have pos: "0 < uses t \<longrightarrow>
      avgScore t = toFixed 4 (num_div_pos (totalScore t) (of_int (uses t)))"
    using assms by (simp add: getAverage_def)
  have fin: "0 < uses t \<longrightarrow> (\<forall>x. totalScore t = Fin x \<and> \<bar>x\<bar> \<le> 2 ^ 30 * of_int (uses t) \<longrightarrow>
      (\<exists>(n :: int) a. avgScore t = dbl (of_int n / 10 ^ 4) \<and> avgScore t = Fin a \<and>
          \<bar>of_int n / 10 ^ 4 - x / of_int (uses t)\<bar> \<le> 1 / 20000 + 1 / 2 ^ 23 \<and>
          \<bar>a - x / of_int (uses t)\<bar> \<le> 1 / 10000))"
  proof (intro impI allI)
    fix x
    assume u: "0 < uses t" and x: "totalScore t = Fin x \<and> \<bar>x\<bar> \<le> 2 ^ 30 * of_int (uses t)"
    have up: "0 < real_of_int (uses t)" using u by simp
    have "\<bar>x / of_int (uses t)\<bar> = \<bar>x\<bar> / of_int (uses t)" using up by simp
    also have "\<dots> \<le> 2 ^ 30" using x up by (simp add: pos_divide_le_eq)
    finally have b: "\<bar>x / of_int (uses t)\<bar> \<le> 2 ^ 30" .
    have "avgScore t = toFixed 4 (dbl (x / of_int (uses t)))"
      using assms u x by (simp add: getAverage_def)
    then show "\<exists>(n :: int) a. avgScore t = dbl (of_int n / 10 ^ 4) \<and> avgScore t = Fin a \<and>
          \<bar>of_int n / 10 ^ 4 - x / of_int (uses t)\<bar> \<le> 1 / 20000 + 1 / 2 ^ 23 \<and>
          \<bar>a - x / of_int (uses t)\<bar> \<le> 1 / 10000"
      using toFixed4_dbl_near[OF b] by simp
  qed
  have zero: "uses t = 0 \<longrightarrow> avgScore t = Fin 0"
    using assms by (simp add: getAverage_def round_fixed_def)
  show ?thesis using pos fin zero by blast
qed

text \<open>
  C3. In a run that started from the reset memory, every update with a strategy of the
  catalog returns; the used strategy's \<open>uses\<close> has grown by exactly 1 and its
  \<open>totalScore\<close> is the old total plus the used score, computed in double precision and
  rounded to 4 decimals; and for every strategy of the catalog the stored \<open>avgScore\<close>
  is \<open>totalScore / uses\<close>, computed in double precision and rounded to 4 decimals, when
  \<open>uses > 0\<close>, and is 0 when \<open>uses = 0\<close>. Measured against the exact sum and the
  exact quotient, as long as these stay below \<open>2^30\<close> in absolute value: the stored
  number is the double of a numeral of 4 decimals that lies within \<open>0.00005 + 2^(-23)\<close>
  of the exact value, and the stored double lies within \<open>0.0001\<close> of it.
\<close>

theorem updateMemory_stats:
  assumes reach: "reachable m" and known: "strategy \<in> set STRATEGIES"
  shows "\<exists>m' st st'.
           updateMemory m ld strategy result epoch response cands now = Inr m' \<and>
           strategyStats m strategy = Some st \<and> strategyStats m' strategy = Some st' \<and>
           uses st' = uses st + 1 \<and>
           totalScore st' = toFixed 4 (num_add (totalScore st) (score result)) \<and>
           (\<forall>x y. totalScore st = Fin x \<and> score result = Fin y \<and> \<bar>x + y\<bar> \<le> 2 ^ 30 \<longrightarrow>
              (\<exists>(n :: int) z. totalScore st' = dbl (of_int n / 10 ^ 4) \<and> totalScore st' = Fin z \<and>
                 \<bar>of_int n / 10 ^ 4 - (x + y)\<bar> \<le> 1 / 20000 + 1 / 2 ^ 23 \<and>
                 \<bar>z - (x + y)\<bar> \<le> 1 / 10000)) \<and>
           (\<forall>s\<in>set STRATEGIES. \<exists>t. strategyStats m' s = Some t \<and> 0 \<le> uses t \<and>
              (0 < uses t \<longrightarrow>
                 avgScore t = toFixed 4 (num_div_pos (totalScore t) (of_int (uses t))) \<and>
                 (\<forall>x. totalScore t = Fin x \<and> \<bar>x\<bar> \<le> 2 ^ 30 * of_int (uses t) \<longrightarrow>
                    (\<exists>(n :: int) a. avgScore t = dbl (of_int n / 10 ^ 4) \<and> avgScore t = Fin a \<and>
                       \<bar>of_int n / 10 ^ 4 - x / of_int (uses t)\<bar> \<le> 1 / 20000 + 1 / 2 ^ 23 \<and>
                       \<bar>a - x / of_int (uses t)\<bar> \<le> 1 / 10000))) \<and>
              (uses t = 0 \<longrightarrow> avgScore t = Fin 0))"
proof -
  from reachable_stats[OF reach] known obtain st where st: "strategyStats m strategy = Some st"
    by blast
  from updateMemory_stats_step[OF st, of ld result epoch response cands now] obtain m' st' where
    run: "updateMemory m ld strategy result epoch response cands now = Inr m'"
    and upd: "strategyStats m' = (strategyStats m)(strategy \<mapsto> st')"
    and u: "uses st' = uses st + 1"
    and tot: "totalScore st' = toFixed 4 (num_add (totalScore st) (score result))"
    by blast
  have reach': "reachable m'" using reach run by (rule reachable.updated)
  have all: "\<forall>s\<in>set STRATEGIES. \<exists>t. strategyStats m' s = Some t \<and> 0 \<le> uses t \<and>
              (0 < uses t \<longrightarrow>
                 avgScore t = toFixed 4 (num_div_pos (totalScore t) (of_int (uses t))) \<and>
                 (\<forall>x. totalScore t = Fin x \<and> \<bar>x\<bar> \<le> 2 ^ 30 * of_int (uses t) \<longrightarrow>
                    (\<exists>(n :: int) a. avgScore t = dbl (of_int n / 10 ^ 4) \<and> avgScore t = Fin a \<and>
                       \<bar>of_int n / 10 ^ 4 - x / of_int (uses t)\<bar> \<le> 1 / 20000 + 1 / 2 ^ 23 \<and>
                       \<bar>a - x / of_int (uses t)\<bar> \<le> 1 / 10000))) \<and>
              (uses t = 0 \<longrightarrow> avgScore t = Fin 0)"
  proof
    fix s assume "s \<in> set STRATEGIES"
    with reachable_stats[OF reach'] obtain t where
      t: "strategyStats m' s = Some t" "0 \<le> uses t" "avgScore t = toFixed 4 (getAverage t)"
      by blast
    from avg_formula[OF t(3)] t(1,2) show "\<exists>t. strategyStats m' s = Some t \<and> 0 \<le> uses t \<and>
              (0 < uses t \<longrightarrow>
                 avgScore t = toFixed 4 (num_div_pos (totalScore t) (of_int (uses t))) \<and>
                 (\<forall>x. totalScore t = Fin x \<and> \<bar>x\<bar> \<le> 2 ^ 30 * of_int (uses t) \<longrightarrow>
                    (\<exists>(n :: int) a. avgScore t = dbl (of_int n / 10 ^ 4) \<and> avgScore t = Fin a \<and>
                       \<bar>of_int n / 10 ^ 4 - x / of_int (uses t)\<bar> \<le> 1 / 20000 + 1 / 2 ^ 23 \<and>
                       \<bar>a - x / of_int (uses t)\<bar> \<le> 1 / 10000))) \<and>
              (uses t = 0 \<longrightarrow> avgScore t = Fin 0)" by blast
  qed
  have close: "\<forall>x y. totalScore st = Fin x \<and> score result = Fin y \<and> \<bar>x + y\<bar> \<le> 2 ^ 30 \<longrightarrow>
              (\<exists>(n :: int) z. totalScore st' = dbl (of_int n / 10 ^ 4) \<and> totalScore st' = Fin z \<and>
                 \<bar>of_int n / 10 ^ 4 - (x + y)\<bar> \<le> 1 / 20000 + 1 / 2 ^ 23 \<and>
                 \<bar>z - (x + y)\<bar> \<le> 1 / 10000)"
  proof (intro allI impI)
    fix x y
    assume h: "totalScore st = Fin x \<and> score result = Fin y \<and> \<bar>x + y\<bar> \<le> 2 ^ 30"
    then have b: "\<bar>x + y\<bar> \<le> 2 ^ 30" by simp
    have "totalScore st' = toFixed 4 (dbl (x + y))" using tot h by simp
    then show "\<exists>(n :: int) z. totalScore st' = dbl (of_int n / 10 ^ 4) \<and> totalScore st' = Fin z \<and>
                 \<bar>of_int n / 10 ^ 4 - (x + y)\<bar> \<le> 1 / 20000 + 1 / 2 ^ 23 \<and>
                 \<bar>z - (x + y)\<bar> \<le> 1 / 10000"
      using toFixed4_dbl_near[OF b] by simp
  qed
  have "strategyStats m' strategy = Some st'" using upd by simp
  then show ?thesis using run st u tot close all by blast
qed

text \<open>Three updates of the reset memory with the scores 7.5, 7.5 and 7.6.\<close>

lemma total_22_6: "toFixed 4 (num_add (Fin 15) (dbl 7.6)) = dbl 22.6"
  unfolding dbl_7_6 num_add.simps
  by (subst dbl_eval[where k = 48]) (simp_all add: rne_numeral_eval round_fixed_def)

lemma average_7_5333: "toFixed 4 (num_div_pos (dbl 22.6) 3) = dbl 7.5333"
  unfolding dbl_22_6 num_div_pos.simps
  by (subst dbl_eval[where k = 50]) (simp_all add: rne_numeral_eval round_fixed_def)

theorem updateMemory_stats_witness:
  "\<exists>m1 m2 m3 st.
     updateMemory INITIAL_MEMORY sample_lead ''consultative'' (sample_result 7.5 0.5) 1
       ''Totally fair point, Amira.'' sample_candidates ''2026-01-01T00:00:00.000Z'' = Inr m1 \<and>
     updateMemory m1 sample_lead ''consultative'' (sample_result 7.5 0.5) 1
       ''Totally fair point, Amira.'' sample_candidates ''2026-01-01T00:00:01.000Z'' = Inr m2 \<and>
     updateMemory m2 sample_lead ''consultative'' (sample_decimal_result 7.6 0.58) 2
       ''Totally fair point, Amira.'' sample_candidates ''2026-01-01T00:00:02.000Z'' = Inr m3 \<and>
     strategyStats m3 ''consultative'' = Some st \<and>
     uses st = 3 \<and> totalScore st = dbl 22.6 \<and> avgScore st = dbl 7.5333"
proof -
  have h: "''consultative'' \<in> set STRATEGIES" by (simp add: STRATEGIES_def)
  from updateMemory_stats[OF reachable.reset h, of sample_lead "sample_result 7.5 0.5" 1
      "''Totally fair point, Amira.''" sample_candidates "''2026-01-01T00:00:00.000Z''"]
  obtain m1 st0 st1 where
    run1: "updateMemory INITIAL_MEMORY sample_lead ''consultative'' (sample_result 7.5 0.5) 1
           ''Totally fair point, Amira.'' sample_candidates ''2026-01-01T00:00:00.000Z'' = Inr m1"
    and st0: "strategyStats INITIAL_MEMORY ''consultative'' = Some st0"
    and st1: "strategyStats m1 ''consultative'' = Some st1"
    and u1: "uses st1 = uses st0 + 1"
    and tot1: "totalScore st1 = toFixed 4 (num_add (totalScore st0) (score (sample_result 7.5 0.5)))"
    by blast
  have v0: "st0 = \<lparr>uses = 0, totalScore = Fin 0, avgScore = Fin 0\<rparr>"
    using st0 by (simp add: INITIAL_MEMORY_def)
  have a1: "uses st1 = 1" using u1 v0 by simp
  have b1: "totalScore st1 = Fin (15 / 2)"
    using tot1 v0 by (simp add: sample_result_def dbl_7_5 round_fixed_def)
  have reach1: "reachable m1" using reachable.reset run1 by (rule reachable.updated)
  from updateMemory_stats[OF reach1 h, of sample_lead "sample_result 7.5 0.5" 1
      "''Totally fair point, Amira.''" sample_candidates "''2026-01-01T00:00:01.000Z''"]
  obtain m2 st1' st2 where
    run2: "updateMemory m1 sample_lead ''consultative'' (sample_result 7.5 0.5) 1
           ''Totally fair point, Amira.'' sample_candidates ''2026-01-01T00:00:01.000Z'' = Inr m2"
    and st1': "strategyStats m1 ''consultative'' = Some st1'"
    and st2: "strategyStats m2 ''consultative'' = Some st2"
    and u2: "uses st2 = uses st1' + 1"
    and tot2: "totalScore st2 = toFixed 4 (num_add (totalScore st1') (score (sample_result 7.5 0.5)))"
    by blast
  have e1: "st1' = st1" using st1 st1' by simp
  have a2: "uses st2 = 2" using u2 a1 e1 by simp
  have b2: "totalScore st2 = Fin 15"
    using tot2 b1 e1 by (simp add: sample_result_def dbl_15 round_fixed_def)
  have reach2: "reachable m2" using reach1 run2 by (rule reachable.updated)
  from updateMemory_stats[OF reach2 h, of sample_lead "sample_decimal_result 7.6 0.58" 2
      "''Totally fair point, Amira.''" sample_candidates "''2026-01-01T00:00:02.000Z''"]
  obtain m3 st2' st3 where
    run3: "updateMemory m2 sample_lead ''consultative'' (sample_decimal_result 7.6 0.58) 2
           ''Totally fair point, Amira.'' sample_candidates ''2026-01-01T00:00:02.000Z'' = Inr m3"
    and st2': "strategyStats m2 ''consultative'' = Some st2'"
    and st3: "strategyStats m3 ''consultative'' = Some st3"
    and u3: "uses st3 = uses st2' + 1"
    and tot3: "totalScore st3 =
        toFixed 4 (num_add (totalScore st2') (score (sample_decimal_result 7.6 0.58)))"
    and all3: "\<forall>s\<in>set STRATEGIES. \<exists>t. strategyStats m3 s = Some t \<and> 0 \<le> uses t \<and>
              (0 < uses t \<longrightarrow>
                 avgScore t = toFixed 4 (num_div_pos (totalScore t) (of_int (uses t))) \<and>
                 (\<forall>x. totalScore t = Fin x \<and> \<bar>x\<bar> \<le> 2 ^ 30 * of_int (uses t) \<longrightarrow>
                    (\<exists>(n :: int) a. avgScore t = dbl (of_int n / 10 ^ 4) \<and> avgScore t = Fin a \<and>
                       \<bar>of_int n / 10 ^ 4 - x / of_int (uses t)\<bar> \<le> 1 / 20000 + 1 / 2 ^ 23 \<and>
                       \<bar>a - x / of_int (uses t)\<bar> \<le> 1 / 10000))) \<and>
              (uses t = 0 \<longrightarrow> avgScore t = Fin 0)"
    by blast
  have e2: "st2' = st2" using st2 st2' by simp
  have a3: "uses st3 = 3" using u3 a2 e2 by simp
  have "totalScore st3 = toFixed 4 (num_add (Fin 15) (dbl 7.6))"
    using tot3 b2 e2 by (simp only: sample_decimal_result_def evaluation.simps)
  then have b3: "totalScore st3 = dbl 22.6" by (simp only: total_22_6)
  from all3 h st3 have "0 < uses st3 \<longrightarrow>
      avgScore st3 = toFixed 4 (num_div_pos (totalScore st3) (of_int (uses st3)))" by auto
  then have "avgScore st3 = toFixed 4 (num_div_pos (dbl 22.6) 3)"
    using a3 b3 by simp
  then have c3: "avgScore st3 = dbl 7.5333" by (simp only: average_7_5333)
  show ?thesis using run1 run2 run3 st3 a3 b3 c3 by blast
qed

text \<open>
  The rounding looks at the double, not at the decimal it came from. With 7 uses and a
  total of 52.51, an update with the score 7.5 stores the total 60.01; the double nearest
  to 60.01 lies below it, its eighth lies below the decimal tie 7.50125, and the stored
  average is 7.5012.
\<close>

lemma total_60_01: "toFixed 4 (num_add (dbl 52.51) (Fin 7.5)) = dbl 60.01"
  unfolding dbl_52_51 num_add.simps
  by (subst dbl_eval[where k = 47]) (simp_all add: rne_numeral_eval round_fixed_def)

lemma average_7_5012: "toFixed 4 (num_div_pos (dbl 60.01) 8) = dbl 7.5012"
  unfolding dbl_60_01 num_div_pos.simps
  by (subst dbl_eval[where k = 50]) (simp_all add: rne_numeral_eval round_fixed_def)

lemma updateMemory_average_below_tie:
  assumes "strategyStats m ''consultative''
             = Some \<lparr>uses = 7, totalScore = dbl 52.51, avgScore = dbl 7.5014\<rparr>"
  shows "\<exists>m'. updateMemory m sample_lead ''consultative'' (sample_result 7.5 0.5) 3
                 ''Totally fair point, Amira.'' sample_candidates ''2026-01-01T00:00:00.000Z''
               = Inr m' \<and>
              strategyStats m' ''consultative''
                = Some \<lparr>uses = 8, totalScore = dbl 60.01, avgScore = dbl 7.5012\<rparr>"
proof -
  from updateMemory_stats_step[OF assms, of sample_lead "sample_result 7.5 0.5" 3
      "''Totally fair point, Amira.''" sample_candidates "''2026-01-01T00:00:00.000Z''"]
  obtain m' st' where
    run: "updateMemory m sample_lead ''consultative'' (sample_result 7.5 0.5) 3
            ''Totally fair point, Amira.'' sample_candidates ''2026-01-01T00:00:00.000Z'' = Inr m'"
    and upd: "strategyStats m' = (strategyStats m)(''consultative'' \<mapsto> st')"
    and u: "uses st' = 7 + 1"
    and tot: "totalScore st' = toFixed 4 (num_add (dbl 52.51) (score (sample_result 7.5 0.5)))"
    and avg: "avgScore st' = toFixed 4 (getAverage st')"
    by auto
  have u8: "uses st' = 8" using u by simp
  have "totalScore st' = toFixed 4 (num_add (dbl 52.51) (Fin 7.5))"
    using tot by (simp only: sample_result_def evaluation.simps)
  then have t: "totalScore st' = dbl 60.01" by (simp only: total_60_01)
  have "getAverage st' = num_div_pos (dbl 60.01) 8" using u8 t by (simp add: getAverage_def)
  then have a: "avgScore st' = dbl 7.5012" using avg by (simp only: average_7_5012)
  have "st' = \<lparr>uses = 8, totalScore = dbl 60.01, avgScore = dbl 7.5012\<rparr>"
    using u8 t a by (cases st') simp
  then show ?thesis using run upd by simp
qed

section \<open>Memory update: the history\<close>

text \<open>
  C6. An update that finds the statistics of its strategy returns, and its history is the
  old history with the new entry appended, cut from the front to the last 200 entries:
  it has at most 200 entries, exactly \<open>min 200 (n + 1)\<close> of them, and is a suffix of
  the appended list, in arrival order.
\<close>

theorem updateMemory_history:
  assumes "strategyStats m strategy = Some st"
  shows "\<exists>m'. updateMemory m ld strategy result epoch response cands now = Inr m' \<and>
           length (history m') \<le> 200 \<and>
           length (history m') = min 200 (Suc (length (history m))) \<and>
           history m' =
             drop (Suc (length (history m)) - 200)
               (history m @
                  [\<lparr>h_timestamp = now, h_epoch = epoch, h_leadId = lead_id ld,
                    h_objectionType = objectionType ld, h_strategy = strategy,
                    h_score = score result,
                    h_conversionProbability = conversionProbability result,
                    h_responsePreview = take 180 response\<rparr>]) \<and>
           suffix (history m')
               (history m @
                  [\<lparr>h_timestamp = now, h_epoch = epoch, h_leadId = lead_id ld,
                    h_objectionType = objectionType ld, h_strategy = strategy,
                    h_score = score result,
                    h_conversionProbability = conversionProbability result,
                    h_responsePreview = take 180 response\<rparr>])"
proof -
  define pushed where "pushed = history m @
                  [\<lparr>h_timestamp = now, h_epoch = epoch, h_leadId = lead_id ld,
                    h_objectionType = objectionType ld, h_strategy = strategy,
                    h_score = score result,
                    h_conversionProbability = conversionProbability result,
                    h_responsePreview = take 180 response\<rparr>]"
  have len: "length pushed = Suc (length (history m))" by (simp add: pushed_def)
  have "\<exists>m'. updateMemory m ld strategy result epoch response cands now = Inr m' \<and>
          history m' = (if 200 < length pushed then drop (length pushed - 200) pushed else pushed)"
    using assms by (simp add: updateMemory_def Let_def pushed_def)
  then obtain m' where run: "updateMemory m ld strategy result epoch response cands now = Inr m'"
    and h: "history m' = (if 200 < length pushed then drop (length pushed - 200) pushed else pushed)"
    by blast
  have d: "history m' = drop (length pushed - 200) pushed" using h by simp
  have "length (history m') = min 200 (length pushed)" using d by (simp add: min_def)
  moreover have "suffix (history m') pushed" using d by (simp add: suffix_drop)
  ultimately show ?thesis using run d len unfolding pushed_def by (intro exI[of _ m']) simp
qed


theorem updateMemory_history_witness:
  "\<exists>m'. updateMemory (INITIAL_MEMORY\<lparr>history := replicate 200 sample_event\<rparr>) sample_lead
           ''consultative'' (sample_result 7.5 0.5) 2 ''Totally fair point, Amira.''
           sample_candidates ''2026-01-01T00:00:00.000Z'' = Inr m' \<and>
         length (history m') = 200 \<and>
         history m' = replicate 199 sample_event @
           [\<lparr>h_timestamp = ''2026-01-01T00:00:00.000Z'', h_epoch = 2, h_leadId = ''lead-001'',
             h_objectionType = ''price'', h_strategy = ''consultative'', h_score = Fin 7.5,
             h_conversionProbability = Fin 0.5,
             h_responsePreview = ''Totally fair point, Amira.''\<rparr>]"
proof -
  have h: "strategyStats (INITIAL_MEMORY\<lparr>history := replicate 200 sample_event\<rparr>) ''consultative''
             = Some \<lparr>uses = 0, totalScore = Fin 0, avgScore = Fin 0\<rparr>"
    by (simp add: INITIAL_MEMORY_def)
  have r: "replicate 200 sample_event = sample_event # replicate 199 sample_event"
    by (simp add: replicate_Suc[symmetric] del: replicate_Suc)
  from updateMemory_history[OF h, of sample_lead "sample_result 7.5 0.5" 2
      "''Totally fair point, Amira.''" sample_candidates "''2026-01-01T00:00:00.000Z''"]
  show ?thesis
    by (simp add: sample_lead_def sample_result_def r) blast
qed

section \<open>Exploration decay\<close>

text \<open>
  Between 0 and 1, \<open>Number(x.toFixed(4))\<close> is a double between 0 and 1, it is monotone
  in \<open>x\<close>, and it leaves its own results as they are: the double nearest to a numeral
  of 4 decimals prints as that numeral again.
\<close>

lemma round_fixed_unit:
  assumes "0 \<le> x" "x \<le> 1"
  shows "0 \<le> round_fixed 4 x \<and> round_fixed 4 x \<le> 1"
proof -
  have "round_fixed 4 x \<le> round_fixed 4 1" using assms by (rule round_fixed_mono)
  moreover have "round_fixed 4 1 = 1" by (simp add: round_fixed_def)
  ultimately show ?thesis using round_fixed_ge0[OF assms(1), of 4] by simp
qed

lemma toFixed4_unit:
  assumes "0 \<le> x" "x \<le> 1"
  shows "toFixed 4 (Fin x) = Fin (rd (round_fixed 4 x))"
proof -
  have "\<bar>round_fixed 4 x\<bar> \<le> pow2 0" using round_fixed_unit[OF assms] by simp
  then have "dbl (round_fixed 4 x) = Fin (rd (round_fixed 4 x))" by (rule dbl_Fin) simp_all
  then show ?thesis by simp
qed

lemma toFixed4_mono_unit:
  assumes "0 \<le> x" "x \<le> y" "y \<le> 1" "toFixed 4 (Fin x) = Fin a" "toFixed 4 (Fin y) = Fin b"
  shows "a \<le> b"
proof -
  have "round_fixed 4 x \<le> round_fixed 4 y" using assms(1,2) by (rule round_fixed_mono)
  then show ?thesis using assms(4,5) by (auto intro: dbl_mono)
qed

lemma toFixed4_idem_unit:
  assumes "0 \<le> x" "x \<le> 1"
  shows "toFixed 4 (toFixed 4 (Fin x)) = toFixed 4 (Fin x)"
proof -
  define n where "n = \<lfloor>x * 10 ^ 4 + 1 / 2\<rfloor>"
  define g :: real where "g = of_int n / 10 ^ 4"
  have n0: "0 \<le> n" unfolding n_def using assms(1) by simp
  have g: "round_fixed 4 x = g" using assms by (simp add: round_fixed_nonneg n_def g_def)
  have gu: "0 \<le> g" "g \<le> 1" using round_fixed_unit[OF assms] by (simp_all add: g)
  have "\<bar>g\<bar> \<le> pow2 0" using gu by simp
  then have "\<bar>rd g - g\<bar> \<le> pow2 (0 - 53)" by (rule rd_error_pow) simp
  then have err: "\<bar>rd g - g\<bar> \<le> 1 / 2 ^ 53" by (simp add: pow2_neg_numeral)
  have y0: "0 \<le> rd g" using gu(1) by (rule rd_nonneg)
  have "\<bar>rd g - of_int n / 10 ^ 4\<bar> < 1 / (2 * 10 ^ 4)" using err by (simp add: g_def)
  moreover have "rd g < 10 ^ 21"
  proof -
    have "\<bar>rd g\<bar> \<le> pow2 0" using \<open>\<bar>g\<bar> \<le> pow2 0\<close> by (rule rd_bound) simp_all
    then show ?thesis by simp
  qed
  ultimately have "round_fixed 4 (rd g) = of_int n / 10 ^ 4"
    using n0 y0 by (intro round_fixed_near) simp_all
  then have "round_fixed 4 (rd g) = g" by (simp only: g_def)
  then have "toFixed 4 (Fin (rd g)) = dbl g" by (simp only: toFixed.simps)
  then show ?thesis using toFixed4_unit[OF assms] by (simp add: g)
qed

text \<open>A number that \<open>toFixed(4)\<close> leaves as it is, is a double.\<close>

lemma toFixed_fixpoint_double:
  assumes "toFixed k (Fin e) = Fin e" shows "rd e = e"
proof -
  have "dbl (round_fixed k e) = Fin e" using assms by simp
  then have "e = rd (round_fixed k e)" by (rule dbl_Fin_rd)
  then have eq: "rd (round_fixed k e) = e" by (rule sym)
  show ?thesis using rd_idem[of "round_fixed k e"] unfolding eq .
qed

text \<open>Nothing a round does for a lead touches the exploration policy.\<close>

lemma updateMemory_policy_kept:
  "updateMemory m ld strategy result epoch response cands now = Inr m' \<Longrightarrow>
     mem_policy m' = mem_policy m"
  by (auto simp: updateMemory_def Let_def split: option.splits)

lemma processLead_policy_kept:
  assumes "processLead c w epoch ld (m, events, effects) = Inr (m', events', effects')"
  shows "mem_policy m' = mem_policy m"
  using assms
  by (auto simp: processLead_def Let_def updateMemory_policy_kept
           split: sum.splits option.splits if_splits prod.splits)

lemma leadLoop_policy_kept:
  "leadLoop c w epoch leads (m, events, effects) = Inr (m', events', effects') \<Longrightarrow>
     mem_policy m' = mem_policy m"
proof (induction leads arbitrary: m events effects)
  case Nil
  then show ?case by simp
next
  case (Cons ld leads)
  from Cons.prems obtain s where
    s: "processLead c w epoch ld (m, events, effects) = Inr s"
    and rest: "leadLoop c w epoch leads s = Inr (m', events', effects')"
    by (auto split: sum.splits)
  obtain m1 ev1 ef1 where s3: "s = (m1, ev1, ef1)" by (cases s) auto
  have "mem_policy m1 = mem_policy m" using s s3 by (auto dest: processLead_policy_kept)
  moreover have "mem_policy m' = mem_policy m1" using Cons.IH rest s3 by blast
  ultimately show ?case by simp
qed

lemma decayExploration_policy_only:
  assumes "mem_policy m1 = mem_policy m"
    and "decayExploration m1 = Inr m1'" and "decayExploration m = Inr m'"
  shows "mem_policy m1' = mem_policy m'"
  using assms by (auto simp: decayExploration_def Let_def split: option.splits)

lemma runEpoch_policy:
  assumes "runEpoch c w epoch leads m = Inr (m1, events, effects)"
    and "decayExploration m = Inr m'"
  shows "mem_policy m1 = mem_policy m'"
proof -
  from assms(1) obtain ma ev ef mb where
    loop: "leadLoop c w epoch leads (m, [], []) = Inr (ma, ev, ef)"
    and dec: "decayExploration ma = Inr mb"
    and fin: "m1 = mb\<lparr>runs := runs mb + 1\<rparr>"
    by (auto simp: runEpoch_def split: sum.splits prod.splits)
  have "mem_policy ma = mem_policy m" using loop by (rule leadLoop_policy_kept)
  then have "mem_policy mb = mem_policy m'" using dec assms(2) by (rule decayExploration_policy_only)
  then show ?thesis using fin by simp
qed

text \<open>One decay step, and the rate after any number of rounds.\<close>

lemma decayExploration_step:
  assumes pol: "mem_policy m = Some q"
    and fields: "epsilon q = Some (Fin e)" "decay q = Some (Fin d)" "minEpsilon q = Some (Fin f)"
    and bounds: "0 \<le> f" "f \<le> e" "e \<le> 1" "0 \<le> d" "d \<le> 1"
    and grid: "toFixed 4 (Fin e) = Fin e" "toFixed 4 (Fin f) = Fin f"
  shows "\<exists>m' e' p. decayExploration m = Inr m' \<and>
           mem_policy m' = Some (q\<lparr>epsilon := Some (Fin e')\<rparr>) \<and>
           num_mul (Fin e) (Fin d) = Fin p \<and> \<bar>p - e * d\<bar> \<le> 1 / 2 ^ 53 \<and>
           Fin e' = toFixed 4 (num_max (Fin f) (Fin p)) \<and>
           (\<exists>n :: int. Fin e' = dbl (of_int n / 10 ^ 4) \<and>
              \<bar>of_int n / 10 ^ 4 - max f p\<bar> \<le> 1 / 20000) \<and>
           f \<le> e' \<and> e' \<le> e \<and> toFixed 4 (Fin e') = Fin e'"
proof -
  have e0: "0 \<le> e" using bounds by simp
  have ed0: "0 \<le> e * d" using e0 bounds(4) by simp
  have "e * d \<le> e * 1" using e0 bounds(5) by (intro mult_left_mono) simp_all
  then have ede: "e * d \<le> e" by simp
  have "\<bar>e * d\<bar> \<le> 2 ^ 0" using ed0 ede bounds(3) by simp
  from dbl_close_nat[OF this] obtain p where
    p: "dbl (e * d) = Fin p" "\<bar>p - e * d\<bar> \<le> 2 ^ 0 / 2 ^ 53" by auto
  have prd: "p = rd (e * d)" using p(1) by (rule dbl_Fin_rd)
  have p0: "0 \<le> p" unfolding prd using ed0 by (rule rd_nonneg)
  have "rd (e * d) \<le> rd e" using ede by (rule rd_mono)
  then have pe: "p \<le> e" using toFixed_fixpoint_double[OF grid(1)] by (simp add: prd)
  define x where "x = max f p"
  have fx: "f \<le> x" and xe: "x \<le> e" using bounds(2) pe by (simp_all add: x_def)
  have x0: "0 \<le> x" and x1: "x \<le> 1" using fx xe bounds by simp_all
  have mx: "num_max (Fin f) (Fin p) = Fin x" by (auto simp: num_max_def x_def max_def)
  define e' where "e' = rd (round_fixed 4 x)"
  have tx: "toFixed 4 (Fin x) = Fin e'" unfolding e'_def using x0 x1 by (rule toFixed4_unit)
  define m' where "m' = m\<lparr>mem_policy := Some (q\<lparr>epsilon := Some (Fin e')\<rparr>)\<rparr>"
  have run: "decayExploration m = Inr m'"
    using pol fields p(1) mx tx by (simp add: decayExploration_def policy_field_def Let_def m'_def)
  have lo: "f \<le> e'" using bounds(1) fx x1 grid(2) tx by (rule toFixed4_mono_unit)
  have hi: "e' \<le> e" using x0 xe bounds(3) tx grid(1) by (rule toFixed4_mono_unit)
  have idem: "toFixed 4 (Fin e') = Fin e'"
    using toFixed4_idem_unit[OF x0 x1] by (simp only: tx)
  have "\<bar>x\<bar> < 10 ^ 21" using x0 x1 by simp
  from toFixed_grid_close[OF this, of 4] obtain n :: int where
    "toFixed 4 (Fin x) = dbl (of_int n / 10 ^ 4)"
    "\<bar>of_int n / 10 ^ 4 - x\<bar> \<le> 1 / (2 * 10 ^ 4)" by blast
  then have n: "\<exists>n :: int. Fin e' = dbl (of_int n / 10 ^ 4) \<and>
      \<bar>of_int n / 10 ^ 4 - max f p\<bar> \<le> 1 / 20000"
    using tx by (intro exI[of _ n]) (simp add: x_def)
  have mul: "num_mul (Fin e) (Fin d) = Fin p" using p(1) by simp
  have err: "\<bar>p - e * d\<bar> \<le> 1 / 2 ^ 53" using p(2) by simp
  have code: "Fin e' = toFixed 4 (num_max (Fin f) (Fin p))" using tx mx by simp
  have "mem_policy m' = Some (q\<lparr>epsilon := Some (Fin e')\<rparr>)" by (simp add: m'_def)
  then show ?thesis using run mul err code n lo hi idem by blast
qed

lemma epochLoop_rate:
  assumes fields: "decay q = Some (Fin d)" "minEpsilon q = Some (Fin f)"
    and bounds: "0 \<le> f" "0 \<le> d" "d \<le> 1"
    and grid: "toFixed 4 (Fin f) = Fin f"
  shows "mem_policy m = Some (q\<lparr>epsilon := Some (Fin e)\<rparr>) \<Longrightarrow> f \<le> e \<Longrightarrow> e \<le> 1 \<Longrightarrow>
         toFixed 4 (Fin e) = Fin e \<Longrightarrow>
         epochLoop c w leads epoch n (m, rounds) = Inr (m', rounds') \<Longrightarrow>
         \<exists>e'. mem_policy m' = Some (q\<lparr>epsilon := Some (Fin e')\<rparr>) \<and>
              f \<le> e' \<and> e' \<le> e \<and> toFixed 4 (Fin e') = Fin e'"
proof (induction n arbitrary: m e epoch rounds)
  case 0
  then show ?case by auto
next
  case (Suc n)
  from Suc.prems(5) obtain m1 events effects where
    round: "runEpoch c w epoch leads m = Inr (m1, events, effects)"
    and rest: "epochLoop c w leads (Suc epoch) n (m1, rounds @ [events]) = Inr (m', rounds')"
    by (auto split: sum.splits)
  let ?q = "q\<lparr>epsilon := Some (Fin e)\<rparr>"
  have "\<exists>m2 e1 p. decayExploration m = Inr m2 \<and>
           mem_policy m2 = Some (?q\<lparr>epsilon := Some (Fin e1)\<rparr>) \<and>
           num_mul (Fin e) (Fin d) = Fin p \<and> \<bar>p - e * d\<bar> \<le> 1 / 2 ^ 53 \<and>
           Fin e1 = toFixed 4 (num_max (Fin f) (Fin p)) \<and>
           (\<exists>n :: int. Fin e1 = dbl (of_int n / 10 ^ 4) \<and>
              \<bar>of_int n / 10 ^ 4 - max f p\<bar> \<le> 1 / 20000) \<and>
           f \<le> e1 \<and> e1 \<le> e \<and> toFixed 4 (Fin e1) = Fin e1"
    using fields bounds grid Suc.prems(1,2,3,4)
    by (intro decayExploration_step) simp_all
  then obtain m2 e1 where dec: "decayExploration m = Inr m2"
    and p2: "mem_policy m2 = Some (q\<lparr>epsilon := Some (Fin e1)\<rparr>)"
    and e1: "f \<le> e1" "e1 \<le> e" "toFixed 4 (Fin e1) = Fin e1"
    by auto
  have p1: "mem_policy m1 = Some (q\<lparr>epsilon := Some (Fin e1)\<rparr>)"
    using runEpoch_policy[OF round dec] p2 by simp
  have e11: "e1 \<le> 1" using e1(2) Suc.prems(3) by simp
  from Suc.IH[OF p1 e1(1) e11 e1(3) rest] obtain e' where
    "mem_policy m' = Some (q\<lparr>epsilon := Some (Fin e')\<rparr>)" "f \<le> e'" "e' \<le> e1"
    "toFixed 4 (Fin e') = Fin e'" by blast
  then show ?case using e1(2) by (intro exI[of _ e']) simp
qed


text \<open>
  The policy of the reset memory and its first decay, from 0.45 to 0.315; and the third
  decay of a run, from 0.2205. The product \<open>0.2205 * 0.7\<close> of the doubles lies below
  the decimal tie 0.15435, and the new rate is 0.1543.
\<close>

lemma decay_0_45: "toFixed 4 (num_max (dbl 0.05) (num_mul (dbl 0.45) (dbl 0.7))) = dbl 0.315"
  unfolding dbl_0_05 dbl_0_45 dbl_0_7 num_mul.simps
  by (subst dbl_eval[where k = 54])
     (simp_all add: rne_numeral_eval num_max_def round_fixed_def)

lemma decay_0_2205: "toFixed 4 (num_max (dbl 0.05) (num_mul (dbl 0.2205) (dbl 0.7))) = dbl 0.1543"
  unfolding dbl_0_05 dbl_0_2205 dbl_0_7 num_mul.simps
  by (subst dbl_eval[where k = 55])
     (simp_all add: rne_numeral_eval num_max_def round_fixed_def)


text \<open>
  C4 as stated fails on rates with more than four decimals. With \<open>floorRate\<close> 0.05004,
  \<open>currentRate\<close> 0.06 and \<open>decayFactor\<close> 0.7 the new rate is 0.05, below the floor; with
  \<open>floorRate\<close> 0, \<open>currentRate\<close> 0.00009 and \<open>decayFactor\<close> 0.9 the new rate is
  0.0001, above the old one.
\<close>

lemma decay_below_floor:
  "toFixed 4 (num_max (dbl 0.05004) (num_mul (dbl 0.06) (dbl 0.7))) = dbl 0.05"
  unfolding dbl_0_05004 dbl_0_06 dbl_0_7 num_mul.simps
  by (subst dbl_eval[where k = 57])
     (simp_all add: rne_numeral_eval num_max_def round_fixed_def)

lemma decay_above_rate:
  "toFixed 4 (num_max (Fin 0) (num_mul (dbl 0.00009) (dbl 0.9))) = dbl 0.0001"
  unfolding dbl_0_00009 dbl_0_9 num_mul.simps
  by (subst dbl_eval[where k = 66])
     (simp_all add: rne_numeral_eval num_max_def round_fixed_def)

lemma decayExploration_eval:
  "decayExploration (m\<lparr>mem_policy := Some \<lparr>epsilon = Some a, decay = Some b,
                                              minEpsilon = Some c\<rparr>\<rparr>)
   = Inr (m\<lparr>mem_policy := Some \<lparr>epsilon = Some (toFixed 4 (num_max c (num_mul a b))),
                                     decay = Some b, minEpsilon = Some c\<rparr>\<rparr>)"
  by (simp add: decayExploration_def policy_field_def Let_def)


section \<open>The phone number rule\<close>

text \<open>
  Trimming first changes nothing once the formatting characters are removed, so
  \<open>normalizeE164Phone\<close> applies the E.164 rule to the number with its parentheses,
  hyphens and white space removed.
\<close>

lemma removeFormatting_dropWhile:
  "removeFormatting (dropWhile is_space s) = removeFormatting s"
  by (induction s) (simp_all add: removeFormatting_def)

lemma removeFormatting_rev: "removeFormatting (rev s) = rev (removeFormatting s)"
  by (simp add: removeFormatting_def rev_filter)

lemma removeFormatting_trim: "removeFormatting (trim s) = removeFormatting s"
  by (simp add: trim_def removeFormatting_rev removeFormatting_dropWhile)

lemma removeFormatting_blank: "trim s = [] \<Longrightarrow> removeFormatting s = []"
  using removeFormatting_trim[of s] by (simp add: removeFormatting_def)

lemma normalizeE164Phone_spec:
  "normalizeE164Phone raw =
     (if spec_valid_e164 (removeFormatting (case raw of None \<Rightarrow> [] | Some r \<Rightarrow> r))
      then Some (removeFormatting (case raw of None \<Rightarrow> [] | Some r \<Rightarrow> r)) else None)"
proof -
  define s where "s = (case raw of None \<Rightarrow> [] | Some r \<Rightarrow> r)"
  show ?thesis
  proof (cases "trim s = []")
    case True
    then have "removeFormatting s = []" by (rule removeFormatting_blank)
    then show ?thesis
      using True unfolding s_def[symmetric]
      by (simp add: normalizeE164Phone_def s_def[symmetric] spec_valid_e164_def)
  next
    case False
    show ?thesis
    proof (cases "removeFormatting s")
      case Nil
      then show ?thesis
        using False unfolding s_def[symmetric]
        by (simp add: normalizeE164Phone_def s_def[symmetric] spec_valid_e164_def
            removeFormatting_trim)
    next
      case (Cons c digits)
      then show ?thesis
        using False unfolding s_def[symmetric]
        by (auto simp: normalizeE164Phone_def s_def[symmetric] spec_valid_e164_def
            removeFormatting_trim)
    qed
  qed
qed

section \<open>Escalation decision\<close>

text \<open>A string trims to the empty string exactly when it holds white space only.\<close>

lemma trim_Nil_iff: "trim s = [] \<longleftrightarrow> (\<forall>c\<in>set s. is_space c)"
proof
  assume "trim s = []"
  then have a: "\<forall>c\<in>set (dropWhile is_space s). is_space c"
    by (simp add: trim_def dropWhile_eq_Nil_conv)
  have "dropWhile is_space s = []"
  proof (rule ccontr)
    assume ne: "dropWhile is_space s \<noteq> []"
    then have "\<not> is_space (hd (dropWhile is_space s))" by (rule hd_dropWhile)
    moreover have "hd (dropWhile is_space s) \<in> set (dropWhile is_space s)" using ne by simp
    ultimately show False using a by blast
  qed
  then show "\<forall>c\<in>set s. is_space c" by (simp add: dropWhile_eq_Nil_conv)
next
  assume "\<forall>c\<in>set s. is_space c"
  then have "dropWhile is_space s = []" by (simp add: dropWhile_eq_Nil_conv)
  then show "trim s = []" unfolding trim_def by (simp del: dropWhile_eq_Nil_conv)
qed

lemma lower_TEXT_CHANNELS: "t \<in> set TEXT_CHANNELS \<Longrightarrow> toLowerCase t = t"
  by (auto simp: TEXT_CHANNELS_def toLowerCase_def lower_char_def Let_def)

lemma lower_friction:
  "t \<in> {''skeptical'', ''hesitant'', ''overwhelmed''} \<Longrightarrow> toLowerCase t = t"
  by (auto simp: toLowerCase_def lower_char_def Let_def)

text \<open>
  C5. The escalation decision is true exactly when the round index is at least the
  threshold, the lead's channel equals one of the text channels up to letter case, the
  phone number is a string with a character that is not white space, and the sentiment
  equals one of skeptical, hesitant, overwhelmed up to letter case or the result's
  \<open>conversionProbability\<close> is below 0.58, the double that numeral denotes.
\<close>

theorem shouldEscalateToVoice_iff:
  "shouldEscalateToVoice ld result epoch minEpoch \<longleftrightarrow>
     num_ge (Fin (real epoch)) minEpoch \<and>
     (\<exists>c t. channel ld = Some c \<and> t \<in> set TEXT_CHANNELS \<and> toLowerCase c = toLowerCase t) \<and>
     (\<exists>p. phoneNumber ld = Some p \<and> (\<exists>ch\<in>set p. \<not> is_space ch)) \<and>
     ((\<exists>s t. sentiment ld = Some s \<and> t \<in> {''skeptical'', ''hesitant'', ''overwhelmed''} \<and>
             toLowerCase s = toLowerCase t) \<or>
      num_lt (conversionProbability result) (dbl 0.58))"
proof -
  have chan: "toLowerCase (case channel ld of None \<Rightarrow> [] | Some c \<Rightarrow> c) \<in> set TEXT_CHANNELS \<longleftrightarrow>
      (\<exists>c t. channel ld = Some c \<and> t \<in> set TEXT_CHANNELS \<and> toLowerCase c = toLowerCase t)"
  proof (cases "channel ld")
    case None
    then show ?thesis by (simp add: toLowerCase_def TEXT_CHANNELS_def)
  next
    case (Some c)
    then show ?thesis using lower_TEXT_CHANNELS by auto
  qed
  have phone: "(case phoneNumber ld of None \<Rightarrow> False | Some p \<Rightarrow> 0 < length (trim p)) \<longleftrightarrow>
      (\<exists>p. phoneNumber ld = Some p \<and> (\<exists>ch\<in>set p. \<not> is_space ch))"
    using trim_Nil_iff by (cases "phoneNumber ld") auto
  define sent where "sent = toLowerCase (case sentiment ld of None \<Rightarrow> [] | Some t \<Rightarrow> t)"
  have fr: "(sent = ''skeptical'' \<or> sent = ''hesitant'' \<or> sent = ''overwhelmed'') \<longleftrightarrow>
      (\<exists>s t. sentiment ld = Some s \<and> t \<in> {''skeptical'', ''hesitant'', ''overwhelmed''} \<and>
             toLowerCase s = toLowerCase t)"
  proof (cases "sentiment ld")
    case None
    then show ?thesis by (simp add: sent_def toLowerCase_def)
  next
    case (Some s)
    have "(sent = ''skeptical'' \<or> sent = ''hesitant'' \<or> sent = ''overwhelmed'') \<longleftrightarrow>
        (\<exists>t\<in>{''skeptical'', ''hesitant'', ''overwhelmed''}. toLowerCase s = t)"
      using Some by (auto simp: sent_def)
    also have "\<dots> \<longleftrightarrow> (\<exists>t\<in>{''skeptical'', ''hesitant'', ''overwhelmed''}. toLowerCase s = toLowerCase t)"
      using lower_friction by (metis (no_types, lifting))
    finally show ?thesis using Some by auto
  qed
  have "shouldEscalateToVoice ld result epoch minEpoch \<longleftrightarrow>
      num_ge (Fin (real epoch)) minEpoch \<and>
      toLowerCase (case channel ld of None \<Rightarrow> [] | Some c \<Rightarrow> c) \<in> set TEXT_CHANNELS \<and>
      (case phoneNumber ld of None \<Rightarrow> False | Some p \<Rightarrow> 0 < length (trim p)) \<and>
      ((sent = ''skeptical'' \<or> sent = ''hesitant'' \<or> sent = ''overwhelmed'') \<or>
       num_lt (conversionProbability result) (dbl 0.58))"
    unfolding shouldEscalateToVoice_def Let_def sent_def by (simp only: disj_assoc)
  then show ?thesis by (simp only: chan phone fr)
qed

text \<open>
  The sample lead, skeptical and on WhatsApp, in round 2 with threshold 2; the same lead
  with a blank phone number; and a lead without a friction sentiment, for whom the
  decision turns on the probability: 0.57 is below 0.58, 0.58 is not.
\<close>

theorem shouldEscalateToVoice_iff_witness:
  "shouldEscalateToVoice sample_lead (sample_result 6.25 0.375) 2 (Fin 2) \<and>
   \<not> shouldEscalateToVoice (sample_lead\<lparr>phoneNumber := Some ''  ''\<rparr>) (sample_result 6.25 0.375) 2 (Fin 2) \<and>
   shouldEscalateToVoice (sample_lead\<lparr>sentiment := Some ''curious''\<rparr>)
     (sample_decimal_result 6.2 0.57) 2 (Fin 2) \<and>
   \<not> shouldEscalateToVoice (sample_lead\<lparr>sentiment := Some ''curious''\<rparr>)
     (sample_decimal_result 6.2 0.58) 2 (Fin 2)"
proof -
  have low: "toLowerCase ''WhatsApp'' = toLowerCase ''whatsapp''"
    by (simp add: toLowerCase_def lower_char_def Let_def char_of_eq_iff)
  have ge: "num_ge (Fin (real 2)) (Fin 2)" by (simp add: num_ge_def num_le_def)
  have chan: "\<exists>c t. channel sample_lead = Some c \<and> t \<in> set TEXT_CHANNELS \<and>
        toLowerCase c = toLowerCase t"
    using low by (intro exI[of _ "''WhatsApp''"] exI[of _ "''whatsapp''"])
      (simp add: sample_lead_def TEXT_CHANNELS_def)
  have phone: "\<exists>p. phoneNumber sample_lead = Some p \<and> (\<exists>ch\<in>set p. \<not> is_space ch)"
    by (simp add: sample_lead_def is_space_def)
  have a: "shouldEscalateToVoice sample_lead (sample_result 6.25 0.375) 2 (Fin 2)"
    unfolding shouldEscalateToVoice_iff
  proof (intro conjI)
    show "num_ge (Fin (real 2)) (Fin 2)" by (rule ge)
    show "\<exists>c t. channel sample_lead = Some c \<and> t \<in> set TEXT_CHANNELS \<and>
        toLowerCase c = toLowerCase t" by (rule chan)
    show "\<exists>p. phoneNumber sample_lead = Some p \<and> (\<exists>ch\<in>set p. \<not> is_space ch)" by (rule phone)
    have "sentiment sample_lead = Some ''skeptical'' \<and>
        ''skeptical'' \<in> {''skeptical'', ''hesitant'', ''overwhelmed''} \<and>
        toLowerCase ''skeptical'' = toLowerCase ''skeptical''"
      by (simp add: sample_lead_def)
    then show "(\<exists>s t. sentiment sample_lead = Some s \<and>
          t \<in> {''skeptical'', ''hesitant'', ''overwhelmed''} \<and>
          toLowerCase s = toLowerCase t) \<or>
        num_lt (conversionProbability (sample_result 6.25 0.375)) (dbl 0.58)"
      by blast
  qed
  have b: "\<not> shouldEscalateToVoice (sample_lead\<lparr>phoneNumber := Some ''  ''\<rparr>)
      (sample_result 6.25 0.375) 2 (Fin 2)"
    unfolding shouldEscalateToVoice_iff by (simp add: is_space_def)
  have cur: "toLowerCase ''curious'' = ''curious''"
    by (simp add: toLowerCase_def lower_char_def Let_def)
  have fr: "toLowerCase ''skeptical'' = ''skeptical''" "toLowerCase ''hesitant'' = ''hesitant''"
    "toLowerCase ''overwhelmed'' = ''overwhelmed''"
    by (simp_all add: toLowerCase_def lower_char_def Let_def)
  have nofr: "\<not> (\<exists>s t. sentiment (sample_lead\<lparr>sentiment := Some ''curious''\<rparr>) = Some s \<and>
          t \<in> {''skeptical'', ''hesitant'', ''overwhelmed''} \<and>
          toLowerCase s = toLowerCase t)"
    using cur fr by auto
  have lt57: "num_lt (conversionProbability (sample_decimal_result 6.2 0.57)) (dbl 0.58)"
    unfolding sample_decimal_result_def evaluation.simps dbl_0_57 dbl_0_58
    by (simp add: num_lt_def)
  have lt58: "\<not> num_lt (conversionProbability (sample_decimal_result 6.2 0.58)) (dbl 0.58)"
    unfolding sample_decimal_result_def evaluation.simps dbl_0_58
    by (simp add: num_lt_def)
  have c: "shouldEscalateToVoice (sample_lead\<lparr>sentiment := Some ''curious''\<rparr>)
     (sample_decimal_result 6.2 0.57) 2 (Fin 2)"
    unfolding shouldEscalateToVoice_iff
  proof (intro conjI)
    show "num_ge (Fin (real 2)) (Fin 2)" by (rule ge)
    show "\<exists>c t. channel (sample_lead\<lparr>sentiment := Some ''curious''\<rparr>) = Some c \<and>
        t \<in> set TEXT_CHANNELS \<and> toLowerCase c = toLowerCase t" using chan by simp
    show "\<exists>p. phoneNumber (sample_lead\<lparr>sentiment := Some ''curious''\<rparr>) = Some p \<and>
        (\<exists>ch\<in>set p. \<not> is_space ch)" using phone by simp
    show "(\<exists>s t. sentiment (sample_lead\<lparr>sentiment := Some ''curious''\<rparr>) = Some s \<and>
          t \<in> {''skeptical'', ''hesitant'', ''overwhelmed''} \<and>
          toLowerCase s = toLowerCase t) \<or>
        num_lt (conversionProbability (sample_decimal_result 6.2 0.57)) (dbl 0.58)"
      using lt57 by blast
  qed
  have d: "\<not> shouldEscalateToVoice (sample_lead\<lparr>sentiment := Some ''curious''\<rparr>)
     (sample_decimal_result 6.2 0.58) 2 (Fin 2)"
    unfolding shouldEscalateToVoice_iff using nofr lt58 by blast
  show ?thesis using a b c d by blast
qed

text \<open>
  C8, as amended. The escalation decision is false in every round below the threshold
  (and whenever the round index is not at least the threshold), and false for every lead
  whose phone number is missing, not a string, or blank once trimmed, whatever the
  sentiment and the result. The decision does not look at the form of a phone number that
  is not blank. For a lead whose phone number is a string that, with parentheses, hyphens
  and white space removed, is not a \<open>+\<close> followed by 8 to 15 digits, the follow-up
  sends and writes nothing: with the voice channel enabled it is attempted and turned
  down by the dispatcher with \<open>ok = false\<close> and status \<open>INVALID_PHONE\<close>, and with
  the voice channel disabled it is not attempted.
\<close>

theorem escalation_never_fires:
  "(num_lt (Fin (real epoch)) minEpoch \<longrightarrow> \<not> shouldEscalateToVoice ld result epoch minEpoch) \<and>
   (\<not> num_ge (Fin (real epoch)) minEpoch \<longrightarrow> \<not> shouldEscalateToVoice ld result epoch minEpoch) \<and>
   ((\<forall>p. phoneNumber ld = Some p \<longrightarrow> trim p = []) \<longrightarrow>
      \<not> shouldEscalateToVoice ld result epoch minEpoch) \<and>
   (\<forall>p. phoneNumber ld = Some p \<and> \<not> spec_valid_e164 (removeFormatting p) \<longrightarrow>
      maybeStartVoiceFollowup e http writable enabled ld =
        (if enabled
         then (Inr (Attempted False ''INVALID_PHONE''
                      (case e ''VOICE_MODE'' of Some v \<Rightarrow> v | None \<Rightarrow> ''dry-run'')
                      (Some (''Invalid E.164 phone: '' @ p))), [])
         else (Inr (NotAttempted ''VOICE_CHANNEL_DISABLED''), [])))"
proof -
  have lt: "num_lt (Fin (real epoch)) minEpoch \<Longrightarrow> \<not> num_ge (Fin (real epoch)) minEpoch"
    by (cases minEpoch) (simp_all add: num_lt_def num_ge_def num_le_def)
  have ge: "shouldEscalateToVoice ld result epoch minEpoch \<Longrightarrow> num_ge (Fin (real epoch)) minEpoch"
    by (simp add: shouldEscalateToVoice_def Let_def)
  have ph: "shouldEscalateToVoice ld result epoch minEpoch \<Longrightarrow>
      \<exists>p. phoneNumber ld = Some p \<and> trim p \<noteq> []"
    by (auto simp: shouldEscalateToVoice_def Let_def split: option.splits)
  have inv: "\<forall>p. phoneNumber ld = Some p \<and> \<not> spec_valid_e164 (removeFormatting p) \<longrightarrow>
      maybeStartVoiceFollowup e http writable enabled ld =
        (if enabled
         then (Inr (Attempted False ''INVALID_PHONE''
                      (case e ''VOICE_MODE'' of Some v \<Rightarrow> v | None \<Rightarrow> ''dry-run'')
                      (Some (''Invalid E.164 phone: '' @ p))), [])
         else (Inr (NotAttempted ''VOICE_CHANNEL_DISABLED''), []))"
  proof (intro allI impI)
    fix p assume h: "phoneNumber ld = Some p \<and> \<not> spec_valid_e164 (removeFormatting p)"
    then have "normalizeE164Phone (phoneNumber ld) = None"
      by (simp add: normalizeE164Phone_spec)
    then show "maybeStartVoiceFollowup e http writable enabled ld =
        (if enabled
         then (Inr (Attempted False ''INVALID_PHONE''
                      (case e ''VOICE_MODE'' of Some v \<Rightarrow> v | None \<Rightarrow> ''dry-run'')
                      (Some (''Invalid E.164 phone: '' @ p))), [])
         else (Inr (NotAttempted ''VOICE_CHANNEL_DISABLED''), []))"
      using h by (simp add: maybeStartVoiceFollowup_def startElevenLabsOutboundCall_def Let_def)
  qed
  show ?thesis using lt ge ph inv by blast
qed

theorem escalation_never_fires_witness:
  "\<not> shouldEscalateToVoice sample_lead (sample_result 6.25 0.375) 1 (Fin 2) \<and>
   \<not> shouldEscalateToVoice (sample_lead\<lparr>phoneNumber := None\<rparr>) (sample_result 6.25 0.375) 2 (Fin 2) \<and>
   maybeStartVoiceFollowup Map.empty (HttpResponse True) True True
       (sample_lead\<lparr>phoneNumber := Some ''12345''\<rparr>)
     = (Inr (Attempted False ''INVALID_PHONE'' ''dry-run'' (Some ''Invalid E.164 phone: 12345'')), []) \<and>
   maybeStartVoiceFollowup Map.empty (HttpResponse True) True False
       (sample_lead\<lparr>phoneNumber := Some ''12345''\<rparr>)
     = (Inr (NotAttempted ''VOICE_CHANNEL_DISABLED''), [])"
proof -
  have h1: "num_lt (Fin (real 1)) (Fin 2)" by (simp add: num_lt_def)
  have h2: "\<forall>p. phoneNumber (sample_lead\<lparr>phoneNumber := None\<rparr>) = Some p \<longrightarrow> trim p = []" by simp
  have h3: "phoneNumber (sample_lead\<lparr>phoneNumber := Some ''12345''\<rparr>) = Some ''12345'' \<and>
      \<not> spec_valid_e164 (removeFormatting ''12345'')"
    by (simp add: spec_valid_e164_def removeFormatting_def is_space_def)
  have a: "\<not> shouldEscalateToVoice sample_lead (sample_result 6.25 0.375) 1 (Fin 2)"
    using escalation_never_fires[of 1 "Fin 2" sample_lead "sample_result 6.25 0.375"] h1 by blast
  have b: "\<not> shouldEscalateToVoice (sample_lead\<lparr>phoneNumber := None\<rparr>) (sample_result 6.25 0.375) 2 (Fin 2)"
    using escalation_never_fires[of 2 "Fin 2" "sample_lead\<lparr>phoneNumber := None\<rparr>"
        "sample_result 6.25 0.375"] h2 by blast
  from escalation_never_fires[of 2 "Fin 2" "sample_lead\<lparr>phoneNumber := Some ''12345''\<rparr>"
        "sample_result 6.25 0.375" Map.empty "HttpResponse True" True True] h3
  have c: "maybeStartVoiceFollowup Map.empty (HttpResponse True) True True
      (sample_lead\<lparr>phoneNumber := Some ''12345''\<rparr>)
     = (Inr (Attempted False ''INVALID_PHONE'' ''dry-run'' (Some ''Invalid E.164 phone: 12345'')), [])"
    by simp
  from escalation_never_fires[of 2 "Fin 2" "sample_lead\<lparr>phoneNumber := Some ''12345''\<rparr>"
        "sample_result 6.25 0.375" Map.empty "HttpResponse True" True False] h3
  have d: "maybeStartVoiceFollowup Map.empty (HttpResponse True) True False
      (sample_lead\<lparr>phoneNumber := Some ''12345''\<rparr>)
     = (Inr (NotAttempted ''VOICE_CHANNEL_DISABLED''), [])"
    by simp
  show ?thesis using a b c d by blast
qed

text \<open>
  C8 as stated fails: for the phone number \<open>12345\<close>, which is not E.164, on a
  WhatsApp lead with a skeptical sentiment in round 2 with threshold 2, the decision is
  true.
\<close>

theorem escalation_counterexample:
  "shouldEscalateToVoice (sample_lead\<lparr>phoneNumber := Some ''12345''\<rparr>) (sample_result 6.25 0.375) 2 (Fin 2) \<and>
   \<not> spec_valid_e164 ''12345'' \<and>
   normalizeE164Phone (Some ''12345'') = None"
  by (simp add: shouldEscalateToVoice_def Let_def sample_lead_def sample_result_def
      toLowerCase_def lower_char_def TEXT_CHANNELS_def trim_def is_space_def
      num_ge_def num_le_def num_lt_def spec_valid_e164_def normalizeE164Phone_def
      removeFormatting_def char_of_eq_iff)

section \<open>Outbound call: the phone number\<close>

text \<open>
  C9, as amended. A request whose phone number, with parentheses, hyphens and white space
  removed, is not a \<open>+\<close> followed by 8 to 15 digits is turned down with
  \<open>ok = false\<close> and status \<open>INVALID_PHONE\<close>, and nothing is sent or written. For any
  other number the normalized form is that stripped string, the call is not turned down
  as \<open>INVALID_PHONE\<close>, and every request sent carries the stripped string as
  \<open>to_number\<close>.
\<close>

theorem dispatch_phone_check:
  "(\<not> spec_valid_e164 (removeFormatting (case raw of None \<Rightarrow> [] | Some r \<Rightarrow> r)) \<longrightarrow>
      (\<exists>r. startElevenLabsOutboundCall e http writable raw = (Inr r, []) \<and>
           ok r = False \<and> status r = ''INVALID_PHONE'')) \<and>
   (spec_valid_e164 (removeFormatting (case raw of None \<Rightarrow> [] | Some r \<Rightarrow> r)) \<longrightarrow>
      normalizeE164Phone raw = Some (removeFormatting (case raw of None \<Rightarrow> [] | Some r \<Rightarrow> r)) \<and>
      (\<forall>r. fst (startElevenLabsOutboundCall e http writable raw) = Inr r \<longrightarrow>
         status r \<noteq> ''INVALID_PHONE'') \<and>
      (\<forall>url body. Fetch url body \<in> set (snd (startElevenLabsOutboundCall e http writable raw)) \<longrightarrow>
         to_number body = removeFormatting (case raw of None \<Rightarrow> [] | Some r \<Rightarrow> r)))"
proof -
  define cleaned where "cleaned = removeFormatting (case raw of None \<Rightarrow> [] | Some r \<Rightarrow> r)"
  have n: "normalizeE164Phone raw = (if spec_valid_e164 cleaned then Some cleaned else None)"
    unfolding cleaned_def by (rule normalizeE164Phone_spec)
  have bad: "\<not> spec_valid_e164 cleaned \<Longrightarrow>
      \<exists>r. startElevenLabsOutboundCall e http writable raw = (Inr r, []) \<and>
           ok r = False \<and> status r = ''INVALID_PHONE''"
    using n by (simp add: startElevenLabsOutboundCall_def Let_def)
  have good1: "spec_valid_e164 cleaned \<Longrightarrow>
      fst (startElevenLabsOutboundCall e http writable raw) = Inr r \<Longrightarrow>
         status r \<noteq> ''INVALID_PHONE''" for r
    using n
    by (auto simp: startElevenLabsOutboundCall_def Let_def split: if_splits http_outcome.splits)
  have good2: "spec_valid_e164 cleaned \<Longrightarrow>
      Fetch url body \<in> set (snd (startElevenLabsOutboundCall e http writable raw)) \<Longrightarrow>
         to_number body = cleaned" for url body
    using n
    by (auto simp: startElevenLabsOutboundCall_def Let_def split: if_splits http_outcome.splits)
  show ?thesis unfolding cleaned_def[symmetric] using n bad good1 good2 by auto
qed

theorem dispatch_phone_check_witness:
  "startElevenLabsOutboundCall sample_live_env (HttpResponse True) True (Some ''12345'')
     = (Inr \<lparr>ok = False, status = ''INVALID_PHONE'', call_mode = None,
             call_error = Some ''Invalid E.164 phone: 12345''\<rparr>, []) \<and>
   normalizeE164Phone (Some ''+971501234567'') = Some ''+971501234567''"
proof -
  have c1: "removeFormatting ''12345'' = ''12345''"
    by (simp add: removeFormatting_def is_space_def)
  have c2: "removeFormatting ''+971501234567'' = ''+971501234567''"
    by (simp add: removeFormatting_def is_space_def)
  have h1: "\<not> spec_valid_e164 (removeFormatting (case Some ''12345'' of None \<Rightarrow> [] | Some r \<Rightarrow> r))"
    by (simp add: c1 spec_valid_e164_def)
  have h2: "spec_valid_e164 (removeFormatting (case Some ''+971501234567'' of None \<Rightarrow> [] | Some r \<Rightarrow> r))"
    by (simp add: c2 spec_valid_e164_def is_digit_def)
  have a: "startElevenLabsOutboundCall sample_live_env (HttpResponse True) True (Some ''12345'')
     = (Inr \<lparr>ok = False, status = ''INVALID_PHONE'', call_mode = None,
             call_error = Some ''Invalid E.164 phone: 12345''\<rparr>, [])"
    by (simp add: startElevenLabsOutboundCall_def Let_def normalizeE164Phone_def trim_def
        is_space_def removeFormatting_def)
  from dispatch_phone_check[of "Some ''12345''" sample_live_env "HttpResponse True" True] h1
  have a': "\<exists>r. startElevenLabsOutboundCall sample_live_env (HttpResponse True) True (Some ''12345'')
      = (Inr r, []) \<and> ok r = False \<and> status r = ''INVALID_PHONE''" by blast
  from dispatch_phone_check[of "Some ''+971501234567''" sample_live_env "HttpResponse True" True] h2
  have b: "normalizeE164Phone (Some ''+971501234567'') = Some ''+971501234567''"
    using c2 by simp
  show ?thesis using a a' b by blast
qed

text \<open>
  C9 as stated fails: \<open>+971 50 123-4567\<close> holds spaces and a hyphen, so it is not E.164
  as the specification words the rule, and yet in live mode the call is sent, to
  \<open>+971501234567\<close>.
\<close>

theorem dispatch_phone_counterexample:
  "\<not> spec_valid_e164 ''+971 50 123-4567'' \<and>
   startElevenLabsOutboundCall sample_live_env (HttpResponse True) True (Some ''+971 50 123-4567'')
     = (Inr \<lparr>ok = True, status = ''OK'', call_mode = None, call_error = None\<rparr>,
        [Fetch ''https://api.elevenlabs.io/v1/convai/twilio/outbound-call''
           \<lparr>agent_id = ''agent-1'', agent_phone_number_id = ''pn-1'',
            to_number = ''+971501234567''\<rparr>,
         WriteArtifacts])"
  by (simp add: spec_valid_e164_def is_digit_def startElevenLabsOutboundCall_def Let_def
      normalizeE164Phone_def trim_def is_space_def removeFormatting_def getEnv_def
      sample_live_env_def or_else_def buildClientData_throws_def)

section \<open>Warm-up rounds\<close>

text \<open>
  In a warm-up round each lead adds one event, so \<open>events.length\<close> is the position of
  the lead, and the strategy chosen at position \<open>k\<close> is the catalog entry \<open>k mod 3\<close>.
\<close>

lemma selectStrategy_warmup:
  "num_le (Fin (real epoch)) warmup \<Longrightarrow>
     selectStrategy epoch warmup k m ot = STRATEGIES ! (k mod length STRATEGIES)"
  by (simp add: selectStrategy_def pickWarmupStrategy_def)

lemma processLead_warmup_event:
  assumes "num_le (Fin (real epoch)) (warmupEpochs c)"
    and "processLead c w epoch ld (m, events, effects) = Inr (m', events', effects')"
  shows "\<exists>ev. events' = events @ [ev] \<and>
           e_strategy ev = STRATEGIES ! (length events mod length STRATEGIES)"
  using assms(2) selectStrategy_warmup[OF assms(1)]
  by (auto simp: processLead_def Let_def split: sum.splits option.splits prod.splits)

lemma leadLoop_warmup_events:
  assumes "num_le (Fin (real epoch)) (warmupEpochs c)"
  shows "leadLoop c w epoch leads (m, events, effects) = Inr (m', events', effects') \<Longrightarrow>
     \<exists>new. events' = events @ new \<and>
       map e_strategy new =
         map (\<lambda>k. STRATEGIES ! (k mod length STRATEGIES))
           [length events..<length events + length leads]"
proof (induction leads arbitrary: m events effects)
  case Nil
  then show ?case by simp
next
  case (Cons ld leads)
  from Cons.prems obtain s where
    s: "processLead c w epoch ld (m, events, effects) = Inr s"
    and rest: "leadLoop c w epoch leads s = Inr (m', events', effects')"
    by (auto split: sum.splits)
  obtain m1 ev1 ef1 where s3: "s = (m1, ev1, ef1)" by (cases s) auto
  from processLead_warmup_event[OF assms s[unfolded s3]] obtain ev where
    ev: "ev1 = events @ [ev]"
        "e_strategy ev = STRATEGIES ! (length events mod length STRATEGIES)" by blast
  from Cons.IH[OF rest[unfolded s3]] obtain new where
    new: "events' = ev1 @ new"
      "map e_strategy new =
         map (\<lambda>k. STRATEGIES ! (k mod length STRATEGIES)) [length ev1..<length ev1 + length leads]"
    by blast
  have idx: "[length events..<length events + length (ld # leads)]
      = length events # [Suc (length events)..<Suc (length events) + length leads]"
    by (subst upt_rec) simp
  have "events' = events @ (ev # new)" using ev(1) new(1) by simp
  moreover have "map e_strategy (ev # new) =
         map (\<lambda>k. STRATEGIES ! (k mod length STRATEGIES))
           [length events..<length events + length (ld # leads)]"
    unfolding idx using ev new(2) by simp
  ultimately show ?case by blast
qed

text \<open>
  A warm-up round over a memory that has the statistics of the catalog runs to its end
  when no outbound call throws or is rejected.
\<close>

lemma evaluateCandidates_ok:
  assumes "\<forall>s\<in>set ss. STRATEGY_TEMPLATES s \<noteq> None"
  shows "\<exists>cands. evaluateCandidates e reply ld ss = Inr cands \<and> map fst cands = ss"
  using assms
proof (induction ss)
  case Nil
  then show ?case by simp
next
  case (Cons s ss)
  then obtain cands where c: "evaluateCandidates e reply ld ss = Inr cands" "map fst cands = ss"
    by auto
  from Cons.prems obtain t where t: "STRATEGY_TEMPLATES s = Some t" by auto
  show ?case using c t by (simp add: buildResponse_def)
qed

lemma templates_catalog: "\<forall>s\<in>set STRATEGIES. STRATEGY_TEMPLATES s \<noteq> None"
  by (simp add: STRATEGIES_def STRATEGY_TEMPLATES_def)

lemma voice_no_rejection:
  assumes "\<not> buildClientData_throws e" and "http \<noteq> FetchRejected" and "writable"
  shows "\<exists>v performed. maybeStartVoiceFollowup e http writable enabled ld = (Inr v, performed)"
proof -
  have "\<exists>r effs. startElevenLabsOutboundCall e http writable (phoneNumber ld) = (Inr r, effs)"
    using assms
    by (cases http)
       (auto simp: startElevenLabsOutboundCall_def Let_def split: option.splits)
  then show ?thesis by (auto simp: maybeStartVoiceFollowup_def)
qed

lemma processLead_warmup_returns:
  assumes warm: "num_le (Fin (real epoch)) (warmupEpochs c)"
    and stats: "\<forall>s\<in>set STRATEGIES. strategyStats m s \<noteq> None"
    and data: "\<not> buildClientData_throws (environment c)"
    and http: "http_at w epoch (length events) \<noteq> FetchRejected"
    and disk: "write_at w epoch (length events)"
  shows "\<exists>m' ev performed.
           processLead c w epoch ld (m, events, effects) = Inr (m', events @ [ev], effects @ performed) \<and>
           (\<forall>s\<in>set STRATEGIES. strategyStats m' s \<noteq> None)"
proof -
  define strategy where "strategy = STRATEGIES ! (length events mod length STRATEGIES)"
  have sel: "selectStrategy epoch (warmupEpochs c) (length events) m (objectionType ld) = strategy"
    unfolding strategy_def using warm by (rule selectStrategy_warmup)
  have mem: "strategy \<in> set STRATEGIES"
    unfolding strategy_def by (rule nth_mem) (simp add: STRATEGIES_def)
  from evaluateCandidates_ok[OF templates_catalog] obtain cands where
    cands: "evaluateCandidates (environment c) (llm_at w epoch (length events)) ld STRATEGIES = Inr cands"
      "map fst cands = STRATEGIES" by blast
  from mem templates_catalog obtain t where "STRATEGY_TEMPLATES strategy = Some t" by auto
  then have resp: "buildResponse strategy ld = Inr (t ld)" by (simp add: buildResponse_def)
  have "strategy \<in> fst ` set cands" using mem cands(2) by (metis set_map)
  then obtain result where res: "map_of cands strategy = Some result"
    by (metis map_of_eq_None_iff not_Some_eq)
  from stats mem obtain st where st: "strategyStats m strategy = Some st" by auto
  from updateMemory_stats_step[OF st, of ld result epoch "t ld" cands
      "now_at w epoch (length events)"]
  obtain m' st' where
    upd: "updateMemory m ld strategy result epoch (t ld) cands (now_at w epoch (length events)) = Inr m'"
    and ss: "strategyStats m' = (strategyStats m)(strategy \<mapsto> st')" by blast
  have stats': "\<forall>s\<in>set STRATEGIES. strategyStats m' s \<noteq> None" using stats ss by simp
  have "\<exists>v performed.
    (if shouldEscalateToVoice ld result epoch (minEpochForVoice c)
      then maybeStartVoiceFollowup (environment c) (http_at w epoch (length events))
             (write_at w epoch (length events)) (voiceChannelEnabled c) ld
      else (Inr (NotAttempted ''NO_ESCALATION''), [])) = (Inr v, performed)"
    using voice_no_rejection[OF data http disk, of "voiceChannelEnabled c" ld] by simp
  then obtain v performed where voice:
    "(if shouldEscalateToVoice ld result epoch (minEpochForVoice c)
      then maybeStartVoiceFollowup (environment c) (http_at w epoch (length events))
             (write_at w epoch (length events)) (voiceChannelEnabled c) ld
      else (Inr (NotAttempted ''NO_ESCALATION''), [])) = (Inr v, performed)"
    by blast
  show ?thesis
    using sel cands(1) resp res upd voice stats'
    by (simp add: processLead_def Let_def)
qed

lemma leadLoop_warmup_returns:
  assumes warm: "num_le (Fin (real epoch)) (warmupEpochs c)"
    and data: "\<not> buildClientData_throws (environment c)"
    and http: "\<forall>k. http_at w epoch k \<noteq> FetchRejected \<and> write_at w epoch k"
  shows "\<forall>s\<in>set STRATEGIES. strategyStats m s \<noteq> None \<Longrightarrow>
     \<exists>m' events' effects'. leadLoop c w epoch leads (m, events, effects) = Inr (m', events', effects')"
proof (induction leads arbitrary: m events effects)
  case Nil
  then show ?case by simp
next
  case (Cons ld leads)
  from processLead_warmup_returns[OF warm Cons.prems data, of w events ld effects] http
  obtain m1 ev performed where
    p: "processLead c w epoch ld (m, events, effects) = Inr (m1, events @ [ev], effects @ performed)"
    and s: "\<forall>s\<in>set STRATEGIES. strategyStats m1 s \<noteq> None" by blast
  from Cons.IH[OF s] show ?case using p by simp
qed


text \<open>
  C7. In a round whose index is at most the warm-up count, the strategy selected for the
  lead at position \<open>k\<close> is \<open>STRATEGIES[k mod 3]\<close>, whatever the memory and the
  objection category; the events of every completed round carry exactly these strategies
  in the order of the leads, whatever the memory, the evaluations and the clock, so two
  runs over the same leads assign the same strategies; and from every memory of a run
  (the reset memory among them) the round does complete when the outside lets every
  outbound call through: the client data can be built, no request is rejected by the
  network and the artifact file can be written.
\<close>

theorem warmup_round_robin:
  assumes warm: "num_le (Fin (real epoch)) (warmupEpochs c)"
  shows "(\<forall>k m ot. selectStrategy epoch (warmupEpochs c) k m ot
                     = STRATEGIES ! (k mod length STRATEGIES)) \<and>
         (\<forall>w m m' events effects.
            leadLoop c w epoch leads (m, [], []) = Inr (m', events, effects) \<longrightarrow>
            map e_strategy events
              = map (\<lambda>k. STRATEGIES ! (k mod length STRATEGIES)) [0..<length leads]) \<and>
         (\<forall>w m. reachable m \<and> \<not> buildClientData_throws (environment c) \<and>
                (\<forall>k. http_at w epoch k \<noteq> FetchRejected \<and> write_at w epoch k) \<longrightarrow>
            (\<exists>m' events effects.
               leadLoop c w epoch leads (m, [], []) = Inr (m', events, effects)))"
proof (intro conjI allI impI)
  fix k m ot
  show "selectStrategy epoch (warmupEpochs c) k m ot = STRATEGIES ! (k mod length STRATEGIES)"
    using warm by (rule selectStrategy_warmup)
next
  fix w :: world and m m' events effects
  assume "leadLoop c w epoch leads (m, [], []) = Inr (m', events, effects)"
  from leadLoop_warmup_events[OF warm this]
  show "map e_strategy events
      = map (\<lambda>k. STRATEGIES ! (k mod length STRATEGIES)) [0..<length leads]"
    by auto
next
  fix w :: world and m
  assume a: "reachable m \<and> \<not> buildClientData_throws (environment c) \<and>
                (\<forall>k. http_at w epoch k \<noteq> FetchRejected \<and> write_at w epoch k)"
  then have "\<forall>s\<in>set STRATEGIES. strategyStats m s \<noteq> None"
    using reachable_stats by fastforce
  with leadLoop_warmup_returns[OF warm] a
  show "\<exists>m' events effects. leadLoop c w epoch leads (m, [], []) = Inr (m', events, effects)"
    by blast
qed

theorem warmup_round_robin_witness:
  "\<exists>m' events effects.
     leadLoop sample_config sample_world 1
       [sample_lead, sample_lead\<lparr>objectionType := ''trust''\<rparr>,
        sample_lead\<lparr>objectionType := ''timing''\<rparr>, sample_lead\<lparr>objectionType := ''results''\<rparr>]
       (INITIAL_MEMORY, [], []) = Inr (m', events, effects) \<and>
     map e_strategy events = [''consultative'', ''social_proof'', ''urgent_offer'', ''consultative'']"
proof -
  let ?leads = "[sample_lead, sample_lead\<lparr>objectionType := ''trust''\<rparr>,
        sample_lead\<lparr>objectionType := ''timing''\<rparr>, sample_lead\<lparr>objectionType := ''results''\<rparr>]"
  have warm: "num_le (Fin (real 1)) (warmupEpochs sample_config)"
    by (simp add: sample_config_def num_le_def)
  have http: "\<forall>k. http_at sample_world 1 k \<noteq> FetchRejected \<and> write_at sample_world 1 k"
    by (simp add: sample_world_def)
  have data: "\<not> buildClientData_throws (environment sample_config)"
    by (simp add: buildClientData_throws_def sample_config_def getEnv_def)
  note t = warmup_round_robin[OF warm, of ?leads]
  from t reachable.reset http data obtain m' events effects where
    run: "leadLoop sample_config sample_world 1 ?leads (INITIAL_MEMORY, [], []) = Inr (m', events, effects)"
    by blast
  with t have "map e_strategy events
      = map (\<lambda>k. STRATEGIES ! (k mod length STRATEGIES)) [0..<length ?leads]" by blast
  also have "\<dots> = [''consultative'', ''social_proof'', ''urgent_offer'', ''consultative'']"
    by (simp add: STRATEGIES_def upt_rec)
  finally have strategies:
    "map e_strategy events = [''consultative'', ''social_proof'', ''urgent_offer'', ''consultative'']" .
  show ?thesis
    using run strategies by (intro exI[of _ m'] exI[of _ events] exI[of _ effects] conjI)
qed

section \<open>Evaluation\<close>

lemma num_max_Fin: "num_max (Fin a) (Fin b) = Fin (max a b)"
  by (simp add: num_max_def max_def)

lemma num_min_Fin: "num_min (Fin a) (Fin b) = Fin (min a b)"
  by (simp add: num_min_def min_def)

text \<open>
  Bounding and rounding keep a value between two bounds that are the doubles of numerals
  with no more decimals than the rounding keeps.
\<close>

lemma toFixed_between:
  assumes "dbl a = Fin lo" "dbl b = Fin hi" "round_fixed d lo = a" "round_fixed d hi = b"
    and "0 \<le> lo" "lo \<le> q" "q \<le> hi"
  shows "\<exists>p. toFixed d (Fin q) = Fin p \<and> lo \<le> p \<and> p \<le> hi"
proof -
  have q0: "0 \<le> q" using assms(5,6) by simp
  have "round_fixed d lo \<le> round_fixed d q" using assms(5,6) by (rule round_fixed_mono)
  then have "rd a \<le> rd (round_fixed d q)" unfolding assms(3) by (rule rd_mono)
  then have lo: "lo \<le> rd (round_fixed d q)" using dbl_Fin_rd[OF assms(1)] by simp
  have "round_fixed d q \<le> round_fixed d hi" using q0 assms(7) by (rule round_fixed_mono)
  then have "rd (round_fixed d q) \<le> rd b" unfolding assms(4) by (rule rd_mono)
  then have hi: "rd (round_fixed d q) \<le> hi" using dbl_Fin_rd[OF assms(2)] by simp
  have "\<bar>hi\<bar> < 2 ^ 1024" using assms(2) by (rule dbl_Fin_small)
  then have "\<bar>rd (round_fixed d q)\<bar> < 2 ^ 1024" using lo hi assms(5) by simp
  then have "dbl (round_fixed d q) = Fin (rd (round_fixed d q))" by (simp add: dbl_def)
  then show ?thesis using lo hi by simp
qed

text \<open>The doubles of the numerals the evaluator uses.\<close>

text \<open>
  The rule score of a strategy of the catalog is a number, unless the sentiment names an
  inherited property: adding a finite number to a number never gives NaN.
\<close>

lemma num_add_Fin_not_NaN: "a \<noteq> NaN \<Longrightarrow> num_add a (Fin y) \<noteq> NaN"
  by (cases a) simp_all

lemma boostFor_bound: "\<bar>boostFor objType strategy\<bar> \<le> 2"
  by (simp add: boostFor_def objectionBoost_def)

lemma ruleScore_not_NaN:
  assumes "\<forall>t. sentiment ld = Some t \<longrightarrow> t \<notin> set objectPrototypeKeys"
  shows "ruleScore ld strategy response \<noteq> NaN"
proof -
  have "\<bar>boostFor (objectionType ld) strategy\<bar> \<le> 2 ^ 1"
    using boostFor_bound[of "objectionType ld" strategy] by simp
  from dbl_small[OF this] obtain bv where bv: "dbl (boostFor (objectionType ld) strategy) = Fin bv"
    by auto
  define s0 where "s0 = num_add (dbl 5.5) (dbl (boostFor (objectionType ld) strategy))"
  define s1 where "s1 = (if str_includes response (name ld) then num_add s0 (dbl 0.4) else s0)"
  define s2 where "s2 = (if str_includes response (goal ld) then num_add s1 (dbl 0.6) else s1)"
  define s3 where
    "s3 = (if str_includes (toLowerCase response) ''step'' then num_add s2 (dbl 0.4) else s2)"
  define s4 where
    "s4 = (if str_includes (toLowerCase response) ''week'' then num_add s3 (dbl 0.2) else s3)"
  define s5 where "s5 = addSentimentPenalty s4 (sentiment ld)"
  have n0: "s0 \<noteq> NaN" unfolding s0_def bv dbl_5_5 by simp
  have n1: "s1 \<noteq> NaN" unfolding s1_def dbl_0_4 using n0 by (simp add: num_add_Fin_not_NaN)
  have n2: "s2 \<noteq> NaN" unfolding s2_def dbl_0_6 using n1 by (simp add: num_add_Fin_not_NaN)
  have n3: "s3 \<noteq> NaN" unfolding s3_def dbl_0_4 using n2 by (simp add: num_add_Fin_not_NaN)
  have n4: "s4 \<noteq> NaN" unfolding s4_def dbl_0_2 using n3 by (simp add: num_add_Fin_not_NaN)
  have neg: "dbl (- 0.2) = Fin (- (7205759403792794 / 2 ^ 55))"
    unfolding dbl_neg dbl_0_2 by simp
  have n5: "s5 \<noteq> NaN"
  proof (cases "sentiment ld")
    case None
    then show ?thesis unfolding s5_def addSentimentPenalty_def using n4
      by (simp add: num_add_Fin_not_NaN)
  next
    case (Some t)
    then have "t \<notin> set objectPrototypeKeys" using assms by blast
    then show ?thesis unfolding s5_def addSentimentPenalty_def neg using n4 Some
      by (simp add: num_add_Fin_not_NaN)
  qed
  have n6: "num_sub s5 (dbl 0.3) \<noteq> NaN"
    unfolding num_sub_def dbl_0_3 num_neg.simps using n5 by (rule num_add_Fin_not_NaN)
  have "ruleScore ld strategy response =
      (if strategy = ''urgent_offer'' \<and>
          (sentiment ld = Some ''skeptical'' \<or> sentiment ld = Some ''overwhelmed'')
       then num_sub s5 (dbl 0.3) else s5)"
    unfolding ruleScore_def Let_def s5_def s4_def s3_def s2_def s1_def s0_def ..
  then show ?thesis using n5 n6 by simp
qed

lemma bounded_score:
  assumes "s \<noteq> NaN"
  shows "\<exists>b. num_max (Fin 1) (num_min (Fin 10) s) = Fin b \<and> 1 \<le> b \<and> b \<le> 10"
  using assms by (cases s) (auto simp: num_max_def num_min_def)

lemma evaluateByRules_range:
  assumes "\<forall>t. sentiment ld = Some t \<longrightarrow> t \<notin> set objectPrototypeKeys"
  shows "\<exists>s p. score (evaluateByRules ld strategy response) = Fin s \<and> 1 \<le> s \<and> s \<le> 10 \<and>
           conversionProbability (evaluateByRules ld strategy response) = Fin p \<and>
           0.05 \<le> p \<and> p \<le> 0.95 \<and>
           num_ge (Fin p) (dbl 0.05) \<and> num_le (Fin p) (dbl 0.95)"
proof -
  define L :: real where "L = 7205759403792794 / 2 ^ 57"
  define H :: real where "H = 8286623314361713 / 2 ^ 53"
  define H95 :: real where "H95 = 8556839292003942 / 2 ^ 53"
  have lits: "dbl 0.05 = Fin L" "dbl 0.92 = Fin H" "dbl 0.95 = Fin H95"
    by (simp_all only: dbl_0_05 dbl_0_92 dbl_0_95 L_def H_def H95_def)
  from bounded_score[OF ruleScore_not_NaN[OF assms, of strategy response]] obtain b where
    b: "num_max (Fin 1) (num_min (Fin 10) (ruleScore ld strategy response)) = Fin b"
       "1 \<le> b" "b \<le> 10" by blast
  have r1: "round_fixed 2 1 = 1" and r10: "round_fixed 2 10 = 10"
    by (simp_all add: round_fixed_def)
  from toFixed_between[OF dbl_1 dbl_10 r1 r10 _ b(2,3)] obtain s where
    s: "toFixed 2 (Fin b) = Fin s" "1 \<le> s" "s \<le> 10" by auto
  have "\<bar>b - 3\<bar> \<le> 2 ^ 3" using b(2,3) by simp
  from dbl_small[OF this] obtain t where t: "dbl (b - 3) = Fin t" "\<bar>t\<bar> \<le> 2 ^ 3" by auto
  have "\<bar>t / 8\<bar> \<le> 2 ^ 0" using t(2) by simp
  from dbl_small[OF this] obtain u where u: "dbl (t / 8) = Fin u" by auto
  define q where "q = max L (min H u)"
  have q: "L \<le> q" "q \<le> H" by (simp_all add: q_def L_def H_def)
  have prob: "num_max (dbl 0.05) (num_min (dbl 0.92)
      (num_div_pos (num_sub (Fin b) (Fin 3)) 8)) = Fin q"
    unfolding lits by (simp add: num_sub_def t(1) u num_max_Fin num_min_Fin q_def)
  have rL: "round_fixed 2 L = 0.05" and rH: "round_fixed 2 H = 0.92"
    by (simp_all add: round_fixed_def L_def H_def)
  have L0: "0 \<le> L" by (simp add: L_def)
  from toFixed_between[OF lits(1) lits(2) rL rH L0 q] obtain p where
    p: "toFixed 2 (Fin q) = Fin p" "L \<le> p" "p \<le> H" by auto
  have sc: "score (evaluateByRules ld strategy response) = Fin s"
    unfolding evaluateByRules_def Let_def b(1) using s(1) by simp
  have pr: "conversionProbability (evaluateByRules ld strategy response) = Fin p"
    unfolding evaluateByRules_def Let_def b(1) prob using p(1) by simp
  have lo: "0.05 \<le> p" using p(2) by (simp add: L_def)
  have hi: "p \<le> 0.95" "p \<le> H95" using p(3) by (simp_all add: H_def H95_def)
  have js: "num_ge (Fin p) (dbl 0.05)" "num_le (Fin p) (dbl 0.95)"
    unfolding lits using p(2) hi(2) by (simp_all add: num_ge_def num_le_def)
  show ?thesis using sc pr s(2,3) lo hi(1) js by blast
qed

lemma normalizeScoring_Some:
  "normalizeScoring raw = Some n \<longleftrightarrow>
     (\<exists>r x y. raw = Some r \<and> raw_score r = Fin x \<and> raw_conversionProbability r = Fin y \<and>
        n = \<lparr>n_score = toFixed 2 (num_max (Fin 1) (num_min (Fin 10) (Fin x))),
             n_conversionProbability =
               toFixed 2 (num_max (dbl 0.05) (num_min (dbl 0.95) (Fin y))),
             n_notes = map_option (take 300) (raw_notes r)\<rparr>)"
proof (cases raw)
  case None
  then show ?thesis by (simp add: normalizeScoring_def)
next
  case (Some r)
  show ?thesis
  proof (cases "raw_score r")
    case (Fin x)
    show ?thesis
    proof (cases "raw_conversionProbability r")
      case (Fin y)
      then show ?thesis using Some \<open>raw_score r = Fin x\<close>
        by (auto simp: normalizeScoring_def Let_def)
    qed (simp_all add: Some normalizeScoring_def)
  qed (simp_all add: Some normalizeScoring_def)
qed

text \<open>
  The numbers of an accepted payload: bounded, then rounded to 2 decimals. Each is the
  double of a numeral of 2 decimals within 0.005 of the bounded number, and lies within
  the bounds.
\<close>

lemma bounded_payload:
  "\<exists>(n :: int) (k :: int) s p.
     toFixed 2 (num_max (Fin 1) (num_min (Fin 10) (Fin x))) = dbl (of_int n / 10 ^ 2) \<and>
     \<bar>of_int n / 10 ^ 2 - max 1 (min 10 x)\<bar> \<le> 1 / 200 \<and>
     toFixed 2 (num_max (dbl 0.05) (num_min (dbl 0.95) (Fin y))) = dbl (of_int k / 10 ^ 2) \<and>
     \<bar>of_int k / 10 ^ 2 - max (rd 0.05) (min (rd 0.95) y)\<bar> \<le> 1 / 200 \<and>
     toFixed 2 (num_max (Fin 1) (num_min (Fin 10) (Fin x))) = Fin s \<and> 1 \<le> s \<and> s \<le> 10 \<and>
     toFixed 2 (num_max (dbl 0.05) (num_min (dbl 0.95) (Fin y))) = Fin p \<and>
     0.05 \<le> p \<and> p \<le> 0.95 \<and> num_ge (Fin p) (dbl 0.05) \<and> num_le (Fin p) (dbl 0.95)"
proof -
  define L :: real where "L = 7205759403792794 / 2 ^ 57"
  define H :: real where "H = 8556839292003942 / 2 ^ 53"
  have lits: "dbl 0.05 = Fin L" "dbl 0.95 = Fin H"
    by (simp_all only: dbl_0_05 dbl_0_95 L_def H_def)
  have rds: "rd 0.05 = L" "rd 0.95 = H"
    using dbl_Fin_rd[OF lits(1)] dbl_Fin_rd[OF lits(2)] by simp_all
  define b where "b = max 1 (min 10 x)"
  define q where "q = max L (min H y)"
  have b: "1 \<le> b" "b \<le> 10" by (simp_all add: b_def)
  have q: "L \<le> q" "q \<le> H" by (simp_all add: q_def L_def H_def)
  have eb: "num_max (Fin 1) (num_min (Fin 10) (Fin x)) = Fin b"
    by (simp add: num_max_Fin num_min_Fin b_def)
  have eq: "num_max (dbl 0.05) (num_min (dbl 0.95) (Fin y)) = Fin q"
    unfolding lits by (simp add: num_max_Fin num_min_Fin q_def)
  have "\<bar>b\<bar> < 10 ^ 21" using b by simp
  from toFixed_grid_close[OF this, of 2] obtain n :: int where
    n: "toFixed 2 (Fin b) = dbl (of_int n / 10 ^ 2)" "\<bar>of_int n / 10 ^ 2 - b\<bar> \<le> 1 / (2 * 10 ^ 2)"
    by blast
  have L0: "0 \<le> L" and H1: "H \<le> 1" by (simp_all add: L_def H_def)
  have "\<bar>q\<bar> < 10 ^ 21" using q L0 H1 by simp
  from toFixed_grid_close[OF this, of 2] obtain k :: int where
    k: "toFixed 2 (Fin q) = dbl (of_int k / 10 ^ 2)" "\<bar>of_int k / 10 ^ 2 - q\<bar> \<le> 1 / (2 * 10 ^ 2)"
    by blast
  have r1: "round_fixed 2 1 = 1" and r10: "round_fixed 2 10 = 10"
    by (simp_all add: round_fixed_def)
  from toFixed_between[OF dbl_1 dbl_10 r1 r10 _ b] obtain s where
    s: "toFixed 2 (Fin b) = Fin s" "1 \<le> s" "s \<le> 10" by auto
  have rL: "round_fixed 2 L = 0.05" and rH: "round_fixed 2 H = 0.95"
    by (simp_all add: round_fixed_def L_def H_def)
  from toFixed_between[OF lits(1) lits(2) rL rH L0 q] obtain p where
    p: "toFixed 2 (Fin q) = Fin p" "L \<le> p" "p \<le> H" by auto
  have lo: "0.05 \<le> p" using p(2) by (simp add: L_def)
  have hi: "p \<le> 0.95" using p(3) by (simp add: H_def)
  have js: "num_ge (Fin p) (dbl 0.05)" "num_le (Fin p) (dbl 0.95)"
    unfolding lits using p(2,3) by (simp_all add: num_ge_def num_le_def)
  have n2: "\<bar>of_int n / 10 ^ 2 - max 1 (min 10 x)\<bar> \<le> 1 / 200"
    using n(2) by (simp add: b_def)
  have k2: "\<bar>of_int k / 10 ^ 2 - max (rd 0.05) (min (rd 0.95) y)\<bar> \<le> 1 / 200"
    unfolding rds using k(2) by (simp add: q_def)
  show ?thesis
    unfolding eb eq using n(1) n2 k(1) k2 s p(1) lo hi js
    by (intro exI[of _ n] exI[of _ k] exI[of _ s] exI[of _ p] conjI)
qed

lemma normalizeScoring_range:
  assumes "normalizeScoring raw = Some n"
  shows "\<exists>s p. n_score n = Fin s \<and> 1 \<le> s \<and> s \<le> 10 \<and>
           n_conversionProbability n = Fin p \<and> 0.05 \<le> p \<and> p \<le> 0.95 \<and>
           num_ge (Fin p) (dbl 0.05) \<and> num_le (Fin p) (dbl 0.95)"
proof -
  from assms obtain r :: raw_scoring and x y where
    n: "n = \<lparr>n_score = toFixed 2 (num_max (Fin 1) (num_min (Fin 10) (Fin x))),
             n_conversionProbability =
               toFixed 2 (num_max (dbl 0.05) (num_min (dbl 0.95) (Fin y))),
             n_notes = map_option (take 300) (raw_notes r)\<rparr>"
    unfolding normalizeScoring_Some by blast
  from bounded_payload[of x y] obtain s p where
    "toFixed 2 (num_max (Fin 1) (num_min (Fin 10) (Fin x))) = Fin s" "1 \<le> s" "s \<le> 10"
    "toFixed 2 (num_max (dbl 0.05) (num_min (dbl 0.95) (Fin y))) = Fin p"
    "0.05 \<le> p" "p \<le> 0.95" "num_ge (Fin p) (dbl 0.05)" "num_le (Fin p) (dbl 0.95)"
    by blast
  then show ?thesis unfolding n scoring.simps by blast
qed

text \<open>
  The request fails exactly when there is no scoring object with two finite numbers; a
  scoring object with finite numbers is accepted, whatever their size.
\<close>

lemma evaluateByLlm_fails_iff:
  "(\<exists>err. evaluateByLlm reply = Inl err) \<longleftrightarrow>
     \<not> (\<exists>content r x y. reply = Content content (Some r) \<and> raw_score r = Fin x \<and>
           raw_conversionProbability r = Fin y)"
proof (cases reply)
  case (Content content json)
  have "(\<exists>err. evaluateByLlm reply = Inl err) \<longleftrightarrow> normalizeScoring json = None"
    using Content by (auto simp: evaluateByLlm_def split: option.splits)
  also have "\<dots> \<longleftrightarrow> \<not> (\<exists>n. normalizeScoring json = Some n)" by auto
  also have "\<dots> \<longleftrightarrow> \<not> (\<exists>r x y. json = Some r \<and> raw_score r = Fin x \<and>
           raw_conversionProbability r = Fin y)"
    unfolding normalizeScoring_Some by auto
  finally show ?thesis using Content by auto
qed (simp_all add: evaluateByLlm_def)

lemma evaluateByLlm_accepts:
  assumes "reply = Content content (Some r)" "raw_score r = Fin x"
    "raw_conversionProbability r = Fin y"
  shows "evaluateByLlm reply =
     Inr \<lparr>score = toFixed 2 (num_max (Fin 1) (num_min (Fin 10) (Fin x))),
          conversionProbability = toFixed 2 (num_max (dbl 0.05) (num_min (dbl 0.95) (Fin y))),
          source = ''llm'', ev_notes = map_option (take 300) (raw_notes r)\<rparr>"
proof -
  have "normalizeScoring (Some r) =
      Some \<lparr>n_score = toFixed 2 (num_max (Fin 1) (num_min (Fin 10) (Fin x))),
             n_conversionProbability =
               toFixed 2 (num_max (dbl 0.05) (num_min (dbl 0.95) (Fin y))),
             n_notes = map_option (take 300) (raw_notes r)\<rparr>"
    unfolding normalizeScoring_Some using assms(2,3) by blast
  then show ?thesis using assms(1) by (simp add: evaluateByLlm_def)
qed

lemma evaluateByLlm_range:
  assumes "evaluateByLlm reply = Inr v"
  shows "\<exists>s p. score v = Fin s \<and> 1 \<le> s \<and> s \<le> 10 \<and>
           conversionProbability v = Fin p \<and> 0.05 \<le> p \<and> p \<le> 0.95 \<and>
           num_ge (Fin p) (dbl 0.05) \<and> num_le (Fin p) (dbl 0.95)"
proof (cases reply)
  case (Content content json)
  with assms obtain n where n: "normalizeScoring json = Some n"
    and v: "v = \<lparr>score = n_score n, conversionProbability = n_conversionProbability n,
                  source = ''llm'', ev_notes = n_notes n\<rparr>"
    by (auto simp: evaluateByLlm_def split: option.splits)
  from normalizeScoring_range[OF n] show ?thesis unfolding v evaluation.simps .
qed (use assms in \<open>simp_all add: evaluateByLlm_def\<close>)

text \<open>
  C10, as amended. For a strategy of the catalog and a lead whose sentiment is not the
  name of a property inherited from \<open>Object.prototype\<close>: whenever the language model is
  to be used and its request fails, the evaluation is the rule-based result for the same
  lead, strategy and response, with source \<open>rule_fallback\<close> and the error text as its
  notes. The request fails on a thrown \<open>fetch\<close> (network error, timeout), on an HTTP
  error, on a body that is not JSON and on a reply in which no scoring object is found or
  in which \<open>Number(score)\<close> or \<open>Number(conversionProbability)\<close> is not a finite
  number, and in no other case. A field that \<open>Number\<close> converts to a finite number is
  accepted as that number (\<open>null\<close> converts to 0), and finite numbers out of range are
  not a failure: they are bounded to [1, 10] and [0.05, 0.95], rounded to 2 decimals in
  the way \<open>toFixed\<close> rounds a double, and returned with source \<open>llm\<close>; each
  returned number is the double of a numeral of 2 decimals within 0.005 of the bounded
  number. The evaluation always returns, and every result has a score within [1, 10] and
  a conversion probability within [0.05, 0.95].
\<close>

theorem evaluateLeadAdaptive_result:
  assumes known: "strategy \<in> set STRATEGIES"
    and label: "\<forall>t. sentiment ld = Some t \<longrightarrow> t \<notin> set objectPrototypeKeys"
  shows "(\<forall>err. shouldUseLlm e \<and> evaluateByLlm reply = Inl err \<longrightarrow>
            evaluateLeadAdaptive e reply ld strategy response
              = (evaluateByRules ld strategy response)
                  \<lparr>ev_notes := Some err, source := ''rule_fallback''\<rparr>) \<and>
         ((\<exists>err. evaluateByLlm reply = Inl err) \<longleftrightarrow>
            \<not> (\<exists>content r x y. reply = Content content (Some r) \<and> raw_score r = Fin x \<and>
                  raw_conversionProbability r = Fin y)) \<and>
         (\<forall>content r x y.
            shouldUseLlm e \<and> reply = Content content (Some r) \<and> raw_score r = Fin x \<and>
            raw_conversionProbability r = Fin y \<longrightarrow>
            evaluateLeadAdaptive e reply ld strategy response
              = \<lparr>score = toFixed 2 (num_max (Fin 1) (num_min (Fin 10) (Fin x))),
                 conversionProbability =
                   toFixed 2 (num_max (dbl 0.05) (num_min (dbl 0.95) (Fin y))),
                 source = ''llm'', ev_notes = map_option (take 300) (raw_notes r)\<rparr> \<and>
            (\<exists>(n :: int) (k :: int).
               score (evaluateLeadAdaptive e reply ld strategy response)
                 = dbl (of_int n / 10 ^ 2) \<and>
               \<bar>of_int n / 10 ^ 2 - max 1 (min 10 x)\<bar> \<le> 1 / 200 \<and>
               conversionProbability (evaluateLeadAdaptive e reply ld strategy response)
                 = dbl (of_int k / 10 ^ 2) \<and>
               \<bar>of_int k / 10 ^ 2 - max (rd 0.05) (min (rd 0.95) y)\<bar> \<le> 1 / 200)) \<and>
         (\<not> shouldUseLlm e \<longrightarrow>
            evaluateLeadAdaptive e reply ld strategy response
              = evaluateByRules ld strategy response) \<and>
         (\<exists>s p. score (evaluateLeadAdaptive e reply ld strategy response) = Fin s \<and>
                1 \<le> s \<and> s \<le> 10 \<and>
                conversionProbability (evaluateLeadAdaptive e reply ld strategy response) = Fin p \<and>
                0.05 \<le> p \<and> p \<le> 0.95 \<and>
                num_ge (Fin p) (dbl 0.05) \<and> num_le (Fin p) (dbl 0.95))"
proof (intro conjI)
  show "\<forall>err. shouldUseLlm e \<and> evaluateByLlm reply = Inl err \<longrightarrow>
            evaluateLeadAdaptive e reply ld strategy response
              = (evaluateByRules ld strategy response)
                  \<lparr>ev_notes := Some err, source := ''rule_fallback''\<rparr>"
    by (simp add: evaluateLeadAdaptive_def)
  show "(\<exists>err. evaluateByLlm reply = Inl err) \<longleftrightarrow>
            \<not> (\<exists>content r x y. reply = Content content (Some r) \<and> raw_score r = Fin x \<and>
                  raw_conversionProbability r = Fin y)"
    by (rule evaluateByLlm_fails_iff)
  show "\<forall>content r x y.
            shouldUseLlm e \<and> reply = Content content (Some r) \<and> raw_score r = Fin x \<and>
            raw_conversionProbability r = Fin y \<longrightarrow>
            evaluateLeadAdaptive e reply ld strategy response
              = \<lparr>score = toFixed 2 (num_max (Fin 1) (num_min (Fin 10) (Fin x))),
                 conversionProbability =
                   toFixed 2 (num_max (dbl 0.05) (num_min (dbl 0.95) (Fin y))),
                 source = ''llm'', ev_notes = map_option (take 300) (raw_notes r)\<rparr> \<and>
            (\<exists>(n :: int) (k :: int).
               score (evaluateLeadAdaptive e reply ld strategy response)
                 = dbl (of_int n / 10 ^ 2) \<and>
               \<bar>of_int n / 10 ^ 2 - max 1 (min 10 x)\<bar> \<le> 1 / 200 \<and>
               conversionProbability (evaluateLeadAdaptive e reply ld strategy response)
                 = dbl (of_int k / 10 ^ 2) \<and>
               \<bar>of_int k / 10 ^ 2 - max (rd 0.05) (min (rd 0.95) y)\<bar> \<le> 1 / 200)"
  proof (intro allI impI)
    fix content and r :: raw_scoring and x y
    assume h: "shouldUseLlm e \<and> reply = Content content (Some r) \<and> raw_score r = Fin x \<and>
            raw_conversionProbability r = Fin y"
    have acc: "evaluateByLlm reply =
        Inr \<lparr>score = toFixed 2 (num_max (Fin 1) (num_min (Fin 10) (Fin x))),
             conversionProbability =
               toFixed 2 (num_max (dbl 0.05) (num_min (dbl 0.95) (Fin y))),
             source = ''llm'', ev_notes = map_option (take 300) (raw_notes r)\<rparr>"
      using h by (intro evaluateByLlm_accepts[where content = content]) simp_all
    have res: "evaluateLeadAdaptive e reply ld strategy response
        = \<lparr>score = toFixed 2 (num_max (Fin 1) (num_min (Fin 10) (Fin x))),
           conversionProbability =
             toFixed 2 (num_max (dbl 0.05) (num_min (dbl 0.95) (Fin y))),
           source = ''llm'', ev_notes = map_option (take 300) (raw_notes r)\<rparr>"
      unfolding evaluateLeadAdaptive_def acc using h by simp
    from bounded_payload[of x y] obtain n k :: int where
      "toFixed 2 (num_max (Fin 1) (num_min (Fin 10) (Fin x))) = dbl (of_int n / 10 ^ 2)"
      "\<bar>of_int n / 10 ^ 2 - max 1 (min 10 x)\<bar> \<le> 1 / 200"
      "toFixed 2 (num_max (dbl 0.05) (num_min (dbl 0.95) (Fin y))) = dbl (of_int k / 10 ^ 2)"
      "\<bar>of_int k / 10 ^ 2 - max (rd 0.05) (min (rd 0.95) y)\<bar> \<le> 1 / 200"
      by blast
    then have "\<exists>(n :: int) (k :: int).
        score (evaluateLeadAdaptive e reply ld strategy response) = dbl (of_int n / 10 ^ 2) \<and>
        \<bar>of_int n / 10 ^ 2 - max 1 (min 10 x)\<bar> \<le> 1 / 200 \<and>
        conversionProbability (evaluateLeadAdaptive e reply ld strategy response)
          = dbl (of_int k / 10 ^ 2) \<and>
        \<bar>of_int k / 10 ^ 2 - max (rd 0.05) (min (rd 0.95) y)\<bar> \<le> 1 / 200"
      unfolding res evaluation.simps by blast
    then show "evaluateLeadAdaptive e reply ld strategy response
              = \<lparr>score = toFixed 2 (num_max (Fin 1) (num_min (Fin 10) (Fin x))),
                 conversionProbability =
                   toFixed 2 (num_max (dbl 0.05) (num_min (dbl 0.95) (Fin y))),
                 source = ''llm'', ev_notes = map_option (take 300) (raw_notes r)\<rparr> \<and>
            (\<exists>(n :: int) (k :: int).
               score (evaluateLeadAdaptive e reply ld strategy response)
                 = dbl (of_int n / 10 ^ 2) \<and>
               \<bar>of_int n / 10 ^ 2 - max 1 (min 10 x)\<bar> \<le> 1 / 200 \<and>
               conversionProbability (evaluateLeadAdaptive e reply ld strategy response)
                 = dbl (of_int k / 10 ^ 2) \<and>
               \<bar>of_int k / 10 ^ 2 - max (rd 0.05) (min (rd 0.95) y)\<bar> \<le> 1 / 200)"
      using res by blast
  qed
  show "\<not> shouldUseLlm e \<longrightarrow>
            evaluateLeadAdaptive e reply ld strategy response
              = evaluateByRules ld strategy response"
    by (simp add: evaluateLeadAdaptive_def)
  show "\<exists>s p. score (evaluateLeadAdaptive e reply ld strategy response) = Fin s \<and>
                1 \<le> s \<and> s \<le> 10 \<and>
                conversionProbability (evaluateLeadAdaptive e reply ld strategy response) = Fin p \<and>
                0.05 \<le> p \<and> p \<le> 0.95 \<and>
                num_ge (Fin p) (dbl 0.05) \<and> num_le (Fin p) (dbl 0.95)"
  proof (cases "shouldUseLlm e")
    case False
    then have "evaluateLeadAdaptive e reply ld strategy response
        = evaluateByRules ld strategy response" by (simp add: evaluateLeadAdaptive_def)
    then show ?thesis
      using evaluateByRules_range[OF label, of strategy response] by (simp only:)
  next
    case True
    show ?thesis
    proof (cases "evaluateByLlm reply")
      case (Inl err)
      then have sc: "score (evaluateLeadAdaptive e reply ld strategy response)
          = score (evaluateByRules ld strategy response)"
        and pr: "conversionProbability (evaluateLeadAdaptive e reply ld strategy response)
          = conversionProbability (evaluateByRules ld strategy response)"
        using True by (simp_all add: evaluateLeadAdaptive_def)
      show ?thesis
        using evaluateByRules_range[OF label, of strategy response] by (simp only: sc pr)
    next
      case (Inr v)
      then have "evaluateLeadAdaptive e reply ld strategy response = v"
        using True by (simp add: evaluateLeadAdaptive_def)
      then show ?thesis
        using evaluateByLlm_range[OF Inr] by (simp only:)
    qed
  qed
qed

text \<open>
  The rule-based result for the sample lead and a short consultative reply, 6.7 and 0.46;
  and the answer to a reply whose numbers lie half-way in decimal notation: the doubles
  9.995 and 0.575 lie below the half-way points, and the evaluation returns 9.99 and
  0.57.
\<close>

lemma sample_rule_result:
  "evaluateByRules sample_lead ''consultative'' ''Totally fair point, Amira.''
     = \<lparr>score = dbl 6.7, conversionProbability = dbl 0.46, source = ''rule'', ev_notes = None\<rparr>"
  by (simp add: evaluateByRules_def ruleScore_def Let_def boostFor_def objectionBoost_def
      addSentimentPenalty_def sample_lead_def toLowerCase_def lower_char_def char_of_eq_iff
      num_max_Fin num_min_Fin num_sub_def round_fixed_def rne_numeral_eval dbl_neg
      dbl_eval[where k = 50] dbl_eval[where k = 51] dbl_eval[where k = 52]
      dbl_eval[where k = 53] dbl_eval[where k = 54] dbl_eval[where k = 55]
      dbl_eval[where k = 57])

lemma half_way_score:
  "toFixed 2 (num_max (Fin 1) (num_min (Fin 10) (dbl 9.995))) = dbl 9.99"
  by (simp add: num_max_Fin num_min_Fin round_fixed_def rne_numeral_eval dbl_eval[where k = 49])

lemma half_way_probability:
  "toFixed 2 (num_max (dbl 0.05) (num_min (dbl 0.95) (dbl 0.575))) = dbl 0.57"
  by (simp add: num_max_Fin num_min_Fin round_fixed_def rne_numeral_eval
      dbl_eval[where k = 53] dbl_eval[where k = 57])

lemma shouldUseLlm_mode_llm: "shouldUseLlm [''EVALUATOR_MODE'' \<mapsto> ''llm'']"
  by (simp add: shouldUseLlm_def getEnv_def trim_def is_space_def toLowerCase_def
      lower_char_def Let_def)

theorem evaluateLeadAdaptive_result_witness:
  "evaluateLeadAdaptive [''EVALUATOR_MODE'' \<mapsto> ''llm'']
     (RequestFailed ''AbortError: This operation was aborted'')
     sample_lead ''consultative'' ''Totally fair point, Amira.''
   = \<lparr>score = dbl 6.7, conversionProbability = dbl 0.46, source = ''rule_fallback'',
      ev_notes = Some ''LLM request failed: AbortError: This operation was aborted''\<rparr> \<and>
   evaluateLeadAdaptive [''EVALUATOR_MODE'' \<mapsto> ''llm''] sample_half_way_reply
     sample_lead ''consultative'' ''Totally fair point, Amira.''
   = \<lparr>score = dbl 9.99, conversionProbability = dbl 0.57, source = ''llm'', ev_notes = None\<rparr>"
proof -
  have h1: "''consultative'' \<in> set STRATEGIES" by (simp add: STRATEGIES_def)
  have h2: "\<forall>t. sentiment sample_lead = Some t \<longrightarrow> t \<notin> set objectPrototypeKeys"
    by (simp add: sample_lead_def objectPrototypeKeys_def)
  have h4: "evaluateByLlm (RequestFailed ''AbortError: This operation was aborted'')
      = Inl ''LLM request failed: AbortError: This operation was aborted''"
    by (simp add: evaluateByLlm_def)
  from evaluateLeadAdaptive_result[OF h1 h2, of "[''EVALUATOR_MODE'' \<mapsto> ''llm'']"
      "RequestFailed ''AbortError: This operation was aborted''" "''Totally fair point, Amira.''"]
    shouldUseLlm_mode_llm h4
  have "evaluateLeadAdaptive [''EVALUATOR_MODE'' \<mapsto> ''llm'']
     (RequestFailed ''AbortError: This operation was aborted'')
     sample_lead ''consultative'' ''Totally fair point, Amira.''
     = (evaluateByRules sample_lead ''consultative'' ''Totally fair point, Amira.'')
         \<lparr>ev_notes := Some ''LLM request failed: AbortError: This operation was aborted'',
          source := ''rule_fallback''\<rparr>" by blast
  then have a: "evaluateLeadAdaptive [''EVALUATOR_MODE'' \<mapsto> ''llm'']
     (RequestFailed ''AbortError: This operation was aborted'')
     sample_lead ''consultative'' ''Totally fair point, Amira.''
   = \<lparr>score = dbl 6.7, conversionProbability = dbl 0.46, source = ''rule_fallback'',
      ev_notes = Some ''LLM request failed: AbortError: This operation was aborted''\<rparr>"
    unfolding sample_rule_result by simp
  from dbl_small[of "9.995" 4] obtain x where x: "dbl 9.995 = Fin x" by auto
  from dbl_small[of "0.575" 0] obtain y where y: "dbl 0.575 = Fin y" by auto
  note xy = x y
  define r :: raw_scoring where
    "r = \<lparr>raw_score = dbl 9.995, raw_conversionProbability = dbl 0.575, raw_notes = None\<rparr>"
  have rep: "sample_half_way_reply =
      Content (''{'' @ [CHR 0x22] @ ''score'' @ [CHR 0x22] @ '':9.995,'' @ [CHR 0x22] @
              ''conversionProbability'' @ [CHR 0x22] @ '':0.575}'') (Some r)"
    unfolding sample_half_way_reply_def r_def ..
  have rx: "raw_score r = Fin x" and ry: "raw_conversionProbability r = Fin y"
    and rn: "raw_notes r = None"
    unfolding r_def raw_scoring.simps by (simp_all only: xy)
  from evaluateLeadAdaptive_result[OF h1 h2, of "[''EVALUATOR_MODE'' \<mapsto> ''llm'']"
      sample_half_way_reply "''Totally fair point, Amira.''"]
    shouldUseLlm_mode_llm rep rx ry
  have "evaluateLeadAdaptive [''EVALUATOR_MODE'' \<mapsto> ''llm''] sample_half_way_reply
     sample_lead ''consultative'' ''Totally fair point, Amira.''
   = \<lparr>score = toFixed 2 (num_max (Fin 1) (num_min (Fin 10) (Fin x))),
      conversionProbability = toFixed 2 (num_max (dbl 0.05) (num_min (dbl 0.95) (Fin y))),
      source = ''llm'', ev_notes = map_option (take 300) (raw_notes r)\<rparr>"
    by blast
  then have b: "evaluateLeadAdaptive [''EVALUATOR_MODE'' \<mapsto> ''llm''] sample_half_way_reply
     sample_lead ''consultative'' ''Totally fair point, Amira.''
   = \<lparr>score = dbl 9.99, conversionProbability = dbl 0.57, source = ''llm'', ev_notes = None\<rparr>"
    unfolding xy[symmetric] half_way_score half_way_probability rn by simp
  show ?thesis using a b by blast
qed

text \<open>
  C10 as stated fails on an out-of-range payload: the reply
  \<open>{"score":15,"conversionProbability":1.4}\<close> is not answered by the rule-based
  result (6.7 and 0.46 here) but by the bounded numbers 10 and 0.95, with source
  \<open>llm\<close>.
\<close>

theorem evaluateLeadAdaptive_counterexample:
  "evaluateLeadAdaptive [''EVALUATOR_MODE'' \<mapsto> ''llm''] sample_out_of_range_reply
     sample_lead ''consultative'' ''Totally fair point, Amira.''
   = \<lparr>score = Fin 10, conversionProbability = dbl 0.95, source = ''llm'', ev_notes = None\<rparr> \<and>
   evaluateByRules sample_lead ''consultative'' ''Totally fair point, Amira.''
   = \<lparr>score = dbl 6.7, conversionProbability = dbl 0.46, source = ''rule'', ev_notes = None\<rparr>"
proof -
  have "evaluateLeadAdaptive [''EVALUATOR_MODE'' \<mapsto> ''llm''] sample_out_of_range_reply
     sample_lead ''consultative'' ''Totally fair point, Amira.''
   = \<lparr>score = Fin 10, conversionProbability = dbl 0.95, source = ''llm'', ev_notes = None\<rparr>"
    using shouldUseLlm_mode_llm
    by (simp add: evaluateLeadAdaptive_def evaluateByLlm_def normalizeScoring_def Let_def
        sample_out_of_range_reply_def num_max_Fin num_min_Fin round_fixed_def
        rne_numeral_eval dbl_eval[where k = 49] dbl_eval[where k = 52]
        dbl_eval[where k = 53] dbl_eval[where k = 57])
  then show ?thesis using sample_rule_result by simp
qed

text \<open>
  The hypothesis on the sentiment is needed: for the sentiment \<open>constructor\<close> the lookup
  in \<open>sentimentPenalty\<close> finds the inherited function, \<open>score\<close> turns into a string,
  and both numbers of the result are NaN.
\<close>

lemma evaluateByRules_inherited_sentiment:
  "evaluateByRules (sample_lead\<lparr>sentiment := Some ''constructor''\<rparr>) ''consultative''
     ''Totally fair point, Amira.''
   = \<lparr>score = NaN, conversionProbability = NaN, source = ''rule'', ev_notes = None\<rparr>"
  by (simp add: evaluateByRules_def ruleScore_def Let_def addSentimentPenalty_def
      objectPrototypeKeys_def sample_lead_def num_max_def num_min_def num_sub_def)


end
